(* ===== verification/Prelude.thy ===== *)
theory Prelude
  imports Main "HOL-Library.Word" "HOL-Library.Sublist"
begin

text \<open>
  Shared vocabulary of the development.

  \<^item> A Rust \<open>String\<close> or \<open>&str\<close> is modelled by its UTF-8 bytes, as an Isabelle
    \<open>string\<close> (a list of 8-bit \<open>char\<close>s). Lengths are therefore byte lengths, as
    \<open>str::len\<close> counts them, and the functions of the standard library that look at
    Unicode scalar values (\<open>trim\<close>, \<open>split_whitespace\<close>, \<open>chars\<close>) are written over
    the encoding.
  \<^item> A UUID is a \<open>128 word\<close>, with the two textual forms the program prints.
  \<^item> A computation with effects is a function from the world to an optional pair of a
    result and the new world: \<open>None\<close> says that it panics or has not returned within the fuel
    given to its loops, \<open>Inl\<close> is an \<open>Err\<close> and \<open>Inr\<close> an \<open>Ok\<close>.
\<close>

named_theorems io_simps \<open>when a composed computation returns\<close>
named_theorems str_simps \<open>evaluation of the string functions\<close>

section \<open>Bytes and characters\<close>

type_synonym uuid = "128 word"

abbreviation byte :: "char \<Rightarrow> nat" where
  "byte c \<equiv> of_char c"

abbreviation bchr :: "nat \<Rightarrow> char" where
  "bchr n \<equiv> char_of n"

definition newline :: char where
  "newline = CHR 0x0A"

definition is_digit :: "char \<Rightarrow> bool" where
  "is_digit c = (48 \<le> byte c \<and> byte c \<le> 57)"

definition is_ascii_alphanumeric :: "char \<Rightarrow> bool" where
  "is_ascii_alphanumeric c =
     (is_digit c \<or> (65 \<le> byte c \<and> byte c \<le> 90) \<or> (97 \<le> byte c \<and> byte c \<le> 122))"

definition is_ascii_hexdigit :: "char \<Rightarrow> bool" where
  "is_ascii_hexdigit c =
     (is_digit c \<or> (65 \<le> byte c \<and> byte c \<le> 70) \<or> (97 \<le> byte c \<and> byte c \<le> 102))"

definition to_ascii_lower :: "char \<Rightarrow> char" where
  "to_ascii_lower c = (if 65 \<le> byte c \<and> byte c \<le> 90 then bchr (byte c + 32) else c)"

text \<open>A continuation byte of UTF-8: the encoding of a scalar value starts at every
  byte that is not one.\<close>

definition utf8_cont :: "char \<Rightarrow> bool" where
  "utf8_cont c = (128 \<le> byte c \<and> byte c < 192)"

text \<open>\<open>str::is_char_boundary\<close> and \<open>chars().count()\<close>.\<close>

definition is_char_boundary :: "string \<Rightarrow> nat \<Rightarrow> bool" where
  "is_char_boundary s i =
     (i = 0 \<or> i = length s \<or> (i < length s \<and> \<not> utf8_cont (s ! i)))"

definition char_count :: "string \<Rightarrow> nat" where
  "char_count s = length (filter (\<lambda>c. \<not> utf8_cont c) s)"

text \<open>Replacing every scalar value outside \<open>[A-Za-z0-9_]\<close> by one underscore, a map over
  \<open>chars()\<close> that three functions of the program share.\<close>

definition ident_char :: "char \<Rightarrow> bool" where
  "ident_char c = (is_ascii_alphanumeric c \<or> c = CHR ''_'')"

definition sanitize_chars :: "string \<Rightarrow> string" where
  "sanitize_chars s =
     concat (map (\<lambda>c. if ident_char c then [c] else if utf8_cont c then [] else ''_'') s)"

lemma ident_char_underscore [simp]: "ident_char (CHR ''_'')"
  by (simp add: ident_char_def)

lemma ident_char_ascii: "ident_char c \<Longrightarrow> byte c < 128"
  by (auto simp: ident_char_def is_ascii_alphanumeric_def is_digit_def)

lemma sanitize_chars_ident: "c \<in> set (sanitize_chars s) \<Longrightarrow> ident_char c"
  by (auto simp: sanitize_chars_def split: if_splits)

lemma sanitize_chars_id: "\<forall>c \<in> set s. ident_char c \<Longrightarrow> sanitize_chars s = s"
  by (induction s) (auto simp: sanitize_chars_def)

lemma sanitize_chars_idem [simp]: "sanitize_chars (sanitize_chars s) = sanitize_chars s"
  by (rule sanitize_chars_id) (auto dest: sanitize_chars_ident)

section \<open>Substrings\<close>

fun contains :: "string \<Rightarrow> string \<Rightarrow> bool" where
  "contains needle [] = (needle = [])"
| "contains needle (c # cs) = (prefix needle (c # cs) \<or> contains needle cs)"

lemma contains_sublist: "contains needle s = sublist needle s"
  by (induction s) (auto simp: sublist_Cons_right)

lemma contains_iff: "contains needle s = (\<exists>a b. s = a @ needle @ b)"
  by (simp add: contains_sublist sublist_def)

lemma contains_infix [intro]: "contains needle (a @ needle @ b)"
  by (auto simp: contains_iff)

definition strip_prefix :: "string \<Rightarrow> string \<Rightarrow> string option" where
  "strip_prefix p s = (if prefix p s then Some (drop (length p) s) else None)"

definition strip_suffix :: "string \<Rightarrow> string \<Rightarrow> string option" where
  "strip_suffix p s = (if suffix p s then Some (take (length s - length p) s) else None)"

lemma strip_prefix_Some [simp]: "strip_prefix p (p @ s) = Some s"
  by (simp add: strip_prefix_def)

lemma strip_suffix_Some [simp]: "strip_suffix p (s @ p) = Some s"
  by (simp add: strip_suffix_def suffix_def)

lemma strip_prefix_eq_Some: "strip_prefix p s = Some t \<longleftrightarrow> s = p @ t"
  by (auto simp: strip_prefix_def prefix_def split: if_splits)

lemma strip_suffix_eq_Some: "strip_suffix p s = Some t \<longleftrightarrow> s = t @ p"
  by (auto simp: strip_suffix_def suffix_def split: if_splits)

text \<open>\<open>str::split_once\<close>: the text before and after the first occurrence.\<close>

fun split_once :: "string \<Rightarrow> string \<Rightarrow> (string \<times> string) option" where
  "split_once sep [] = (if sep = [] then Some ([], []) else None)"
| "split_once sep (c # cs) =
     (if prefix sep (c # cs) then Some ([], drop (length sep) (c # cs))
      else map_option (\<lambda>(a, b). (c # a, b)) (split_once sep cs))"

lemma split_once_Some: "split_once sep s = Some (a, b) \<Longrightarrow> s = a @ sep @ b"
  by (induction sep s arbitrary: a b rule: split_once.induct)
     (auto simp: prefix_def split: if_splits)

lemma split_once_None: "split_once sep s = None \<longleftrightarrow> \<not> contains sep s"
  by (induction sep s rule: split_once.induct) auto

text \<open>\<open>str::replace\<close> and \<open>str::replacen(.., 1)\<close> for a non-empty pattern: occurrences
  are found from the left and do not overlap.\<close>

function replace_all :: "string \<Rightarrow> string \<Rightarrow> string \<Rightarrow> string" where
  "replace_all p r [] = []"
| "replace_all p r (c # cs) =
     (if p \<noteq> [] \<and> prefix p (c # cs) then r @ replace_all p r (drop (length p) (c # cs))
      else c # replace_all p r cs)"
  by pat_completeness auto
termination
  by (relation "measure (\<lambda>(p, r, s). length s)") auto

definition replace_first :: "string \<Rightarrow> string \<Rightarrow> string \<Rightarrow> string" where
  "replace_first p r s =
     (case split_once p s of None \<Rightarrow> s | Some (a, b) \<Rightarrow> a @ r @ b)"

fun join :: "string \<Rightarrow> string list \<Rightarrow> string" where
  "join sep [] = []"
| "join sep [s] = s"
| "join sep (s # t # ts) = s @ sep @ join sep (t # ts)"

text \<open>\<open>str::split\<close> for a non-empty pattern.\<close>

function split_str :: "string \<Rightarrow> string \<Rightarrow> string list" where
  "split_str sep s =
     (if sep = [] then [s]
      else case split_once sep s of None \<Rightarrow> [s] | Some (a, b) \<Rightarrow> a # split_str sep b)"
  by pat_completeness auto
termination
  by (relation "measure (\<lambda>(sep, s). length s)") (auto dest!: split_once_Some)

declare split_str.simps [simp del]

section \<open>Lossy decoding\<close>

text \<open>The first step of \<open>String::from_utf8_lossy\<close>: whether the bytes start with a well-formed
  sequence, and the length of that sequence or of the maximal ill-formed part.\<close>

definition cont_at :: "nat \<Rightarrow> nat \<Rightarrow> string \<Rightarrow> nat \<Rightarrow> bool" where
  "cont_at lo hi s i = (i < length s \<and> lo \<le> byte (s ! i) \<and> byte (s ! i) \<le> hi)"

definition utf8_second :: "nat \<Rightarrow> nat \<times> nat" where
  "utf8_second b =
     (if b = 0xE0 then (0xA0, 0xBF) else if b = 0xED then (0x80, 0x9F)
      else if b = 0xF0 then (0x90, 0xBF) else if b = 0xF4 then (0x80, 0x8F) else (0x80, 0xBF))"

definition utf8_step :: "string \<Rightarrow> bool \<times> nat" where
  "utf8_step s =
     (let b = byte (hd s);
          second = cont_at (fst (utf8_second b)) (snd (utf8_second b)) s 1;
          third = cont_at 0x80 0xBF s 2; fourth = cont_at 0x80 0xBF s 3 in
      if b < 0x80 then (True, 1)
      else if b < 0xC2 \<or> 0xF4 < b then (False, 1)
      else if b < 0xE0 then (if second then (True, 2) else (False, 1))
      else if b < 0xF0 then
        (if \<not> second then (False, 1) else if third then (True, 3) else (False, 2))
      else
        (if \<not> second then (False, 1) else if \<not> third then (False, 2)
         else if fourth then (True, 4) else (False, 3)))"

lemma utf8_step_pos: "0 < snd (utf8_step s)"
  by (simp add: utf8_step_def Let_def)

definition replacement_char :: string where
  "replacement_char = [bchr 0xEF, bchr 0xBF, bchr 0xBD]"

function from_utf8_lossy :: "string \<Rightarrow> string" where
  "from_utf8_lossy s =
     (if s = [] then []
      else
        (let r = utf8_step s in
         (if fst r then take (snd r) s else replacement_char) @ from_utf8_lossy (drop (snd r) s)))"
  by pat_completeness auto
termination
proof (relation "measure length")
  show "wf (measure length)" by simp
next
  fix s :: string and r
  assume "s \<noteq> []" and "r = utf8_step s"
  with utf8_step_pos [of s] show "(drop (snd r) s, s) \<in> measure length" by (cases s) auto
qed

declare from_utf8_lossy.simps [simp del]

text \<open>\<open>std::str::from_utf8\<close>: the bytes when every sequence is well formed.\<close>

function valid_utf8 :: "string \<Rightarrow> bool" where
  "valid_utf8 s =
     (if s = [] then True
      else if fst (utf8_step s) then valid_utf8 (drop (snd (utf8_step s)) s) else False)"
  by pat_completeness auto
termination
proof (relation "measure length")
  fix s :: string
  assume "s \<noteq> []"
  with utf8_step_pos [of s] show "(drop (snd (utf8_step s)) s, s) \<in> measure length"
    by (cases s) auto
qed simp

declare valid_utf8.simps [simp del]

section \<open>White space\<close>

text \<open>The number of bytes of the Unicode \<open>White_Space\<close> scalar value that a text starts
  with, 0 when it starts with none: the ASCII ones, U+0085, U+00A0, U+1680,
  U+2000 to U+200A, U+2028, U+2029, U+202F, U+205F and U+3000.\<close>

definition ws_ascii :: "char \<Rightarrow> bool" where
  "ws_ascii c = ((9 \<le> byte c \<and> byte c \<le> 13) \<or> byte c = 32)"

fun ws_len :: "string \<Rightarrow> nat" where
  "ws_len [] = 0"
| "ws_len [a] = (if ws_ascii a then 1 else 0)"
| "ws_len [a, b] =
     (if ws_ascii a then 1
      else if byte a = 0xC2 \<and> (byte b = 0x85 \<or> byte b = 0xA0) then 2 else 0)"
| "ws_len (a # b # c # s) =
     (if ws_ascii a then 1
      else if byte a = 0xC2 \<and> (byte b = 0x85 \<or> byte b = 0xA0) then 2
      else if byte a = 0xE1 \<and> byte b = 0x9A \<and> byte c = 0x80 then 3
      else if byte a = 0xE2 \<and> byte b = 0x80 \<and>
           ((0x80 \<le> byte c \<and> byte c \<le> 0x8A) \<or> byte c = 0xA8 \<or> byte c = 0xA9 \<or> byte c = 0xAF)
        then 3
      else if byte a = 0xE2 \<and> byte b = 0x81 \<and> byte c = 0x9F then 3
      else if byte a = 0xE3 \<and> byte b = 0x80 \<and> byte c = 0x80 then 3 else 0)"

lemma ws_len_le: "ws_len s \<le> length s"
  by (induction s rule: ws_len.induct) auto

function trim_start :: "string \<Rightarrow> string" where
  "trim_start s = (if ws_len s = 0 then s else trim_start (drop (ws_len s) s))"
  by pat_completeness auto
termination
proof (relation "measure length")
  show "wf (measure length)" by simp
next
  fix s :: string
  assume "ws_len s \<noteq> 0"
  with ws_len_le [of s] show "(drop (ws_len s) s, s) \<in> measure length" by auto
qed

declare trim_start.simps [simp del]

definition ws_suffix_len :: "string \<Rightarrow> nat" where
  "ws_suffix_len s =
     (let n = length s in
      if 1 \<le> n \<and> ws_len (drop (n - 1) s) = 1 then 1
      else if 2 \<le> n \<and> ws_len (drop (n - 2) s) = 2 then 2
      else if 3 \<le> n \<and> ws_len (drop (n - 3) s) = 3 then 3 else 0)"

lemma ws_suffix_len_le: "ws_suffix_len s \<le> length s"
  by (auto simp: ws_suffix_len_def Let_def)

function trim_end :: "string \<Rightarrow> string" where
  "trim_end s =
     (if ws_suffix_len s = 0 then s else trim_end (take (length s - ws_suffix_len s) s))"
  by pat_completeness auto
termination
proof (relation "measure length")
  show "wf (measure length)" by simp
next
  fix s :: string
  assume "ws_suffix_len s \<noteq> 0"
  with ws_suffix_len_le [of s]
  show "(take (length s - ws_suffix_len s) s, s) \<in> measure length" by auto
qed

declare trim_end.simps [simp del]

definition trim :: "string \<Rightarrow> string" where
  "trim s = trim_end (trim_start s)"

lemma trim_Nil [simp]: "trim [] = []"
  by (simp add: trim_def trim_start.simps trim_end.simps ws_suffix_len_def)

lemma trim_start_suffix: "suffix (trim_start s) s"
proof (induction s rule: trim_start.induct)
  case (1 s)
  show ?case
    by (subst trim_start.simps)
       (use 1 in \<open>auto intro: suffix_order.trans [OF _ suffix_drop]\<close>)
qed

lemma trim_end_prefix: "prefix (trim_end s) s"
proof (induction s rule: trim_end.induct)
  case (1 s)
  show ?case
    by (subst trim_end.simps)
       (use 1 in \<open>auto intro: prefix_order.trans [OF _ take_is_prefix]\<close>)
qed

lemma trim_sublist: "sublist (trim s) s"
proof -
  obtain a where a: "s = a @ trim_start s"
    using trim_start_suffix [of s] by (auto simp: suffix_def)
  obtain b where b: "trim_start s = trim_end (trim_start s) @ b"
    using trim_end_prefix [of "trim_start s"] by (auto simp: prefix_def)
  from a b have "s = a @ trim s @ b" by (simp add: trim_def)
  then show ?thesis unfolding sublist_def by blast
qed

lemma length_trim: "length (trim s) \<le> length s"
  by (rule sublist_length_le [OF trim_sublist])

lemma set_trim: "set (trim s) \<subseteq> set s"
  by (rule set_mono_sublist [OF trim_sublist])

text \<open>\<open>str::split_whitespace\<close>: the maximal runs of other scalar values.\<close>

definition flush :: "string \<Rightarrow> string list" where
  "flush cur = (if cur = [] then [] else [cur])"

function split_ws_from :: "string \<Rightarrow> string \<Rightarrow> string list" where
  "split_ws_from cur [] = flush cur"
| "split_ws_from cur (c # cs) =
     (if ws_len (c # cs) = 0 then split_ws_from (cur @ [c]) cs
      else flush cur @ split_ws_from [] (drop (ws_len (c # cs)) (c # cs)))"
  by pat_completeness auto
termination
proof (relation "measure (\<lambda>(cur, s). length s)")
  show "wf (measure (\<lambda>(cur, s). length s))" by simp
next
  fix cur :: string and c :: char and cs :: string
  show "((cur @ [c], cs), (cur, c # cs)) \<in> measure (\<lambda>(cur, s). length s)" by simp
next
  fix cur :: string and c :: char and cs :: string
  assume "ws_len (c # cs) \<noteq> 0"
  then show "(([], drop (ws_len (c # cs)) (c # cs)), (cur, c # cs))
      \<in> measure (\<lambda>(cur, s). length s)" by auto
qed

definition split_whitespace :: "string \<Rightarrow> string list" where
  "split_whitespace s = split_ws_from [] s"

lemma split_ws_from_nonempty: "t \<in> set (split_ws_from cur s) \<Longrightarrow> t \<noteq> []"
  by (induction cur s rule: split_ws_from.induct) (auto simp: flush_def split: if_splits)

section \<open>Lines\<close>

text \<open>\<open>str::lines\<close>: each line ends at a line feed, which is removed with a carriage
  return before it; a last line without a line feed keeps its carriage return, and an
  empty rest is no line.\<close>

definition strip_cr :: "string \<Rightarrow> string" where
  "strip_cr s = (case strip_suffix [CHR 0x0D] s of None \<Rightarrow> s | Some t \<Rightarrow> t)"

fun lines_from :: "string \<Rightarrow> string \<Rightarrow> string list" where
  "lines_from cur [] = flush cur"
| "lines_from cur (c # cs) =
     (if c = newline then strip_cr cur # lines_from [] cs else lines_from (cur @ [c]) cs)"

definition lines :: "string \<Rightarrow> string list" where
  "lines s = lines_from [] s"

section \<open>Numbers as text\<close>

fun dec :: "nat \<Rightarrow> string" where
  "dec n = (if n < 10 then [bchr (48 + n)] else dec (n div 10) @ [bchr (48 + n mod 10)])"

declare dec.simps [simp del]

definition digit_val :: "char \<Rightarrow> nat" where
  "digit_val c = byte c - 48"

text \<open>The digits of \<open>u32::from_str\<close> and its kin, without the range check of the type: an
  optional plus sign and at least one digit.\<close>

definition parse_nat :: "string \<Rightarrow> nat option" where
  "parse_nat s =
     (let ds = (case s of c # cs \<Rightarrow> if c = CHR ''+'' then cs else s | [] \<Rightarrow> s) in
      if ds \<noteq> [] \<and> list_all is_digit ds
      then Some (foldl (\<lambda>n c. 10 * n + digit_val c) 0 ds) else None)"

definition parse_u32 :: "string \<Rightarrow> nat option" where
  "parse_u32 s = (case parse_nat s of Some n \<Rightarrow> if n < 2 ^ 32 then Some n else None | None \<Rightarrow> None)"

definition parse_u64 :: "string \<Rightarrow> nat option" where
  "parse_u64 s = (case parse_nat s of Some n \<Rightarrow> if n < 2 ^ 64 then Some n else None | None \<Rightarrow> None)"

text \<open>A signed decimal of \<open>w\<close> bits: an optional sign and at least one digit.\<close>

definition parse_signed :: "nat \<Rightarrow> string \<Rightarrow> int option" where
  "parse_signed w s =
     (case s of
        c # cs \<Rightarrow>
          if c = CHR ''-'' then
            (case cs of
               d # ds \<Rightarrow> if d = CHR ''+'' then None
                 else (case parse_nat cs of
                         Some n \<Rightarrow> if n \<le> 2 ^ (w - 1) then Some (- int n) else None
                       | None \<Rightarrow> None)
             | [] \<Rightarrow> None)
          else (case parse_nat s of
                  Some n \<Rightarrow> if n < 2 ^ (w - 1) then Some (int n) else None | None \<Rightarrow> None)
      | [] \<Rightarrow> None)"

lemma digit_val_bchr [simp]: "n < 10 \<Longrightarrow> digit_val (bchr (48 + n)) = n"
  by (simp add: digit_val_def of_char_of)

lemma is_digit_bchr [simp]: "n < 10 \<Longrightarrow> is_digit (bchr (48 + n))"
  by (simp add: is_digit_def of_char_of)

lemma dec_digits: "list_all is_digit (dec n)"
proof (induction n rule: dec.induct)
  case (1 n)
  then show ?case by (subst dec.simps) auto
qed

lemma dec_nonempty [simp]: "dec n \<noteq> []"
  by (subst dec.simps) simp

lemma foldl_dec: "foldl (\<lambda>n c. 10 * n + digit_val c) 0 (dec n) = n"
proof (induction n rule: dec.induct)
  case (1 n)
  show ?case
  proof (cases "n < 10")
    case True
    then show ?thesis by (subst dec.simps) simp
  next
    case False
    with 1 have "foldl (\<lambda>n c. 10 * n + digit_val c) 0 (dec (n div 10)) = n div 10" by simp
    with False show ?thesis by (subst dec.simps) simp
  qed
qed

lemma parse_nat_dec [simp]: "parse_nat (dec n) = Some n"
proof -
  obtain c cs where d: "dec n = c # cs" by (cases "dec n") auto
  with dec_digits [of n] have "c \<noteq> CHR ''+''" by (auto simp: is_digit_def)
  with d dec_digits [of n] foldl_dec [of n] show ?thesis by (simp add: parse_nat_def)
qed

lemma dec_inject [simp]: "dec m = dec n \<longleftrightarrow> m = n"
  using parse_nat_dec by (metis option.inject)

text \<open>Trimming a text that starts and ends with a visible ASCII character.\<close>

lemma ws_digit: "is_digit c \<Longrightarrow> \<not> ws_ascii c \<and> byte c < 128"
  by (auto simp: is_digit_def ws_ascii_def)

lemma ws_len_ascii: "byte c < 128 \<Longrightarrow> \<not> ws_ascii c \<Longrightarrow> ws_len (c # cs) = 0"
  by (cases "c # cs" rule: ws_len.cases) auto

lemma ws_len_not_ascii: "c \<in> set s \<Longrightarrow> byte c < 128 \<Longrightarrow> length s \<le> 3 \<Longrightarrow> ws_len s = length s \<Longrightarrow>
    length s = 1 \<and> ws_ascii c"
  by (cases s rule: ws_len.cases) (auto split: if_splits)

lemma trim_start_plain: "byte c < 128 \<Longrightarrow> \<not> ws_ascii c \<Longrightarrow> trim_start (c # cs) = c # cs"
  by (subst trim_start.simps) (simp add: ws_len_ascii)

lemma ws_suffix_plain:
  assumes "byte c < 128" and "\<not> ws_ascii c"
  shows "ws_suffix_len (cs @ [c]) = 0"
proof -
  have "ws_len (drop (length cs + 1 - k) (cs @ [c])) \<noteq> k" if "1 \<le> k" "k \<le> 3" "k \<le> length cs + 1" for k
  proof
    let ?s = "drop (length cs + 1 - k) (cs @ [c])"
    assume "ws_len ?s = k"
    moreover have "length ?s = k" using that by simp
    moreover have "c \<in> set ?s"
    proof -
      have "?s = drop (length cs + 1 - k) cs @ [c]" using that by simp
      then show ?thesis by simp
    qed
    ultimately show False using ws_len_not_ascii [of c ?s] assms that by auto
  qed
  from this [of 1] this [of 2] this [of 3] show ?thesis
    by (auto simp: ws_suffix_len_def Let_def)
qed

lemma trim_end_plain: "byte c < 128 \<Longrightarrow> \<not> ws_ascii c \<Longrightarrow> trim_end (cs @ [c]) = cs @ [c]"
  by (subst trim_end.simps) (simp add: ws_suffix_plain)

lemma trim_end_newline: "trim_end (s @ [newline]) = trim_end s"
  by (subst trim_end.simps) (simp add: ws_suffix_len_def newline_def ws_ascii_def)

lemma trim_plain:
  assumes "s \<noteq> []" and "byte (hd s) < 128" "\<not> ws_ascii (hd s)" and "byte (last s) < 128" "\<not> ws_ascii (last s)"
  shows "trim (s @ [newline]) = s" and "trim s = s"
proof -
  from assms(1) obtain c cs where s: "s = c # cs" by (cases s) auto
  from assms(1) obtain ds d where e: "s = ds @ [d]" by (cases s rule: rev_cases) auto
  have "trim_start (s @ [newline]) = s @ [newline]" "trim_start s = s"
    using assms s by (simp_all add: trim_start_plain)
  moreover have "trim_end s = s" using assms e by (simp add: trim_end_plain)
  ultimately show "trim (s @ [newline]) = s" "trim s = s" by (simp_all add: trim_def trim_end_newline)
qed

lemma hd_dec: "is_digit (hd (dec n))" and last_dec: "is_digit (last (dec n))"
  using dec_digits [of n] by (simp_all add: list_all_iff)

lemma trim_dec: "trim (dec n) = dec n"
proof -
  have "is_digit c \<Longrightarrow> byte c < 128 \<and> \<not> ws_ascii c" for c by (simp add: ws_digit)
  then show ?thesis by (intro trim_plain(2)) (auto simp: hd_dec last_dec)
qed

lemma trim_space: "trim (CHR '' '' # s) = trim s"
proof -
  have "ws_len (CHR '' '' # s) = 1"
    by (cases "CHR '' '' # s" rule: ws_len.cases) (auto simp: ws_ascii_def)
  then show ?thesis unfolding trim_def by (subst trim_start.simps) simp
qed

section \<open>UUIDs\<close>

definition hex_digit :: "nat \<Rightarrow> char" where
  "hex_digit n = (if n < 10 then bchr (48 + n) else bchr (87 + n))"

text \<open>\<open>Uuid::simple\<close>: 32 lower-case hex digits; \<open>Uuid::to_string\<close>: the same digits in
  groups of 8, 4, 4, 4 and 12 separated by hyphens.\<close>

definition uuid_simple :: "uuid \<Rightarrow> string" where
  "uuid_simple u = map (\<lambda>i. hex_digit (nat (uint u div 16 ^ (31 - i) mod 16))) [0..<32]"

definition uuid_string :: "uuid \<Rightarrow> string" where
  "uuid_string u =
     (let h = uuid_simple u in
      take 8 h @ ''-'' @ take 4 (drop 8 h) @ ''-'' @ take 4 (drop 12 h) @ ''-'' @
      take 4 (drop 16 h) @ ''-'' @ drop 20 h)"

lemma length_uuid_simple [simp]: "length (uuid_simple u) = 32"
  by (simp add: uuid_simple_def)

lemma hex_digit_hexdigit: "n < 16 \<Longrightarrow> is_ascii_hexdigit (hex_digit n)"
  by (auto simp: hex_digit_def is_ascii_hexdigit_def is_digit_def of_char_of)

lemma uuid_simple_hex: "c \<in> set (uuid_simple u) \<Longrightarrow> is_ascii_hexdigit c"
  by (auto simp: uuid_simple_def hex_digit_hexdigit)

lemma uuid_simple_no_hyphen: "CHR ''-'' \<notin> set (uuid_simple u)"
  using uuid_simple_hex [of "CHR ''-''" u]
  by (auto simp: is_ascii_hexdigit_def is_digit_def)

lemma hex_digit_inject: "m < 16 \<Longrightarrow> n < 16 \<Longrightarrow> hex_digit m = hex_digit n \<longleftrightarrow> m = n"
  by (auto simp: hex_digit_def split: if_splits dest: arg_cong [where f = byte])

text \<open>Both forms determine the UUID.\<close>

lemma nibbles_mod:
  fixes a b :: int
  assumes "\<And>i. i < n \<Longrightarrow> (a div 16 ^ i) mod 16 = (b div 16 ^ i) mod 16"
  shows "a mod 16 ^ n = b mod 16 ^ n"
  using assms
proof (induction n)
  case 0
  then show ?case by simp
next
  case (Suc n)
  have "a mod 16 ^ n = b mod 16 ^ n" using Suc by auto
  moreover have "(a div 16 ^ n) mod 16 = (b div 16 ^ n) mod 16" using Suc.prems by simp
  moreover have "x mod 16 ^ Suc n = 16 ^ n * (x div 16 ^ n mod 16) + x mod 16 ^ n" for x :: int
    using zmod_zmult2_eq [of 16 x "16 ^ n"] by (simp add: mult.commute)
  ultimately show ?case by simp
qed

lemma uuid_simple_nth:
  "k < 32 \<Longrightarrow> uuid_simple u ! k = hex_digit (nat (uint u div 16 ^ (31 - k) mod 16))"
  by (simp add: uuid_simple_def)

lemma uuid_simple_inject [simp]: "uuid_simple u = uuid_simple v \<longleftrightarrow> u = v"
proof
  assume eq: "uuid_simple u = uuid_simple v"
  have "(uint u div 16 ^ i) mod 16 = (uint v div 16 ^ i) mod 16" if "i < 32" for i
  proof -
    from eq have "uuid_simple u ! (31 - i) = uuid_simple v ! (31 - i)" by simp
    moreover from that have "31 - i < 32" and "31 - (31 - i) = i" by simp_all
    ultimately show ?thesis
      using uuid_simple_nth [of "31 - i" u] uuid_simple_nth [of "31 - i" v]
      by (simp add: hex_digit_inject)
  qed
  then have "uint u mod 16 ^ 32 = uint v mod 16 ^ 32" by (rule nibbles_mod)
  moreover have "uint u < 16 ^ 32" "uint v < 16 ^ 32"
    using unsigned_less [of u, where ?'a = int] unsigned_less [of v, where ?'a = int] by simp_all
  ultimately show "u = v" by (simp add: word_uint_eq_iff)
qed simp

text \<open>A reader of the hyphenated form.\<close>

definition hex_value :: "char \<Rightarrow> int" where
  "hex_value c = (if is_digit c then int (byte c) - 48 else int (byte c) - 87)"

definition uuid_read :: "string \<Rightarrow> uuid option" where
  "uuid_read s =
     (let h = filter (\<lambda>c. c \<noteq> CHR ''-'') s in
      if length h = 32 \<and> list_all is_ascii_hexdigit h
      then Some (word_of_int (foldl (\<lambda>n c. 16 * n + hex_value c) 0 h)) else None)"

lemma hex_value_digit: "n < 16 \<Longrightarrow> hex_value (hex_digit n) = int n"
  by (auto simp: hex_value_def hex_digit_def is_digit_def of_char_of)

lemma foldl_hex_digits:
  assumes "0 \<le> x" "x < 16 ^ 32" "k \<le> 32"
  shows "foldl (\<lambda>n c. 16 * n + hex_value c) 0
     (map (\<lambda>i. hex_digit (nat (x div 16 ^ (31 - i) mod 16))) [0..<k]) = x div 16 ^ (32 - k)"
  using assms(3)
proof (induction k)
  case (Suc k)
  have "x div 16 ^ (32 - k) = x div 16 ^ (31 - k) div 16"
  proof -
    have "32 - k = Suc (31 - k)" using Suc.prems by simp
    then show ?thesis by (simp add: power_Suc2 zdiv_zmult2_eq del: power_Suc)
  qed
  moreover have "nat (x div 16 ^ (31 - k) mod 16) < 16" by (simp add: nat_less_iff)
  ultimately show ?case using Suc assms(1) by (simp add: hex_value_digit)
qed (use assms in simp)

lemma uuid_string_simple: "filter (\<lambda>c. c \<noteq> CHR ''-'') (uuid_string u) = uuid_simple u"
proof -
  have f: "filter (\<lambda>c. c \<noteq> CHR ''-'') xs = xs" if "set xs \<subseteq> set (uuid_simple u)" for xs
    using that uuid_simple_no_hyphen [of u] by (auto simp: filter_id_conv)
  have s: "set (take n (drop m (uuid_simple u))) \<subseteq> set (uuid_simple u)" for n m
    by (meson set_drop_subset set_take_subset subset_trans)
  have "uuid_simple u = take 8 (uuid_simple u) @ take 4 (drop 8 (uuid_simple u)) @
      take 4 (drop 12 (uuid_simple u)) @ take 4 (drop 16 (uuid_simple u)) @ drop 20 (uuid_simple u)"
  proof -
    have "take n (drop m xs) @ drop (n + m) xs = drop m xs" for n m and xs :: string
      by (metis append_take_drop_id drop_drop)
    from this [of 4 8] this [of 4 12] this [of 4 16] show ?thesis
      using append_take_drop_id [of 8 "uuid_simple u"] by simp
  qed
  then show ?thesis using f [OF s [of 8 0]] f [OF s [of 4 8]] f [OF s [of 4 12]] f [OF s [of 4 16]]
      f [OF set_drop_subset [of 20 "uuid_simple u"]]
    by (simp add: uuid_string_def Let_def)
qed

lemma uuid_read_string: "uuid_read (uuid_string u) = Some u"
proof -
  have "uint u < 16 ^ 32" using unsigned_less [of u, where ?'a = int] by simp
  then have "foldl (\<lambda>n c. 16 * n + hex_value c) 0 (uuid_simple u) = uint u"
    using foldl_hex_digits [of "uint u" 32] by (simp add: uuid_simple_def)
  then show ?thesis by (simp add: uuid_read_def uuid_string_simple uuid_simple_hex list_all_iff)
qed

section \<open>Computations with effects\<close>

type_synonym ('e, 'w, 'a) io = "'w \<Rightarrow> (('e + 'a) \<times> 'w) option"

definition ret :: "'a \<Rightarrow> ('e, 'w, 'a) io" where
  "ret x w = Some (Inr x, w)"

definition fail :: "'e \<Rightarrow> ('e, 'w, 'a) io" where
  "fail e w = Some (Inl e, w)"

text \<open>Sequencing with \<open>?\<close>: an error ends the computation.\<close>

definition bindE :: "('e, 'w, 'a) io \<Rightarrow> ('a \<Rightarrow> ('e, 'w, 'b) io) \<Rightarrow> ('e, 'w, 'b) io" where
  "bindE m f w =
     (case m w of
        None \<Rightarrow> None
      | Some (Inl e, w') \<Rightarrow> Some (Inl e, w')
      | Some (Inr x, w') \<Rightarrow> f x w')"

text \<open>Matching on a \<open>Result\<close> instead of propagating it.\<close>

definition attempt :: "('e, 'w, 'a) io \<Rightarrow> ('e, 'w, 'e + 'a) io" where
  "attempt m w = map_option (\<lambda>(r, w'). (Inr r, w')) (m w)"

definition gets :: "('w \<Rightarrow> 'a) \<Rightarrow> ('e, 'w, 'a) io" where
  "gets f w = Some (Inr (f w), w)"

definition modify :: "('w \<Rightarrow> 'w) \<Rightarrow> ('e, 'w, unit) io" where
  "modify f w = Some (Inr (), f w)"

lemma ret_io [io_simps]: "ret x w = Some (r, w') \<longleftrightarrow> r = Inr x \<and> w' = w"
  by (auto simp: ret_def)

lemma fail_io [io_simps]: "fail e w = Some (r, w') \<longleftrightarrow> r = Inl e \<and> w' = w"
  by (auto simp: fail_def)

lemma gets_io [io_simps]: "gets f w = Some (r, w') \<longleftrightarrow> r = Inr (f w) \<and> w' = w"
  by (auto simp: gets_def)

lemma modify_io [io_simps]: "modify f w = Some (r, w') \<longleftrightarrow> r = Inr () \<and> w' = f w"
  by (auto simp: modify_def)

lemma attempt_io [io_simps]:
  "attempt m w = Some (r, w') \<longleftrightarrow> (\<exists>x. r = Inr x \<and> m w = Some (x, w'))"
  by (auto simp: attempt_def)

lemma bindE_io [io_simps]:
  "bindE m f w = Some (r, w') \<longleftrightarrow>
     (\<exists>e. m w = Some (Inl e, w') \<and> r = Inl e) \<or>
     (\<exists>x v. m w = Some (Inr x, v) \<and> f x v = Some (r, w'))"
  by (auto simp: bindE_def split: option.splits sum.splits)

lemma bindE_ret [simp]: "bindE (ret x) f = f x"
  by (auto simp: bindE_def ret_def fun_eq_iff)

lemma bindE_fail [simp]: "bindE (fail e) f = fail e"
  by (auto simp: bindE_def fail_def fun_eq_iff)

lemma bindE_assoc: "bindE (bindE m f) g = bindE m (\<lambda>x. bindE (f x) g)"
  by (auto simp: bindE_def fun_eq_iff split: option.splits sum.splits)

lemma bindE_Inr: "m w = Some (Inr x, v) \<Longrightarrow> bindE m f w = f x v"
  by (simp add: bindE_def)

lemma bindE_Inl: "m w = Some (Inl e, v) \<Longrightarrow> bindE m f w = Some (Inl e, v)"
  by (simp add: bindE_def)

text \<open>\<open>with_context\<close>: the error that is shown is the context.\<close>

definition with_context :: "'e \<Rightarrow> ('e, 'w, 'a) io \<Rightarrow> ('e, 'w, 'a) io" where
  "with_context c m w = map_option (\<lambda>(r, w'). (map_sum (\<lambda>_. c) id r, w')) (m w)"

lemma with_context_io [io_simps]:
  "with_context c m w = Some (r, w') \<longleftrightarrow>
     (\<exists>e. m w = Some (Inl e, w') \<and> r = Inl c) \<or> (\<exists>x. m w = Some (Inr x, w') \<and> r = Inr x)"
proof (cases "m w")
  case (Some a)
  then show ?thesis by (cases a; cases "fst a") (auto simp: with_context_def)
qed (simp add: with_context_def)

text \<open>A predicate that every returning run keeps; it composes over the combinators, so that
  the frame and invariant properties of the larger computations are one rule application
  per operation.\<close>

definition keeps :: "('w \<Rightarrow> 'w \<Rightarrow> bool) \<Rightarrow> ('e, 'w, 'a) io \<Rightarrow> bool" where
  "keeps R m = (\<forall>w r w'. m w = Some (r, w') \<longrightarrow> R w w')"

named_theorems keeps_intros \<open>relations between the world before and after\<close>

lemma keepsI: "(\<And>w r w'. m w = Some (r, w') \<Longrightarrow> R w w') \<Longrightarrow> keeps R m"
  by (auto simp: keeps_def)

lemma keepsD: "keeps R m \<Longrightarrow> m w = Some (r, w') \<Longrightarrow> R w w'"
  by (auto simp: keeps_def)

lemma keeps_ret [keeps_intros]: "reflp R \<Longrightarrow> keeps R (ret x)"
  by (auto simp: keeps_def ret_def reflp_def)

lemma keeps_fail [keeps_intros]: "reflp R \<Longrightarrow> keeps R (fail e)"
  by (auto simp: keeps_def fail_def reflp_def)

lemma keeps_gets [keeps_intros]: "reflp R \<Longrightarrow> keeps R (gets f)"
  by (auto simp: keeps_def gets_def reflp_def)

lemma keeps_attempt [keeps_intros]: "keeps R m \<Longrightarrow> keeps R (attempt m)"
  by (auto simp: keeps_def attempt_def)

lemma keeps_bindE [keeps_intros]:
  "transp R \<Longrightarrow> keeps R m \<Longrightarrow> (\<And>x. keeps R (f x)) \<Longrightarrow> keeps R (bindE m f)"
  by (auto simp: keeps_def bindE_io) (meson transpE)

section \<open>Paths and files\<close>

text \<open>\<open>Path::join\<close>: an absolute argument replaces the base. Paths are not normalised, as
  \<open>join\<close> does not: what \<open>..\<close> means is left to the file system, which is a parameter
  of the functions that read it.\<close>

definition path_join :: "string \<Rightarrow> string \<Rightarrow> string" where
  "path_join base p =
     (if prefix ''/'' p then p
      else if base = [] \<or> suffix ''/'' base then base @ p else base @ ''/'' @ p)"

datatype fnode = File string | Dir

type_synonym fs = "string \<Rightarrow> fnode option"

definition file_exists :: "fs \<Rightarrow> string \<Rightarrow> bool" where
  "file_exists fs p = (fs p \<noteq> None)"

definition is_dir :: "fs \<Rightarrow> string \<Rightarrow> bool" where
  "is_dir fs p = (fs p = Some Dir)"

definition read_to_string :: "fs \<Rightarrow> string \<Rightarrow> string option" where
  "read_to_string fs p = (case fs p of Some (File s) \<Rightarrow> Some s | _ \<Rightarrow> None)"

section \<open>Searching a list\<close>

text \<open>\<open>iter().find(..)\<close> is \<open>List.find\<close>.\<close>

lemma find_SomeD: "List.find P xs = Some x \<Longrightarrow> x \<in> set xs \<and> P x"
  by (induction xs) (auto split: if_splits)

end
