(* ===== verification/Protocol.thy ===== *)
theory Protocol
  imports Prelude
begin

text \<open>
  The wire protocol and the shared HITL types, \<open>src/janus/src/protocol.rs\<close>: requests and
  responses as datatypes with the source's constructors, the payloads they carry as
  records, and the size budget that every stored or transmitted scene obeys.

  \<open>truncate_16k\<close> works on bytes and backs up to a character boundary; the lemmas show
  that its result never exceeds the budget, keeps a prefix that ends at a boundary, and is
  stable under a second truncation. The clock and the RFC 3339 printer of \<open>chrono\<close> are
  arguments of the payload builder, the environment is the value of the variable it reads.
\<close>

section \<open>Requests and responses\<close>

type_synonym i32 = "32 word"

datatype request =
    Ping
  | Blueprints
  | Progress "string option"
  | GuardCheck (gc_execution_id: string) (gc_blueprint_id: "string option")
      (gc_task_id: "uuid option") (gc_step_name: "string option") (gc_cwd: "string option")
      (gc_argv: "string list") (gc_env_snapshot: "string \<Rightarrow> string option")
  | Onboard string
  | Offboard string
  | Dispatch (d_blueprint: string) (d_workflow: "string option") (d_inline_command: "string option")
  | Stop "string option" "uuid option"
  | Continue "string option" "uuid option"
  | GateAction uuid bool
  | ListWorkflows "string option"
  | GetWorkflow "string option" string
  | SaveWorkflow "string option" string string
  | ListHarvestRefs
  | ApplyHarvestRef string

record blueprint_info =
  bi_name :: string
  bi_default_workflow :: string
  bi_remote_host :: "string option"
  bi_status :: string

record step_status =
  ss_name :: string
  ss_status :: string
  ss_exit_code :: "i32 option"
  ss_stdout_tail :: "string option"

record active_task =
  at_task_id :: uuid
  at_blueprint_id :: string
  at_workflow_name :: string
  at_status :: string
  at_started_at :: "string option"
  at_elapsed_seconds :: "int option"
  at_current_step :: "string option"
  at_tmux_alive :: bool
  at_session_name :: "string option"
  at_suspended_reason :: "string option"
  at_steps :: "step_status list"

datatype response =
    RPong
  | RBlueprints "blueprint_info list"
  | RProgress "active_task list"
  | RWorkflows "string list"
  | RWorkflowContent string string
  | RHarvestRefs "string list"
  | RHarvestApplied string bool
  | RGuardVerdict (gv_execution_id: string) (gv_verdict: string) (gv_reason: "string option")
      (gv_rewritten_argv: "string list option") (gv_correlation_id: string)
      (gv_cognitive_context: "string option")
  | ROk string
  | RDispatch uuid
  | RError string

section \<open>The size budget\<close>

definition SIZE_BUDGET :: nat where
  "SIZE_BUDGET = 16 * 1024"

definition BUDGET_TAG :: string where
  "BUDGET_TAG = ''[MetaMach Log Budget Exceeded]''"

text \<open>The loop that backs up to a character boundary; position 0 is one.\<close>

fun cut_back :: "string \<Rightarrow> nat \<Rightarrow> nat" where
  "cut_back s 0 = 0"
| "cut_back s (Suc n) = (if is_char_boundary s (Suc n) then Suc n else cut_back s n)"

definition truncate_16k :: "string \<Rightarrow> string" where
  "truncate_16k s =
     (if length s \<le> SIZE_BUDGET then s
      else take (cut_back s (SIZE_BUDGET - length BUDGET_TAG)) s @ BUDGET_TAG)"

lemma cut_back_le: "cut_back s n \<le> n"
  by (induction n) auto

lemma cut_back_boundary: "is_char_boundary s (cut_back s n)"
  by (induction n) (auto simp: is_char_boundary_def)

lemma cut_back_max: "i \<le> n \<Longrightarrow> is_char_boundary s i \<Longrightarrow> i \<le> cut_back s n"
  by (induction n) (auto simp: le_Suc_eq)

lemma length_truncate_16k: "length (truncate_16k s) \<le> SIZE_BUDGET"
proof -
  have "length BUDGET_TAG \<le> SIZE_BUDGET" by (simp add: BUDGET_TAG_def SIZE_BUDGET_def)
  then show ?thesis
    using cut_back_le [of s "SIZE_BUDGET - length BUDGET_TAG"] unfolding truncate_16k_def by auto
qed

text \<open>The text that is stored never exceeds the budget; a text within it is kept as it is,
  and a longer one becomes the longest prefix that ends at a character boundary and leaves
  room for the tag, followed by the tag.\<close>

theorem truncate_16k_budget:
  "length (truncate_16k s) \<le> SIZE_BUDGET \<and> truncate_16k (truncate_16k s) = truncate_16k s \<and>
   (if length s \<le> SIZE_BUDGET then truncate_16k s = s
    else \<exists>n. truncate_16k s = take n s @ BUDGET_TAG \<and> is_char_boundary s n \<and>
      (\<forall>i. n < i \<and> i + length BUDGET_TAG \<le> SIZE_BUDGET \<longrightarrow> \<not> is_char_boundary s i))"
proof -
  have idem: "truncate_16k (truncate_16k s) = truncate_16k s"
    using length_truncate_16k [of s] by (simp add: truncate_16k_def [of "truncate_16k s"])
  let ?n = "cut_back s (SIZE_BUDGET - length BUDGET_TAG)"
  have "\<not> is_char_boundary s i" if "?n < i" "i + length BUDGET_TAG \<le> SIZE_BUDGET" for i
  proof
    assume "is_char_boundary s i"
    moreover from that(2) have "i \<le> SIZE_BUDGET - length BUDGET_TAG" by arith
    ultimately have "i \<le> ?n" by (intro cut_back_max)
    with that(1) show False by simp
  qed
  then show ?thesis
    using idem length_truncate_16k [of s] cut_back_boundary by (auto simp: truncate_16k_def)
qed

lemma truncate_16k_budget_witness:
  "length (truncate_16k (replicate 20000 CHR ''x'')) \<le> SIZE_BUDGET"
  using truncate_16k_budget [of "replicate 20000 CHR ''x''"] by blast

section \<open>The HITL card\<close>

definition HITL_TIMEOUT_SECS :: int where
  "HITL_TIMEOUT_SECS = 1800"

definition hitl_timeout_secs :: "string option \<Rightarrow> int" where
  "hitl_timeout_secs var =
     (case var of
        None \<Rightarrow> HITL_TIMEOUT_SECS
      | Some s \<Rightarrow>
          (case parse_signed 64 s of
             None \<Rightarrow> HITL_TIMEOUT_SECS
           | Some n \<Rightarrow> if n > 0 then n else HITL_TIMEOUT_SECS))"

lemma hitl_timeout_positive: "0 < hitl_timeout_secs var"
  by (auto simp: hitl_timeout_secs_def HITL_TIMEOUT_SECS_def split: option.splits)

record webhook_payload =
  wp_task_id :: "uuid option"
  wp_execution_id :: string
  wp_correlation_id :: string
  wp_cause :: string
  wp_command :: string
  wp_reason :: string
  wp_scene :: string
  wp_resume_key :: string
  wp_blueprint :: string
  wp_step :: string
  wp_stdout_tail :: string
  wp_expires_at :: string

text \<open>\<open>now\<close> is the clock in seconds, \<open>rfc3339\<close> the printer of a time stamp and \<open>var\<close> the value of
  \<open>JANUS_HITL_TIMEOUT_SECS\<close>.\<close>

definition webhook_build :: "string option \<Rightarrow> (int \<Rightarrow> string) \<Rightarrow> int \<Rightarrow> uuid option \<Rightarrow> string \<Rightarrow>
    string \<Rightarrow> string \<Rightarrow> string \<Rightarrow> string \<Rightarrow> string \<Rightarrow> string \<Rightarrow> webhook_payload" where
  "webhook_build var rfc3339 now task_id execution_id correlation_id cause command reason
       blueprint step =
     (let scene_src = command @ [newline] @ reason;
          scene = (if SIZE_BUDGET < length scene_src then truncate_16k scene_src else scene_src) in
      \<lparr>wp_task_id = task_id, wp_execution_id = execution_id, wp_correlation_id = correlation_id,
       wp_cause = cause, wp_command = command, wp_reason = reason, wp_scene = scene,
       wp_resume_key = ''metamach-resume:'' @ correlation_id, wp_blueprint = blueprint,
       wp_step = step, wp_stdout_tail = scene,
       wp_expires_at = rfc3339 (now + hitl_timeout_secs var)\<rparr>)"

lemma webhook_scene:
  "wp_scene (webhook_build var rfc now t e c ca cmd r b s) = truncate_16k (cmd @ [newline] @ r)"
  "wp_stdout_tail (webhook_build var rfc now t e c ca cmd r b s) = truncate_16k (cmd @ [newline] @ r)"
  by (simp_all add: webhook_build_def Let_def truncate_16k_def)

datatype gateway_verdict = Approve | Reject | Override "string list"

end
