(* ===== verification/Fallback.thy ===== *)
theory Fallback
  imports Protocol
begin

text \<open>
  The disaster-recovery ring, \<open>src/janus/src/absurd/fallback.rs\<close>: step transitions that could
  not reach Postgres are rows of an SQLite table, at most 1000 of them; recovery drains them
  oldest first.

  A row keeps its \<open>seq\<close>, which the table numbers with \<open>AUTOINCREMENT\<close> and never reuses. The
  statements of the code are written as functions on the list of rows. The lemmas show that
  the table implements a queue of the last 1000 events.
\<close>

definition MAX_ENTRIES :: nat where
  "MAX_ENTRIES = 1000"

record fallback_event =
  fv_task_id :: string
  fv_blueprint_name :: string
  fv_step_name :: string
  fv_status :: string
  fv_result_cache :: "string option"

record fallback_db =
  fd_next_seq :: nat
  fd_rows :: "(nat \<times> fallback_event) list"

definition fallback_empty :: fallback_db where
  "fallback_empty = \<lparr>fd_next_seq = 1, fd_rows = []\<rparr>"

text \<open>The event that \<open>record\<close> stores: the textual UUID and the cache cut to the budget.\<close>

definition stored_event :: "uuid \<Rightarrow> string \<Rightarrow> string \<Rightarrow> string \<Rightarrow> string option \<Rightarrow> fallback_event" where
  "stored_event task_id blueprint step status cache =
     \<lparr>fv_task_id = uuid_string task_id, fv_blueprint_name = blueprint, fv_step_name = step,
      fv_status = status, fv_result_cache = map_option truncate_16k cache\<rparr>"

text \<open>The \<open>INSERT\<close>, and the \<open>DELETE\<close> of every row whose \<open>seq\<close> is not among the largest 1000.\<close>

definition fallback_insert :: "fallback_event \<Rightarrow> fallback_db \<Rightarrow> fallback_db" where
  "fallback_insert ev db =
     db\<lparr>fd_next_seq := fd_next_seq db + 1, fd_rows := fd_rows db @ [(fd_next_seq db, ev)]\<rparr>"

definition fallback_evict :: "fallback_db \<Rightarrow> fallback_db" where
  "fallback_evict db =
     (let newest = take MAX_ENTRIES (rev (sort (map fst (fd_rows db)))) in
      db\<lparr>fd_rows := filter (\<lambda>r. fst r \<in> set newest) (fd_rows db)\<rparr>)"

definition fallback_record :: "uuid \<Rightarrow> string \<Rightarrow> string \<Rightarrow> string \<Rightarrow> string option \<Rightarrow>
    fallback_db \<Rightarrow> fallback_db" where
  "fallback_record task_id blueprint step status cache db =
     fallback_evict (fallback_insert (stored_event task_id blueprint step status cache) db)"

definition fallback_drain :: "fallback_db \<Rightarrow> fallback_event list \<times> fallback_db" where
  "fallback_drain db = (map snd (sort_key fst (fd_rows db)), db\<lparr>fd_rows := []\<rparr>)"

text \<open>What \<open>open\<close> finds in the file: no table, a table of before the column \<open>blueprint_name\<close>, or one of
  today. The missing column is added with the empty text; SQLite itself is not modelled.\<close>

record old_event =
  ov_task_id :: string
  ov_step_name :: string
  ov_status :: string
  ov_result_cache :: "string option"

datatype fallback_file = No_table | Old_table nat "(nat \<times> old_event) list" | New_table fallback_db

definition migrated :: "old_event \<Rightarrow> fallback_event" where
  "migrated e = \<lparr>fv_task_id = ov_task_id e, fv_blueprint_name = [], fv_step_name = ov_step_name e,
     fv_status = ov_status e, fv_result_cache = ov_result_cache e\<rparr>"

definition fallback_open :: "fallback_file \<Rightarrow> fallback_db" where
  "fallback_open f =
     (case f of
        No_table \<Rightarrow> fallback_empty
      | Old_table next_seq rows \<Rightarrow> \<lparr>fd_next_seq = next_seq, fd_rows = map (\<lambda>(i, e). (i, migrated e)) rows\<rparr>
      | New_table db \<Rightarrow> db)"

definition fallback_count :: "fallback_db \<Rightarrow> nat" where
  "fallback_count db = length (fd_rows db)"

section \<open>The table is a bounded queue\<close>

text \<open>The invariant: the rows are numbered upwards below the next number, and there are at
  most 1000.\<close>

definition fallback_ok :: "fallback_db \<Rightarrow> bool" where
  "fallback_ok db =
     (sorted_wrt (<) (map fst (fd_rows db)) \<and> (\<forall>s \<in> fst ` set (fd_rows db). s < fd_next_seq db) \<and>
      length (fd_rows db) \<le> MAX_ENTRIES)"

text \<open>The last \<open>n\<close> elements.\<close>

definition last_n :: "nat \<Rightarrow> 'a list \<Rightarrow> 'a list" where
  "last_n n xs = drop (length xs - n) xs"

lemma last_n_append: "last_n n (last_n n xs @ ys) = last_n n (xs @ ys)"
proof (cases "length xs \<le> n")
  case False
  then have "length xs + length ys - n = (length xs - n) + length ys" by simp
  with False show ?thesis by (simp add: last_n_def add.commute)
qed (simp add: last_n_def)

lemma length_last_n: "length (last_n n xs) = min (length xs) n"
  by (auto simp: last_n_def)

lemma map_last_n: "map f (last_n n xs) = last_n n (map f xs)"
  by (simp add: last_n_def drop_map)

definition events :: "fallback_db \<Rightarrow> fallback_event list" where
  "events db = map snd (fd_rows db)"

text \<open>A file of an older version that was a bounded queue is one after the migration, and is drained in the
  same order.\<close>

lemma fallback_open_ok:
  assumes "sorted_wrt (<) (map fst rows)" "\<forall>s \<in> fst ` set rows. s < n" "length rows \<le> MAX_ENTRIES"
  shows "fallback_ok (fallback_open (Old_table n rows))"
    and "fst (fallback_drain (fallback_open (Old_table n rows))) = map (migrated \<circ> snd) rows"
proof -
  define rs where "rs = map (\<lambda>(i, e). (i, migrated e)) rows"
  have opened: "fallback_open (Old_table n rows) = \<lparr>fd_next_seq = n, fd_rows = rs\<rparr>"
    by (simp add: fallback_open_def rs_def)
  have seqs: "map fst rs = map fst rows" unfolding rs_def by (induction rows) auto
  then have "fst ` set rs = fst ` set rows" by (metis list.set_map)
  moreover have "length rs = length rows" by (simp add: rs_def)
  ultimately show "fallback_ok (fallback_open (Old_table n rows))"
    using assms seqs unfolding opened by (simp add: fallback_ok_def)
  have "sorted (map fst rs)" unfolding seqs using assms(1) by (rule strict_sorted_imp_sorted)
  then have "sort_key fst rs = rs" by (rule sort_key_id_if_sorted)
  then show "fst (fallback_drain (fallback_open (Old_table n rows))) = map (migrated \<circ> snd) rows"
    unfolding opened by (auto simp: fallback_drain_def rs_def)
qed

lemma fallback_empty_ok: "fallback_ok fallback_empty" "events fallback_empty = []"
  by (simp_all add: fallback_ok_def fallback_empty_def events_def)

lemma filter_take_last:
  fixes rows :: "(nat \<times> 'a) list"
  assumes "sorted_wrt (<) (map fst rows)"
  shows "filter (\<lambda>r. fst r \<in> set (take n (rev (map fst rows)))) rows = last_n n rows"
proof -
  let ?k = "length rows - n"
  have t: "set (take n (rev (map fst rows))) = fst ` set (drop ?k rows)"
    by (simp add: take_rev drop_map)
  have split: "rows = take ?k rows @ drop ?k rows" by simp
  have "sorted_wrt (<) (map fst (take ?k rows) @ map fst (drop ?k rows))"
    using assms by (simp flip: map_append)
  then have "\<forall>x \<in> fst ` set (take ?k rows). \<forall>y \<in> fst ` set (drop ?k rows). x < y"
    unfolding sorted_wrt_append by simp
  then have "filter (\<lambda>r. fst r \<in> fst ` set (drop ?k rows)) (take ?k rows) = []"
    unfolding filter_empty_conv by (meson image_eqI less_irrefl)
  moreover have "filter (\<lambda>r. fst r \<in> fst ` set (drop ?k rows)) (drop ?k rows) = drop ?k rows"
    by (simp add: filter_id_conv)
  ultimately show ?thesis unfolding t last_n_def by (metis split append_Nil filter_append)
qed

lemma sort_id: "sorted_wrt (<) xs \<Longrightarrow> sort xs = (xs :: nat list)"
  by (intro sorted_sort_id) (simp add: strict_sorted_imp_sorted)

lemma fallback_record_refines:
  assumes "fallback_ok db"
  shows "fallback_ok (fallback_record t b s st c db)"
    and "events (fallback_record t b s st c db) =
      last_n MAX_ENTRIES (events db @ [stored_event t b s st c])"
proof -
  let ?db = "fallback_insert (stored_event t b s st c) db"
  let ?rows = "fd_rows db @ [(fd_next_seq db, stored_event t b s st c)]"
  have rows: "fd_rows ?db = ?rows" by (simp add: fallback_insert_def)
  have sorted: "sorted_wrt (<) (map fst ?rows)"
    using assms by (auto simp: fallback_ok_def sorted_wrt_append)
  then have "sort (map fst ?rows) = map fst ?rows" by (rule sort_id)
  then have new: "fd_rows (fallback_record t b s st c db) = last_n MAX_ENTRIES ?rows"
    unfolding fallback_record_def fallback_evict_def rows Let_def
    using filter_take_last [OF sorted, of MAX_ENTRIES] by simp
  have "sorted_wrt (<) (map fst (last_n MAX_ENTRIES ?rows))"
    unfolding last_n_def drop_map [symmetric] using sorted by (rule sorted_wrt_drop)
  moreover have "fd_next_seq (fallback_record t b s st c db) = fd_next_seq db + 1"
    by (simp add: fallback_record_def fallback_evict_def fallback_insert_def Let_def)
  moreover have "\<forall>q \<in> fst ` set ?rows. q < fd_next_seq db + 1"
    using assms by (auto simp: fallback_ok_def)
  moreover have "set (last_n MAX_ENTRIES ?rows) \<subseteq> set ?rows"
    unfolding last_n_def by (rule set_drop_subset)
  ultimately show "fallback_ok (fallback_record t b s st c db)"
    unfolding fallback_ok_def new length_last_n by auto
  show "events (fallback_record t b s st c db) =
      last_n MAX_ENTRIES (events db @ [stored_event t b s st c])"
    unfolding events_def new map_last_n by simp
qed

lemma fallback_drain_ok:
  assumes "fallback_ok db"
  shows "fallback_drain db = (events db, db\<lparr>fd_rows := []\<rparr>)"
proof -
  have "sorted (map fst (fd_rows db))"
    using assms by (simp add: fallback_ok_def strict_sorted_imp_sorted)
  then show ?thesis by (simp add: fallback_drain_def events_def sort_key_id_if_sorted)
qed

definition record_all :: "(uuid \<times> string \<times> string \<times> string \<times> string option) list \<Rightarrow>
    fallback_db \<Rightarrow> fallback_db" where
  "record_all es db = fold (\<lambda>(t, b, s, st, c). fallback_record t b s st c) es db"

lemma record_all_refines:
  "fallback_ok db \<Longrightarrow> fallback_ok (record_all es db) \<and>
     events (record_all es db) =
       last_n MAX_ENTRIES (events db @ map (\<lambda>(t, b, s, st, c). stored_event t b s st c) es)"
proof (induction es arbitrary: db)
  case Nil
  then show ?case by (simp add: record_all_def fallback_ok_def events_def last_n_def)
next
  case (Cons e es)
  obtain t b s st c where e: "e = (t, b, s, st, c)" by (cases e) auto
  let ?db = "fallback_record t b s st c db"
  let ?more = "map (\<lambda>(t, b, s, st, c). stored_event t b s st c) es"
  have step: "record_all (e # es) db = record_all es ?db" by (simp add: record_all_def e)
  note r = fallback_record_refines [OF Cons.prems, of t b s st c]
  show ?case
    using Cons.IH [OF r(1)] last_n_append [of MAX_ENTRIES "events db @ [stored_event t b s st c]" ?more]
    unfolding step r(2) by (simp add: e)
qed

text \<open>Whatever is recorded during an outage, recovery drains exactly the last 1000 events
  in the order in which they were recorded, with their caches within the size budget, and
  leaves the ring empty.\<close>

theorem fallback_ring:
  "let (drained, db') = fallback_drain (record_all es fallback_empty);
       all = map (\<lambda>(t, b, s, st, c). stored_event t b s st c) es in
   drained = drop (length all - 1000) all \<and> fallback_count db' = 0 \<and>
   fallback_count (record_all es fallback_empty) = min (length es) 1000"
proof -
  have ok: "fallback_ok (record_all es fallback_empty)"
    and ev: "events (record_all es fallback_empty) =
      last_n 1000 (map (\<lambda>(t, b, s, st, c). stored_event t b s st c) es)"
    using record_all_refines [OF fallback_empty_ok(1), of es]
    by (simp_all add: fallback_empty_ok(2) MAX_ENTRIES_def)
  have "fallback_count (record_all es fallback_empty) = length (events (record_all es fallback_empty))"
    by (simp add: fallback_count_def events_def)
  then show ?thesis
    unfolding fallback_drain_ok [OF ok] ev Let_def
    by (auto simp: fallback_count_def last_n_def length_last_n)
qed

end
