(* ===== verification/Dag.thy ===== *)
theory Dag
  imports Prelude "HOL-Library.AList" "HOL-Library.Multiset"
begin

text \<open>
  The DAG workflow engine, \<open>src/janus/src/workflow/dag.rs\<close>: a configuration is a list of
  nodes that name the nodes they need, \<open>validate\<close> rejects the ones that cannot be run and
  \<open>plan\<close> sorts the nodes into levels whose nodes may run in parallel (Kahn's algorithm,
  one level per round).

  The two hash maps of \<open>plan\<close> are the map \<open>dependents\<close> and the association list
  \<open>in_degree\<close>; a lookup that the code unwraps and a counter that it decrements below zero
  are panics, the outcome \<open>None\<close>. The lemmas show that no configuration with distinct node
  ids panics, that the levels are a topological order of minimal height, and that
  validation accepts exactly the acyclic configurations.
\<close>

section \<open>The configuration\<close>

record dag_node =
  dn_id :: string
  dn_workflow :: string
  dn_needs :: "string list"
  dn_isolation :: "string option"
  dn_best_of_n :: "8 word option"
  dn_writes :: "string list option"

record dag_config =
  dc_name :: string
  dc_description :: "string option"
  dc_nodes :: "dag_node list"

datatype dag_error =
    Dag_not_found string
  | Dag_read_failed string
  | Dag_parse_failed string
  | Dag_name_mismatch string string
  | Dag_no_nodes string
  | Dag_duplicate_id string
  | Dag_unknown_dependency string string
  | Dag_cycle string "string list"

text \<open>\<open>None\<close> is a panic.\<close>

type_synonym 'a dag_outcome = "(dag_error + 'a) option"

section \<open>The plan\<close>

type_synonym dependents = "string \<Rightarrow> string list option"
type_synonym degrees = "(string \<times> nat) list"

definition count_need :: "string \<Rightarrow> string \<Rightarrow> dependents \<times> degrees \<Rightarrow> dependents \<times> degrees" where
  "count_need i d st =
     (let dp = fst st; deg = snd st in
      (dp(d \<mapsto> (case dp d of None \<Rightarrow> [] | Some l \<Rightarrow> l) @ [i]),
       AList.update i (case map_of deg i of None \<Rightarrow> 1 | Some k \<Rightarrow> k + 1) deg))"

definition count_node :: "dag_node \<Rightarrow> dependents \<times> degrees \<Rightarrow> dependents \<times> degrees" where
  "count_node n st =
     (let dp = fst st; deg = snd st;
          deg' = (if map_of deg (dn_id n) = None then AList.update (dn_id n) 0 deg else deg) in
      fold (count_need (dn_id n)) (dn_needs n) (dp, deg'))"

fun dec_deps :: "string list \<Rightarrow> degrees \<Rightarrow> string list \<Rightarrow> (degrees \<times> string list) option" where
  "dec_deps [] deg q = Some (deg, q)"
| "dec_deps (d # ds) deg q =
     (case map_of deg d of
        None \<Rightarrow> None
      | Some 0 \<Rightarrow> None
      | Some (Suc k) \<Rightarrow> dec_deps ds (AList.update d k deg) (if k = 0 then q @ [d] else q))"

fun visit_level :: "dependents \<Rightarrow> string list \<Rightarrow> degrees \<Rightarrow> string list \<Rightarrow>
    (degrees \<times> string list) option" where
  "visit_level dp [] deg q = Some (deg, q)"
| "visit_level dp (i # is) deg q =
     (case dp i of
        None \<Rightarrow> visit_level dp is deg q
      | Some deps \<Rightarrow>
          (case dec_deps deps deg q of
             None \<Rightarrow> None
           | Some (deg', q') \<Rightarrow> visit_level dp is deg' q'))"

lemma sum_list_update:
  "map_of deg d = Some (Suc k) \<Longrightarrow>
     Suc (sum_list (map snd (AList.update d k deg))) = sum_list (map snd deg)"
  by (induction deg) (auto split: if_splits)

lemma dec_deps_measure:
  "dec_deps ds deg q = Some (deg', q') \<Longrightarrow>
     sum_list (map snd deg') + length q' \<le> sum_list (map snd deg) + length q"
proof (induction ds deg q rule: dec_deps.induct)
  case (2 d ds deg q)
  from "2.prems" obtain k where k: "map_of deg d = Some (Suc k)"
    by (auto split: option.splits nat.splits)
  with 2 sum_list_update [OF k] show ?case by (fastforce split: if_splits)
qed simp

lemma visit_level_measure:
  "visit_level dp is deg q = Some (deg', q') \<Longrightarrow>
     sum_list (map snd deg') + length q' \<le> sum_list (map snd deg) + length q"
proof (induction dp "is" deg q rule: visit_level.induct)
  case (2 dp i "is" deg q)
  then show ?case
    by (fastforce split: option.splits dest: dec_deps_measure)
qed simp

text \<open>The \<open>while\<close> loop; \<open>sorted\<close> is the concatenation of the levels pushed so far. Every
  round moves a unit of degree into the next queue and drops the current one.\<close>

function level_loop :: "dependents \<Rightarrow> degrees \<Rightarrow> string list \<Rightarrow> string list list \<Rightarrow>
    string list list option" where
  "level_loop dp deg queue levels =
     (if queue = [] then Some levels
      else (case visit_level dp queue deg [] of
              None \<Rightarrow> None
            | Some (deg', next_queue) \<Rightarrow>
                level_loop dp deg' next_queue (levels @ [queue])))"
  by pat_completeness auto
termination
proof (relation "measure (\<lambda>(dp, deg, queue, levels). sum_list (map snd deg) + length queue)")
  show "wf (measure (\<lambda>(dp :: dependents, deg :: degrees, queue :: string list,
      levels :: string list list). sum_list (map snd deg) + length queue))" by simp
next
  fix dp :: dependents and deg :: degrees and queue :: "string list"
    and levels :: "string list list" and r and deg' :: degrees and next_queue :: "string list"
  assume "queue \<noteq> []" and "visit_level dp queue deg [] = Some r" and "(deg', next_queue) = r"
  then show "((dp, deg', next_queue, levels @ [queue]), dp, deg, queue, levels)
      \<in> measure (\<lambda>(dp, deg, queue, levels). sum_list (map snd deg) + length queue)"
    using visit_level_measure [of dp queue deg "[]" deg' next_queue] by (cases queue) auto
qed

declare level_loop.simps [simp del]

definition initial_queue :: "dag_node list \<Rightarrow> degrees \<Rightarrow> string list" where
  "initial_queue nodes deg =
     map dn_id (filter (\<lambda>n. (case map_of deg (dn_id n) of None \<Rightarrow> 0 | Some k \<Rightarrow> k) = 0) nodes)"

definition node_map :: "dag_node list \<Rightarrow> string \<Rightarrow> dag_node option" where
  "node_map nodes = fold (\<lambda>n m. m(dn_id n \<mapsto> n)) nodes Map.empty"

definition dag_plan :: "dag_config \<Rightarrow> dag_node list list dag_outcome" where
  "dag_plan c =
     (let nodes = dc_nodes c;
          st = fold count_node nodes (Map.empty, []);
          queue = initial_queue nodes (snd st) in
      case level_loop (fst st) (snd st) queue [] of
        None \<Rightarrow> None
      | Some levels \<Rightarrow>
          let sorted = concat levels in
          if length sorted \<noteq> length nodes then
            Some (Inl (Dag_cycle (dc_name c)
              (map dn_id (filter (\<lambda>n. dn_id n \<notin> set sorted) nodes))))
          else map_option Inr (those (map (\<lambda>l. those (map (node_map nodes) l)) levels)))"

definition level_count :: "dag_node list list \<Rightarrow> nat" where
  "level_count levels = length levels"

section \<open>Validation and loading\<close>

fun duplicate_id :: "string set \<Rightarrow> dag_node list \<Rightarrow> string option" where
  "duplicate_id seen [] = None"
| "duplicate_id seen (n # ns) =
     (if dn_id n \<in> seen then Some (dn_id n) else duplicate_id (insert (dn_id n) seen) ns)"

definition unknown_dep :: "string set \<Rightarrow> dag_node \<Rightarrow> string option" where
  "unknown_dep seen n = List.find (\<lambda>d. d \<notin> seen) (dn_needs n)"

fun unknown_dependency :: "string set \<Rightarrow> dag_node list \<Rightarrow> (string \<times> string) option" where
  "unknown_dependency seen [] = None"
| "unknown_dependency seen (n # ns) =
     (case unknown_dep seen n of
        Some d \<Rightarrow> Some (dn_id n, d)
      | None \<Rightarrow> unknown_dependency seen ns)"

definition dag_validate :: "dag_config \<Rightarrow> unit dag_outcome" where
  "dag_validate c =
     (let nodes = dc_nodes c in
      if nodes = [] then Some (Inl (Dag_no_nodes (dc_name c)))
      else
        case duplicate_id {} nodes of
          Some i \<Rightarrow> Some (Inl (Dag_duplicate_id i))
        | None \<Rightarrow>
            (case unknown_dependency (set (map dn_id nodes)) nodes of
               Some (i, d) \<Rightarrow> Some (Inl (Dag_unknown_dependency i d))
             | None \<Rightarrow>
                 (case dag_plan c of
                    None \<Rightarrow> None
                  | Some (Inl e) \<Rightarrow> Some (Inl e)
                  | Some (Inr _) \<Rightarrow> Some (Inr ()))))"

text \<open>The directories a workflow is looked up in, and the load; \<open>toml\<close> is the parser of the
  \<open>toml\<close> crate at this type.\<close>

definition workflow_dirs :: "string list" where
  "workflow_dirs = [''.janus/workflows'', ''templates/workflows'', ''workflows'']"

definition workflow_path :: "string \<Rightarrow> string \<Rightarrow> string \<Rightarrow> string" where
  "workflow_path root name d = path_join (path_join root d) (name @ ''.toml'')"

definition dag_load :: "(string \<Rightarrow> dag_config option) \<Rightarrow> fs \<Rightarrow> string \<Rightarrow> string \<Rightarrow>
    dag_config dag_outcome" where
  "dag_load toml fs name root =
     (case List.find (file_exists fs) (map (workflow_path root name) workflow_dirs) of
        None \<Rightarrow> Some (Inl (Dag_not_found name))
      | Some path \<Rightarrow>
          (case read_to_string fs path of
             None \<Rightarrow> Some (Inl (Dag_read_failed path))
           | Some text \<Rightarrow>
               (case toml text of
                  None \<Rightarrow> Some (Inl (Dag_parse_failed path))
                | Some c \<Rightarrow>
                    (case dag_validate c of
                       None \<Rightarrow> None
                     | Some (Inl e) \<Rightarrow> Some (Inl e)
                     | Some (Inr _) \<Rightarrow>
                         if dc_name c \<noteq> name then Some (Inl (Dag_name_mismatch (dc_name c) name))
                         else Some (Inr c)))))"

section \<open>The degrees count unmet needs\<close>

definition needs_of :: "dag_node list \<Rightarrow> string \<Rightarrow> string list" where
  "needs_of ns k = concat (map dn_needs (filter (\<lambda>n. dn_id n = k) ns))"

definition dependents_of :: "dag_node list \<Rightarrow> string \<Rightarrow> string list" where
  "dependents_of ns d =
     concat (map (\<lambda>n. map (\<lambda>_. dn_id n) (filter (\<lambda>x. x = d) (dn_needs n))) ns)"

abbreviation deps_at :: "dependents \<Rightarrow> string \<Rightarrow> string list" where
  "deps_at dp d \<equiv> (case dp d of None \<Rightarrow> [] | Some l \<Rightarrow> l)"

lemma needs_of_append: "needs_of (ns @ ms) k = needs_of ns k @ needs_of ms k"
  by (simp add: needs_of_def)

lemma needs_of_Cons:
  "needs_of (n # ns) k = (if dn_id n = k then dn_needs n else []) @ needs_of ns k"
  by (simp add: needs_of_def)

lemma dependents_of_append: "dependents_of (ns @ ms) d = dependents_of ns d @ dependents_of ms d"
  by (simp add: dependents_of_def)

lemma fold_count_need_dp:
  "deps_at (fst (fold (count_need i) ds (dp, deg))) d =
     deps_at dp d @ map (\<lambda>_. i) (filter (\<lambda>x. x = d) ds)"
  by (induction ds arbitrary: dp deg) (auto simp: count_need_def)

lemma fold_count_need_deg:
  assumes "map_of deg i \<noteq> None"
  shows "map_of (snd (fold (count_need i) ds (dp, deg))) =
     (map_of deg)(i \<mapsto> the (map_of deg i) + length ds)"
  using assms
  by (induction ds arbitrary: dp deg) (auto simp: count_need_def update_conv)

lemma count_node_dp:
  "deps_at (fst (count_node n st)) d = deps_at (fst st) d @ dependents_of [n] d"
  by (simp add: count_node_def Let_def fold_count_need_dp dependents_of_def)

lemma count_node_deg:
  "map_of (snd (count_node n st)) =
     (map_of (snd st))(dn_id n \<mapsto>
        (case map_of (snd st) (dn_id n) of None \<Rightarrow> 0 | Some k \<Rightarrow> k) + length (dn_needs n))"
  by (auto simp: count_node_def Let_def fold_count_need_deg update_conv)

lemma count_nodes_dp:
  "deps_at (fst (fold count_node ns st)) d = deps_at (fst st) d @ dependents_of ns d"
proof (induction ns arbitrary: st)
  case Nil
  then show ?case by (simp add: dependents_of_def)
next
  case (Cons n ns)
  then show ?case using dependents_of_append [of "[n]" ns] by (simp add: count_node_dp)
qed

lemma count_nodes_deg:
  "map_of (snd (fold count_node ns st)) k =
     (if k \<in> dn_id ` set ns
      then Some ((case map_of (snd st) k of None \<Rightarrow> 0 | Some j \<Rightarrow> j) + length (needs_of ns k))
      else map_of (snd st) k)"
proof (induction ns arbitrary: st)
  case Nil
  then show ?case by simp
next
  case (Cons n ns)
  have "needs_of ns k = []" if "k \<notin> dn_id ` set ns"
    using that by (auto simp: needs_of_def image_iff)
  then show ?case by (auto simp: Cons count_node_deg needs_of_Cons)
qed

lemma count_dependents:
  "count_list (dependents_of ns d) k = length (filter (\<lambda>x. x = d) (needs_of ns k))"
proof (induction ns)
  case Nil
  then show ?case by (simp add: dependents_of_def needs_of_def)
next
  case (Cons n ns)
  have "count_list (map (\<lambda>_. i) xs) k = (if i = k then length xs else 0)" for i and xs :: "string list"
    by (induction xs) auto
  with Cons show ?case
    using dependents_of_append [of "[n]" ns] needs_of_append [of "[n]" ns]
    by (auto simp: dependents_of_def [of "[n]"] needs_of_def [of "[n]"])
qed

lemma length_filter_insert:
  "q \<notin> Q \<Longrightarrow> length (filter (\<lambda>x. x = q \<or> x \<in> Q) xs) =
     length (filter (\<lambda>x. x = q) xs) + length (filter (\<lambda>x. x \<in> Q) xs)"
  by (induction xs) auto

lemma count_level:
  "distinct Q \<Longrightarrow> count_list (concat (map (dependents_of ns) Q)) k =
     length (filter (\<lambda>x. x \<in> set Q) (needs_of ns k))"
  by (induction Q) (auto simp: count_dependents length_filter_insert)

section \<open>One round\<close>

lemma dec_deps_append:
  "dec_deps (ds @ es) deg q =
     (case dec_deps ds deg q of None \<Rightarrow> None | Some (deg', q') \<Rightarrow> dec_deps es deg' q')"
  by (induction ds deg q rule: dec_deps.induct) (auto split: option.splits nat.splits)

lemma visit_level_eq:
  "visit_level dp is deg q = dec_deps (concat (map (deps_at dp) is)) deg q"
  by (induction dp "is" deg q rule: visit_level.induct)
     (auto simp: dec_deps_append split: option.splits)

lemma dec_deps_Some:
  assumes "\<forall>k \<in> set ds. \<exists>n. map_of deg k = Some n \<and> count_list ds k \<le> n"
  shows "\<exists>deg' q'. dec_deps ds deg q = Some (deg', q @ q') \<and> distinct q' \<and>
     (\<forall>k. map_of deg' k = map_option (\<lambda>n. n - count_list ds k) (map_of deg k)) \<and>
     set q' = {k \<in> set ds. map_of deg k = Some (count_list ds k)}"
  using assms
proof (induction ds arbitrary: deg q)
  case Nil
  then show ?case by (simp add: option.map_ident)
next
  case (Cons d ds)
  obtain n where n: "map_of deg d = Some n" "Suc (count_list ds d) \<le> n"
    using Cons.prems by auto
  then obtain k where k: "map_of deg d = Some (Suc k)" "count_list ds d \<le> k"
    by (cases n) auto
  let ?deg = "AList.update d k deg"
  have pre: "\<forall>j \<in> set ds. \<exists>n. map_of ?deg j = Some n \<and> count_list ds j \<le> n"
  proof
    fix j assume "j \<in> set ds"
    with Cons.prems k show "\<exists>n. map_of ?deg j = Some n \<and> count_list ds j \<le> n"
      by (cases "j = d") (auto simp: update_conv)
  qed
  obtain deg' q' where IH:
      "dec_deps ds ?deg (if k = 0 then q @ [d] else q) =
         Some (deg', (if k = 0 then q @ [d] else q) @ q')" "distinct q'"
      "\<And>j. map_of deg' j = map_option (\<lambda>n. n - count_list ds j) (map_of ?deg j)"
      "set q' = {j \<in> set ds. map_of ?deg j = Some (count_list ds j)}"
    using Cons.IH [OF pre, of "if k = 0 then q @ [d] else q"] by (elim exE conjE) simp
  have zero: "count_list ds d = 0 \<longleftrightarrow> d \<notin> set ds" by (simp add: count_list_0_iff)
  let ?q = "if k = 0 then d # q' else q'"
  have "dec_deps (d # ds) deg q = Some (deg', q @ ?q)" by (simp add: k(1) IH(1))
  moreover have "distinct ?q"
  proof (cases "k = 0")
    case True
    with k(2) zero have "d \<notin> set q'" unfolding IH(4) by simp
    with IH(2) show ?thesis by simp
  qed (simp add: IH(2))
  moreover have "map_of deg' j = map_option (\<lambda>n. n - count_list (d # ds) j) (map_of deg j)" for j
    by (simp add: IH(3) update_conv k(1))
  moreover have "set ?q = {j \<in> set (d # ds). map_of deg j = Some (count_list (d # ds) j)}"
  proof (rule set_eqI)
    fix j
    show "j \<in> set ?q \<longleftrightarrow> j \<in> {j \<in> set (d # ds). map_of deg j = Some (count_list (d # ds) j)}"
    proof (cases "j = d")
      case True
      with k zero show ?thesis by (auto simp: IH(4) update_conv)
    next
      case False
      then show ?thesis by (simp add: IH(4) update_conv)
    qed
  qed
  ultimately show ?case by blast
qed

section \<open>The loop\<close>

text \<open>Every node of a level needs only nodes of earlier levels, and a node that is not in
  the first level needs one of the level just before its own.\<close>

definition leveled :: "dag_node list \<Rightarrow> string list list \<Rightarrow> bool" where
  "leveled ns levels =
     (\<forall>i < length levels. \<forall>k \<in> set (levels ! i).
        set (needs_of ns k) \<subseteq> set (concat (take i levels)) \<and>
        (0 < i \<longrightarrow> (\<exists>d \<in> set (needs_of ns k). d \<in> set (levels ! (i - 1)))))"

lemma leveled_Nil [simp]: "leveled ns []"
  by (simp add: leveled_def)

lemma leveled_snoc:
  "leveled ns (levels @ [q]) \<longleftrightarrow> leveled ns levels \<and>
     (\<forall>k \<in> set q. set (needs_of ns k) \<subseteq> set (concat levels) \<and>
        (levels \<noteq> [] \<longrightarrow> (\<exists>d \<in> set (needs_of ns k). d \<in> set (last levels))))"
proof -
  have "leveled ns (levels @ [q]) \<longleftrightarrow>
      (\<forall>k \<in> set q. set (needs_of ns k) \<subseteq> set (concat levels) \<and>
        (0 < length levels \<longrightarrow> (\<exists>d \<in> set (needs_of ns k). d \<in> set (levels ! (length levels - 1))))) \<and>
      (\<forall>i < length levels. \<forall>k \<in> set (levels ! i).
        set (needs_of ns k) \<subseteq> set (concat (take i levels)) \<and>
        (0 < i \<longrightarrow> (\<exists>d \<in> set (needs_of ns k). d \<in> set (levels ! (i - 1)))))"
    unfolding leveled_def length_append_singleton All_less_Suc
    by (intro arg_cong2 [where f = conj]) (auto simp: nth_append less_imp_diff_less)
  then show ?thesis by (auto simp: leveled_def last_conv_nth)
qed

lemma leveled_closed:
  "leveled ns levels \<Longrightarrow> k \<in> set (concat levels) \<Longrightarrow> set (needs_of ns k) \<subseteq> set (concat levels)"
proof (induction levels rule: rev_induct)
  case (snoc q levels)
  then show ?case by (auto simp: leveled_snoc)
qed simp

definition dag_inv :: "dag_node list \<Rightarrow> string list list \<Rightarrow> degrees \<Rightarrow> string list \<Rightarrow> bool" where
  "dag_inv ns levels deg q =
     (let done = set (concat levels) in
      (\<forall>k. map_of deg k =
         (if k \<in> dn_id ` set ns
          then Some (length (filter (\<lambda>x. x \<notin> done) (needs_of ns k))) else None)) \<and>
      distinct (concat levels @ q) \<and> [] \<notin> set levels \<and> done \<subseteq> dn_id ` set ns \<and>
      set q = {k \<in> dn_id ` set ns. k \<notin> done \<and> set (needs_of ns k) \<subseteq> done} \<and>
      leveled ns (levels @ [q]))"

lemma dependents_ids: "set (dependents_of ns d) \<subseteq> dn_id ` set ns"
  by (auto simp: dependents_of_def)

lemma filter_split_length:
  assumes "\<And>x. x \<in> set q \<Longrightarrow> x \<notin> D"
  shows "length (filter (\<lambda>x. x \<notin> D) xs) =
     length (filter (\<lambda>x. x \<in> set q) xs) + length (filter (\<lambda>x. x \<notin> D \<and> x \<notin> set q) xs)"
  using assms by (induction xs) auto

lemma count_list_pos: "x \<in> set xs \<longleftrightarrow> 0 < count_list xs x"
  by (metis count_list_0_iff gr0I less_numeral_extra(3))

lemma dag_inv_step:
  assumes inv: "dag_inv ns levels deg q" and "q \<noteq> []"
    and dp: "\<And>d. deps_at dp d = dependents_of ns d"
  shows "\<exists>deg' q'. visit_level dp q deg [] = Some (deg', q') \<and>
     dag_inv ns (levels @ [q]) deg' q'"
proof -
  define D I where "D = set (concat levels)" and "I = dn_id ` set ns"
  let ?N = "\<lambda>k. needs_of ns k" and ?ds = "concat (map (dependents_of ns) q)"
  note dag_inv_unfold = dag_inv_def Let_def I_def [symmetric]
  from inv have deg: "\<And>k. map_of deg k =
        (if k \<in> I then Some (length (filter (\<lambda>x. x \<notin> D) (?N k))) else None)"
    and dist: "distinct (concat levels @ q)" and ne: "[] \<notin> set levels" and D: "D \<subseteq> I"
    and q: "set q = {k \<in> I. k \<notin> D \<and> set (?N k) \<subseteq> D}" and lev: "leveled ns (levels @ [q])"
    unfolding dag_inv_unfold D_def by blast+
  have D': "set (concat (levels @ [q])) = D \<union> set q" by (simp add: D_def)
  have closed: "set (?N k) \<subseteq> D" if "k \<in> D" for k
    using leveled_closed [of ns levels k] lev that by (simp add: leveled_snoc D_def)
  have count: "count_list ?ds k = length (filter (\<lambda>x. x \<in> set q) (?N k))" for k
    using dist by (intro count_level) simp
  have split: "length (filter (\<lambda>x. x \<notin> D) (?N k)) =
      count_list ?ds k + length (filter (\<lambda>x. x \<notin> D \<and> x \<notin> set q) (?N k))" for k
    unfolding count by (rule filter_split_length) (simp add: q)
  have pre: "\<forall>k \<in> set ?ds. \<exists>n. map_of deg k = Some n \<and> count_list ?ds k \<le> n"
  proof
    fix k assume "k \<in> set ?ds"
    with dependents_ids have "k \<in> I" unfolding I_def by fastforce
    then show "\<exists>n. map_of deg k = Some n \<and> count_list ?ds k \<le> n" unfolding deg split by simp
  qed
  obtain deg' q' where r: "dec_deps ?ds deg [] = Some (deg', q')" and q': "distinct q'"
      "set q' = {k \<in> set ?ds. map_of deg k = Some (count_list ?ds k)}"
    and deg': "\<And>k. map_of deg' k = map_option (\<lambda>n. n - count_list ?ds k) (map_of deg k)"
    using dec_deps_Some [OF pre, of "[]"] by (elim exE conjE) simp
  have in_q': "k \<in> set q' \<longleftrightarrow> k \<in> I \<and> (\<exists>x \<in> set (?N k). x \<in> set q) \<and>
      set (?N k) \<subseteq> D \<union> set q" for k
  proof -
    have "k \<in> set ?ds \<longleftrightarrow> (\<exists>x \<in> set (?N k). x \<in> set q)"
      unfolding count_list_pos count by (auto simp: filter_empty_conv)
    moreover have "map_of deg k = Some (count_list ?ds k) \<longleftrightarrow>
        k \<in> I \<and> filter (\<lambda>x. x \<notin> D \<and> x \<notin> set q) (?N k) = []"
      unfolding deg split by simp
    ultimately show ?thesis unfolding q'(2) filter_empty_conv by blast
  qed
  have new: "k \<notin> D \<union> set q" if "k \<in> set q'" for k
    using that closed [of k] q unfolding in_q' by blast
  have "visit_level dp q deg [] = Some (deg', q')"
    using r by (simp add: visit_level_eq dp)
  moreover have "dag_inv ns (levels @ [q]) deg' q'"
    unfolding dag_inv_unfold D'
  proof (intro conjI allI)
    fix k
    show "map_of deg' k = (if k \<in> I then
        Some (length (filter (\<lambda>x. x \<notin> D \<union> set q) (?N k))) else None)"
      unfolding deg' deg split by simp
  next
    show "distinct (concat (levels @ [q]) @ q')"
      using dist q'(1) new unfolding D_def by auto
  next
    show "[] \<notin> set (levels @ [q])" using ne \<open>q \<noteq> []\<close> by simp
  next
    show "D \<union> set q \<subseteq> I" using D q by blast
  next
    show "set q' = {k \<in> I. k \<notin> D \<union> set q \<and> set (?N k) \<subseteq> D \<union> set q}"
    proof (rule set_eqI, unfold mem_Collect_eq)
      fix k
      show "k \<in> set q' \<longleftrightarrow> k \<in> I \<and> k \<notin> D \<union> set q \<and> set (?N k) \<subseteq> D \<union> set q"
        using new [of k] unfolding in_q' q by blast
    qed
  next
    have "set (?N k) \<subseteq> D \<union> set q \<and> (\<exists>d \<in> set (?N k). d \<in> set q)" if "k \<in> set q'" for k
      using that unfolding in_q' by blast
    then show "leveled ns ((levels @ [q]) @ [q'])"
      unfolding leveled_snoc [of ns "levels @ [q]"] D' using lev by simp
  qed
  ultimately show ?thesis by blast
qed

lemma level_loop_correct:
  assumes "dag_inv ns levels deg q" and "\<And>d. deps_at dp d = dependents_of ns d"
  shows "\<exists>levels' deg'. level_loop dp deg q levels = Some levels' \<and> dag_inv ns levels' deg' []"
  using assms
proof (induction dp deg q levels rule: level_loop.induct)
  case (1 dp deg q levels)
  show ?case
  proof (cases "q = []")
    case True
    with 1 show ?thesis by (subst level_loop.simps) auto
  next
    case False
    with dag_inv_step 1 obtain deg' q' where
        "visit_level dp q deg [] = Some (deg', q')" "dag_inv ns (levels @ [q]) deg' q'" by blast
    with 1 False show ?thesis by (subst level_loop.simps) auto
  qed
qed

section \<open>The plan is a topological order\<close>

lemma dag_inv_initial:
  assumes "distinct (map dn_id ns)"
  shows "dag_inv ns [] (snd (fold count_node ns (Map.empty, [])))
     (initial_queue ns (snd (fold count_node ns (Map.empty, []))))"
proof -
  let ?deg = "snd (fold count_node ns (Map.empty :: dependents, [] :: degrees))"
  have deg: "map_of ?deg k = (if k \<in> dn_id ` set ns then Some (length (needs_of ns k)) else None)" for k
    by (simp add: count_nodes_deg)
  have zero: "(case map_of ?deg (dn_id n) of None \<Rightarrow> 0 | Some k \<Rightarrow> k) = 0 \<longleftrightarrow> needs_of ns (dn_id n) = []"
    if "n \<in> set ns" for n using that by (simp add: deg)
  have q: "initial_queue ns ?deg = map dn_id (filter (\<lambda>n. needs_of ns (dn_id n) = []) ns)"
    unfolding initial_queue_def by (intro arg_cong [where f = "map dn_id"] filter_cong) (simp_all add: zero)
  show ?thesis
    unfolding dag_inv_def Let_def
    using assms by (auto simp: deg q distinct_map_filter leveled_def)
qed

lemma needs_of_node:
  "distinct (map dn_id ns) \<Longrightarrow> n \<in> set ns \<Longrightarrow> needs_of ns (dn_id n) = dn_needs n"
proof (induction ns)
  case (Cons m ns)
  have "needs_of ns k = []" if "k \<notin> dn_id ` set ns" for k
    using that by (auto simp: needs_of_def image_iff)
  with Cons show ?case by (auto simp: needs_of_Cons)
qed simp

lemma node_map_fold:
  "fold (\<lambda>n m. m(dn_id n \<mapsto> n)) ns m k =
     (case List.find (\<lambda>n. dn_id n = k) (rev ns) of None \<Rightarrow> m k | Some n \<Rightarrow> Some n)"
  by (induction ns rule: rev_induct) auto

lemma node_map_Some:
  assumes "k \<in> dn_id ` set ns"
  shows "\<exists>n \<in> set ns. node_map ns k = Some n \<and> dn_id n = k"
proof -
  have "List.find (\<lambda>n. dn_id n = k) (rev ns) \<noteq> None"
    using assms by (auto simp: find_None_iff)
  then obtain n where n: "List.find (\<lambda>n. dn_id n = k) (rev ns) = Some n" by blast
  from find_SomeD [OF n] have "n \<in> set ns \<and> dn_id n = k" by simp
  with n show ?thesis by (auto simp: node_map_def node_map_fold)
qed

lemma those_map_Some:
  "(\<And>x. x \<in> set xs \<Longrightarrow> \<exists>y. f x = Some y \<and> P x y) \<Longrightarrow>
     \<exists>ys. those (map f xs) = Some ys \<and> list_all2 P xs ys"
proof (induction xs)
  case (Cons x xs)
  then obtain ys where "those (map f xs) = Some ys" "list_all2 P xs ys" by auto
  moreover obtain y where "f x = Some y" "P x y" using Cons.prems [of x] by auto
  ultimately show ?case by auto
qed simp

text \<open>What the plan returns, in terms of the levels of ids that the loop computes.\<close>

lemma dag_plan_cases:
  assumes "distinct (map dn_id (dc_nodes c))"
  obtains levels deg where "dag_inv (dc_nodes c) levels deg []"
    and "length (concat levels) \<noteq> length (dc_nodes c)"
    and "dag_plan c = Some (Inl (Dag_cycle (dc_name c)
           (map dn_id (filter (\<lambda>n. dn_id n \<notin> set (concat levels)) (dc_nodes c)))))"
  | levels deg plan where "dag_inv (dc_nodes c) levels deg []"
    and "length (concat levels) = length (dc_nodes c)"
    and "dag_plan c = Some (Inr plan)"
    and "list_all2 (list_all2 (\<lambda>k n. n \<in> set (dc_nodes c) \<and> dn_id n = k)) levels plan"
proof -
  let ?ns = "dc_nodes c"
  let ?st = "fold count_node ?ns (Map.empty, [])"
  have "\<And>d. deps_at (fst ?st) d = dependents_of ?ns d" by (simp add: count_nodes_dp)
  with level_loop_correct [OF dag_inv_initial [OF assms]]
  obtain levels deg where loop: "level_loop (fst ?st) (snd ?st) (initial_queue ?ns (snd ?st)) [] = Some levels"
    and inv: "dag_inv ?ns levels deg []" by blast
  show thesis
  proof (cases "length (concat levels) = length ?ns")
    case False
    then show ?thesis using inv loop by (intro that(1)) (simp_all add: dag_plan_def Let_def)
  next
    case True
    let ?P = "\<lambda>k n. n \<in> set ?ns \<and> dn_id n = k"
    from inv have "set (concat levels) \<subseteq> dn_id ` set ?ns" by (simp add: dag_inv_def Let_def)
    then have "\<exists>n. node_map ?ns k = Some n \<and> ?P k n" if "l \<in> set levels" "k \<in> set l" for l k
    proof -
      from that have "k \<in> set (concat levels)" by auto
      with \<open>set (concat levels) \<subseteq> dn_id ` set ?ns\<close> have "k \<in> dn_id ` set ?ns" by (rule subsetD)
      then show ?thesis using node_map_Some by blast
    qed
    then have "\<exists>ms. those (map (node_map ?ns) l) = Some ms \<and> list_all2 ?P l ms"
      if "l \<in> set levels" for l using that by (intro those_map_Some) blast
    then obtain plan where plan: "those (map (\<lambda>l. those (map (node_map ?ns) l)) levels) = Some plan"
      and "list_all2 (list_all2 ?P) levels plan"
      using those_map_Some [of levels "\<lambda>l. those (map (node_map ?ns) l)" "list_all2 ?P"] by blast
    with True inv loop show ?thesis by (intro that(2)) (simp_all add: dag_plan_def Let_def)
  qed
qed

lemma plan_ids:
  assumes "list_all2 (list_all2 (\<lambda>k n. n \<in> A \<and> dn_id n = k)) levels plan"
  shows "map (map dn_id) plan = levels" and "set (concat plan) \<subseteq> A"
proof -
  have one: "map dn_id ms = l \<and> set ms \<subseteq> A"
    if "list_all2 (\<lambda>k n. n \<in> A \<and> dn_id n = k) l ms" for l ms
    using that by (induction rule: list_all2_induct) auto
  from assms have "map (map dn_id) plan = levels \<and> set (concat plan) \<subseteq> A"
    by (induction rule: list_all2_induct) (auto dest: one)
  then show "map (map dn_id) plan = levels" and "set (concat plan) \<subseteq> A" by auto
qed

definition dag_edges :: "dag_node list \<Rightarrow> (string \<times> string) set" where
  "dag_edges ns = {(d, dn_id n) |d n. n \<in> set ns \<and> d \<in> set (dn_needs n)}"

lemma finite_dag_edges: "finite (dag_edges ns)"
proof -
  have "dag_edges ns \<subseteq> (\<Union>n \<in> set ns. (\<lambda>d. (d, dn_id n)) ` set (dn_needs n))"
    by (auto simp: dag_edges_def)
  then show ?thesis by (rule finite_subset) auto
qed

lemma plan_topological:
  assumes "distinct (map dn_id (dc_nodes c))" and "dag_plan c = Some (Inr levels)"
  shows "mset (concat levels) = mset (dc_nodes c) \<and> [] \<notin> set levels \<and>
     (\<forall>i < length levels. \<forall>n \<in> set (levels ! i).
        set (dn_needs n) \<subseteq> dn_id ` set (concat (take i levels)) \<and>
        (0 < i \<longrightarrow> (\<exists>d \<in> set (dn_needs n). d \<in> dn_id ` set (levels ! (i - 1)))))"
  using assms(1)
proof (cases rule: dag_plan_cases)
  case (1 ids deg)
  with assms(2) show ?thesis by simp
next
  case (2 ids deg plan)
  let ?ns = "dc_nodes c"
  from 2 assms(2) have p: "levels = plan" by simp
  note ids = plan_ids [OF 2(4), folded p]
  from 2(1) have dist: "distinct (concat ids)" "[] \<notin> set ids" and lev: "leveled ?ns ids"
    by (simp_all add: dag_inv_def Let_def leveled_snoc)
  have nodes: "distinct ?ns" using assms(1) by (simp add: distinct_map)
  have flat: "map dn_id (concat levels) = concat ids" by (simp add: ids(1) [symmetric] map_concat)
  have "distinct (map dn_id (concat levels))" unfolding flat by (rule dist(1))
  then have dl: "distinct (concat levels)" unfolding distinct_map by blast
  have "length (concat levels) = length (map dn_id (concat levels))" by (rule length_map [symmetric])
  also have "\<dots> = length ?ns" unfolding flat by (rule 2(2))
  finally have "card (set (concat levels)) = card (set ?ns)"
    unfolding distinct_card [OF dl] distinct_card [OF nodes] .
  then have "set (concat levels) = set ?ns"
    using ids(2) by (intro card_subset_eq) (simp_all del: set_concat)
  then have "mset (concat levels) = mset ?ns" using dl nodes set_eq_iff_mset_eq_distinct by blast
  moreover have "[] \<notin> set levels" using dist(2) by (auto simp: ids(1) [symmetric] image_iff)
  moreover have "set (dn_needs n) \<subseteq> dn_id ` set (concat (take i levels)) \<and>
      (0 < i \<longrightarrow> (\<exists>d \<in> set (dn_needs n). d \<in> dn_id ` set (levels ! (i - 1))))"
    if i: "i < length levels" and n: "n \<in> set (levels ! i)" for i n
  proof -
    have nth: "ids ! j = map dn_id (levels ! j)" if "j < length levels" for j
      using that by (simp add: ids(1) [symmetric])
    have "n \<in> set (concat levels)" using i n by (auto intro: nth_mem)
    with ids(2) have "n \<in> set ?ns" by (rule subsetD)
    then have need: "needs_of ?ns (dn_id n) = dn_needs n" using assms(1) needs_of_node by blast
    have "i < length ids" "dn_id n \<in> set (ids ! i)"
      using i n by (simp_all add: ids(1) [symmetric])
    with lev need have "set (dn_needs n) \<subseteq> set (concat (take i ids)) \<and>
        (0 < i \<longrightarrow> (\<exists>d \<in> set (dn_needs n). d \<in> set (ids ! (i - 1))))"
      unfolding leveled_def by (metis (no_types))
    moreover have "set (concat (take i ids)) = dn_id ` set (concat (take i levels))"
      by (auto simp: ids(1) [symmetric] take_map)
    moreover have "0 < i \<Longrightarrow> set (ids ! (i - 1)) = dn_id ` set (levels ! (i - 1))"
      using i nth [of "i - 1"] by simp
    ultimately show ?thesis by auto
  qed
  ultimately show ?thesis by blast
qed

text \<open>C34: whatever plan the code returns for a configuration with distinct node ids is a
  permutation of its nodes, cut into non-empty levels such that every need of a node lies
  in an earlier level and, beyond the first level, one of them in the level just before:
  no node could run earlier than it does.\<close>

theorem dag_plan_levels:
  assumes "distinct (map dn_id (dc_nodes c))" and "dag_plan c = Some (Inr levels)"
  shows "mset (concat levels) = mset (dc_nodes c) \<and> [] \<notin> set levels \<and>
     (\<forall>i < length levels. \<forall>n \<in> set (levels ! i).
        set (dn_needs n) \<subseteq> dn_id ` set (concat (take i levels)) \<and>
        (0 < i \<longrightarrow> (\<exists>d \<in> set (dn_needs n). d \<in> dn_id ` set (levels ! (i - 1)))))"
  using assms by (rule plan_topological)

lemma dag_plan_levels_witness:
  "\<exists>levels. dag_plan \<lparr>dc_name = ''d'', dc_description = None, dc_nodes =
     [\<lparr>dn_id = ''b'', dn_workflow = ''w'', dn_needs = [''a''], dn_isolation = None,
       dn_best_of_n = None, dn_writes = None\<rparr>,
      \<lparr>dn_id = ''a'', dn_workflow = ''w'', dn_needs = [], dn_isolation = None,
       dn_best_of_n = None, dn_writes = None\<rparr>]\<rparr> = Some (Inr levels) \<and> length (concat levels) = 2"
proof -
  let ?c = "\<lparr>dc_name = ''d'', dc_description = None, dc_nodes =
     [\<lparr>dn_id = ''b'', dn_workflow = ''w'', dn_needs = [''a''], dn_isolation = None,
       dn_best_of_n = None, dn_writes = None\<rparr>,
      \<lparr>dn_id = ''a'', dn_workflow = ''w'', dn_needs = [], dn_isolation = None,
       dn_best_of_n = None, dn_writes = None\<rparr>]\<rparr>"
  have "dag_plan ?c = Some (Inr [[dc_nodes ?c ! 1], [dc_nodes ?c ! 0]])" by code_simp
  moreover from this have "mset (concat [[dc_nodes ?c ! 1], [dc_nodes ?c ! 0]]) = mset (dc_nodes ?c)"
    using dag_plan_levels [of ?c] by simp
  then have "length (concat [[dc_nodes ?c ! 1], [dc_nodes ?c ! 0]]) = length (dc_nodes ?c)"
    by (rule mset_eq_length)
  ultimately show ?thesis by (intro exI conjI) (assumption, simp)
qed

section \<open>Validation accepts the acyclic configurations\<close>

lemma dag_inv_stuck:
  "dag_inv ns levels deg [] \<Longrightarrow> k \<in> dn_id ` set ns \<Longrightarrow> k \<notin> set (concat levels) \<Longrightarrow>
     \<exists>d \<in> set (needs_of ns k). d \<notin> set (concat levels)"
  unfolding dag_inv_def Let_def by auto

lemma complete_levels:
  assumes "dag_inv ns levels deg []" and "length (concat levels) = length ns" and "distinct (map dn_id ns)"
  shows "set (concat levels) = dn_id ` set ns"
proof -
  from assms(1) have d: "distinct (concat levels)" and s: "set (concat levels) \<subseteq> set (map dn_id ns)"
    by (simp_all add: dag_inv_def Let_def)
  have "card (set (concat levels)) = card (set (map dn_id ns))"
    unfolding distinct_card [OF d] distinct_card [OF assms(3)] length_map by (rule assms(2))
  with s have "set (concat levels) = set (map dn_id ns)" by (intro card_subset_eq) simp_all
  then show ?thesis by simp
qed

lemma dag_inv_acyclic:
  assumes inv: "dag_inv ns levels deg []" and "length (concat levels) = length ns"
    and dist: "distinct (map dn_id ns)"
  shows "acyclic (dag_edges ns)"
proof -
  define rank where "rank k = (LEAST i. i < length levels \<and> k \<in> set (levels ! i))" for k
  from inv have lev: "leveled ns levels" by (simp add: dag_inv_def Let_def leveled_snoc)
  have "rank d < rank (dn_id n)" if n: "n \<in> set ns" and d: "d \<in> set (dn_needs n)" for n d
  proof -
    from n complete_levels [OF assms] have "dn_id n \<in> set (concat levels)" by blast
    then obtain l where "l \<in> set levels" "dn_id n \<in> set l" by auto
    then have "\<exists>i. i < length levels \<and> dn_id n \<in> set (levels ! i)" by (metis in_set_conv_nth)
    from LeastI_ex [OF this]
    have r: "rank (dn_id n) < length levels" "dn_id n \<in> set (levels ! rank (dn_id n))"
      by (simp_all add: rank_def)
    with lev have "set (needs_of ns (dn_id n)) \<subseteq> set (concat (take (rank (dn_id n)) levels))"
      unfolding leveled_def by blast
    with d needs_of_node [OF dist n] have "d \<in> set (concat (take (rank (dn_id n)) levels))" by auto
    then obtain l where l: "l \<in> set (take (rank (dn_id n)) levels)" "d \<in> set l" by auto
    then obtain j where j: "j < rank (dn_id n)" "l = levels ! j" "j < length levels"
      unfolding in_set_conv_nth by auto
    with l have "rank d \<le> j" unfolding rank_def by (intro Least_le) simp
    with j show ?thesis by simp
  qed
  then have "dag_edges ns \<subseteq> measure rank" by (auto simp: dag_edges_def)
  then show ?thesis by (meson acyclic_subset wf_acyclic wf_measure)
qed

lemma dag_inv_cyclic:
  assumes inv: "dag_inv ns levels deg []" and "length (concat levels) \<noteq> length ns"
    and dist: "distinct (map dn_id ns)" and known: "\<forall>n \<in> set ns. set (dn_needs n) \<subseteq> dn_id ` set ns"
  shows "\<not> acyclic (dag_edges ns)"
proof
  assume "acyclic (dag_edges ns)"
  with finite_dag_edges have "wf (dag_edges ns)" by (rule finite_acyclic_wf)
  define U where "U = dn_id ` set ns - set (concat levels)"
  from inv have d: "distinct (concat levels)" and s: "set (concat levels) \<subseteq> dn_id ` set ns"
    by (simp_all add: dag_inv_def Let_def)
  have "U \<noteq> {}"
  proof
    assume "U = {}"
    with s have "set (concat levels) = set (map dn_id ns)" by (auto simp: U_def)
    then have "length (concat levels) = length (map dn_id ns)"
      using distinct_card [OF d] distinct_card [OF dist] by simp
    with assms(2) show False by simp
  qed
  then obtain k where k: "k \<in> U" and min: "\<And>d. (d, k) \<in> dag_edges ns \<Longrightarrow> d \<notin> U"
    using \<open>wf (dag_edges ns)\<close> by (metis wf_eq_minimal ex_in_conv)
  from k have "k \<in> dn_id ` set ns" and nk: "k \<notin> set (concat levels)" by (simp_all add: U_def)
  then obtain n where n: "n \<in> set ns" "dn_id n = k" by blast
  obtain d where d: "d \<in> set (needs_of ns k)" "d \<notin> set (concat levels)"
    using dag_inv_stuck [OF inv \<open>k \<in> dn_id ` set ns\<close> nk] by blast
  with n needs_of_node [OF dist n(1)] have e: "d \<in> set (dn_needs n)" by simp
  with known n d(2) have "d \<in> U" by (auto simp: U_def)
  moreover have "(d, k) \<in> dag_edges ns" using e n by (auto simp: dag_edges_def)
  ultimately show False using min by blast
qed

text \<open>The configurations that make sense: at least one node, distinct ids, every need the id of
  a node, and no cycle of needs.\<close>

definition dag_wf :: "dag_config \<Rightarrow> bool" where
  "dag_wf c =
     (dc_nodes c \<noteq> [] \<and> distinct (map dn_id (dc_nodes c)) \<and>
      (\<forall>n \<in> set (dc_nodes c). set (dn_needs n) \<subseteq> dn_id ` set (dc_nodes c)) \<and>
      acyclic (dag_edges (dc_nodes c)))"

lemma duplicate_id_None:
  "duplicate_id seen ns = None \<longleftrightarrow> distinct (map dn_id ns) \<and> seen \<inter> dn_id ` set ns = {}"
  by (induction seen ns rule: duplicate_id.induct) auto

lemma unknown_dep_None: "unknown_dep seen n = None \<longleftrightarrow> set (dn_needs n) \<subseteq> seen"
  by (auto simp: unknown_dep_def find_None_iff)

lemma unknown_dependency_None:
  "unknown_dependency seen ns = None \<longleftrightarrow> (\<forall>n \<in> set ns. set (dn_needs n) \<subseteq> seen)"
  by (induction seen ns rule: unknown_dependency.induct)
     (auto simp: unknown_dep_None [symmetric] split: option.splits)

lemma dag_validate_cases:
  assumes "dc_nodes c \<noteq> []" and "distinct (map dn_id (dc_nodes c))"
    and "\<forall>n \<in> set (dc_nodes c). set (dn_needs n) \<subseteq> dn_id ` set (dc_nodes c)"
  shows "dag_validate c = (case dag_plan c of None \<Rightarrow> None | Some (Inl e) \<Rightarrow> Some (Inl e)
     | Some (Inr _) \<Rightarrow> Some (Inr ()))"
proof -
  have "duplicate_id {} (dc_nodes c) = None" using assms(2) by (simp add: duplicate_id_None)
  moreover have "unknown_dependency (dn_id ` set (dc_nodes c)) (dc_nodes c) = None"
    using assms(3) by (simp add: unknown_dependency_None)
  ultimately show ?thesis using assms(1) by (simp add: dag_validate_def Let_def)
qed

text \<open>C39: validation accepts a configuration exactly when it is well formed: the sort finds a
  cycle when, and only when, the needs have one.\<close>

theorem dag_validate_iff: "dag_validate c = Some (Inr ()) \<longleftrightarrow> dag_wf c"
proof (cases "dc_nodes c \<noteq> [] \<and> distinct (map dn_id (dc_nodes c)) \<and>
    (\<forall>n \<in> set (dc_nodes c). set (dn_needs n) \<subseteq> dn_id ` set (dc_nodes c))")
  case True
  then have "distinct (map dn_id (dc_nodes c))" by blast
  then show ?thesis
  proof (cases rule: dag_plan_cases)
    case (1 levels deg)
    with True dag_inv_cyclic [OF 1(1,2)] show ?thesis by (simp add: dag_validate_cases dag_wf_def)
  next
    case (2 levels deg plan)
    with True dag_inv_acyclic [OF 2(1,2)] show ?thesis by (simp add: dag_validate_cases dag_wf_def)
  qed
next
  case False
  then show ?thesis
    by (auto simp: dag_validate_def dag_wf_def Let_def duplicate_id_None unknown_dependency_None
        split: option.splits prod.splits sum.splits)
qed

text \<open>Planning a configuration with distinct ids never panics, and the only error it gives
  names the configuration and a non-empty list of nodes, all stuck: each needs another node
  of the list or an id that no node has.\<close>

theorem dag_plan_stuck:
  assumes "distinct (map dn_id (dc_nodes c))"
  shows "(\<exists>levels. dag_plan c = Some (Inr levels)) \<or>
     (\<exists>us. dag_plan c = Some (Inl (Dag_cycle (dc_name c) us)) \<and> us \<noteq> [] \<and>
        (\<forall>u \<in> set us. \<exists>n \<in> set (dc_nodes c). dn_id n = u \<and>
           (\<exists>d \<in> set (dn_needs n). d \<in> set us \<or> d \<notin> dn_id ` set (dc_nodes c))))"
  using assms
proof (cases rule: dag_plan_cases)
  case (1 levels deg)
  let ?ns = "dc_nodes c"
  let ?us = "map dn_id (filter (\<lambda>n. dn_id n \<notin> set (concat levels)) ?ns)"
  have "?us \<noteq> []"
  proof
    assume "?us = []"
    then have "dn_id ` set ?ns \<subseteq> set (concat levels)" by (auto simp: filter_empty_conv)
    moreover have "distinct (concat levels)" "set (concat levels) \<subseteq> dn_id ` set ?ns"
      using 1(1) by (simp_all add: dag_inv_def Let_def)
    ultimately have "length (concat levels) = length (map dn_id ?ns)"
      using distinct_card [OF assms] distinct_card [of "concat levels"]
      by (metis image_set subset_antisym)
    with 1(2) show False by simp
  qed
  moreover have "\<exists>n \<in> set ?ns. dn_id n = u \<and>
      (\<exists>d \<in> set (dn_needs n). d \<in> set ?us \<or> d \<notin> dn_id ` set ?ns)" if u: "u \<in> set ?us" for u
  proof -
    from u obtain n where n: "n \<in> set ?ns" "dn_id n = u" "u \<notin> set (concat levels)" by auto
    then obtain d where "d \<in> set (needs_of ?ns u)" "d \<notin> set (concat levels)"
      using dag_inv_stuck [OF 1(1), of u] by blast
    with n needs_of_node [OF assms n(1)] have d: "d \<in> set (dn_needs n)" by simp
    have "d \<in> set ?us \<or> d \<notin> dn_id ` set ?ns"
      using \<open>d \<notin> set (concat levels)\<close> by (auto simp del: set_concat)
    with n d show ?thesis by blast
  qed
  ultimately show ?thesis using 1(3) by blast
next
  case 2
  then show ?thesis by blast
qed

lemma dag_plan_stuck_witness:
  "\<exists>us. dag_plan \<lparr>dc_name = ''d'', dc_description = None, dc_nodes =
     [\<lparr>dn_id = ''a'', dn_workflow = ''w'', dn_needs = [''a''], dn_isolation = None,
       dn_best_of_n = None, dn_writes = None\<rparr>]\<rparr> = Some (Inl (Dag_cycle ''d'' us)) \<and> us \<noteq> []"
proof -
  let ?c = "\<lparr>dc_name = ''d'', dc_description = None, dc_nodes =
     [\<lparr>dn_id = ''a'', dn_workflow = ''w'', dn_needs = [''a''], dn_isolation = None,
       dn_best_of_n = None, dn_writes = None\<rparr>]\<rparr>"
  have "dag_plan ?c = Some (Inl (Dag_cycle ''d'' [''a'']))" by code_simp
  then show ?thesis using dag_plan_stuck [of ?c] by simp
qed

end
