(* ===== verification/Durable_Engine.thy ===== *)
theory Durable_Engine
  imports Json Dag
begin

text \<open>
  The durable engine, \<open>src/janus/src/absurd/adapter.rs\<close>: the trait that the workflow engine
  is written against, the adapter that turns each method into one statement of the Postgres
  engine, and the in-memory engine of the unit tests.

  The trait is a record of operations on a state of type \<open>'e\<close>. What clients rely on is the
  locales \<open>task_log\<close>, for one run, and \<open>checkpointed_engine\<close>: checkpoints form a log per task that only \<open>set_checkpoint\<close>
  extends and whose last entry \<open>get_last_checkpoint\<close> returns; the in-memory engine is
  proved to provide it. Its task life cycle is a step relation, with the invariant that
  bounds retries. Random UUIDs come from a supply in the state.
\<close>

section \<open>The trait\<close>

record claimed_task =
  ct_run_id :: uuid
  ct_task_id :: uuid
  ct_task_name :: string
  ct_params :: json

datatype await_outcome = Suspended | Resolved json

record task_info =
  ti_task_id :: uuid
  ti_task_name :: string
  ti_state :: string

record 'e engine =
  create_queue :: "string \<Rightarrow> (string, 'e, unit) io"
  spawn_task :: "string \<Rightarrow> string \<Rightarrow> json \<Rightarrow> (string, 'e, uuid) io"
  claim_task :: "string \<Rightarrow> string \<Rightarrow> (string, 'e, claimed_task option) io"
  extend_claim :: "string \<Rightarrow> uuid \<Rightarrow> int \<Rightarrow> (string, 'e, unit) io"
  complete_run :: "string \<Rightarrow> uuid \<Rightarrow> json \<Rightarrow> (string, 'e, unit) io"
  fail_run :: "string \<Rightarrow> uuid \<Rightarrow> json \<Rightarrow> (string, 'e, unit) io"
  set_checkpoint :: "string \<Rightarrow> uuid \<Rightarrow> string \<Rightarrow> json \<Rightarrow> uuid \<Rightarrow> (string, 'e, unit) io"
  get_last_checkpoint :: "string \<Rightarrow> uuid \<Rightarrow> (string, 'e, (string \<times> json) option) io"
  non_terminal_tasks :: "string \<Rightarrow> (string, 'e, task_info list) io"
  emit_event :: "string \<Rightarrow> string \<Rightarrow> json \<Rightarrow> (string, 'e, unit) io"
  await_event :: "string \<Rightarrow> uuid \<Rightarrow> uuid \<Rightarrow> string \<Rightarrow> string \<Rightarrow> int option \<Rightarrow>
    (string, 'e, await_outcome) io"

definition last_checkpoint :: "(string \<times> json) list \<Rightarrow> (string \<times> json) option" where
  "last_checkpoint log = (if log = [] then None else Some (last log))"

text \<open>What a pass over the steps of a task relies on, for one run \<open>r\<close> of the task \<open>t\<close>: \<open>L\<close> is the history
  of the checkpoints that were stored for the task. A checkpoint that the run stores is
  added, a refused one is not, the lookup returns the latest, and a renewed lease changes
  nothing. An engine that ignores the checkpoints of an outdated run keeps this contract for the
  newest run.\<close>

locale task_log =
  fixes eng :: "'e engine" and L :: "'e \<Rightarrow> (string \<times> json) list" and q :: string and t :: uuid and r :: uuid
  assumes set_log: "set_checkpoint eng q t s v r w = Some (x, w') \<Longrightarrow>
      L w' = (case x of Inl _ \<Rightarrow> L w | Inr _ \<Rightarrow> L w @ [(s, v)])"
    and last_log: "get_last_checkpoint eng q t w = Some (y, w') \<Longrightarrow>
      L w' = L w \<and> (\<forall>c. y = Inr c \<longrightarrow> c = last_checkpoint (L w))"
    and extend_log: "keeps (\<lambda>w w'. L w' = L w) (extend_claim eng q r i)"

text \<open>The contract of an engine that keeps the whole log of every task, whatever the run.\<close>

locale checkpointed_engine =
  fixes eng :: "'e engine" and ckpt_log :: "'e \<Rightarrow> uuid \<Rightarrow> (string \<times> json) list"
  assumes set_checkpoint_log:
      "set_checkpoint eng q t s v r w = Some (Inr u, w') \<Longrightarrow>
         ckpt_log w' = (ckpt_log w)(t := ckpt_log w t @ [(s, v)])"
    and set_checkpoint_err: "set_checkpoint eng q t s v r w = Some (Inl e, w') \<Longrightarrow> ckpt_log w' = ckpt_log w"
    and get_last_log:
      "get_last_checkpoint eng q t w = Some (Inr c, w') \<Longrightarrow>
         c = (if ckpt_log w t = [] then None else Some (last (ckpt_log w t)))"
    and get_last_keeps: "keeps (\<lambda>w w'. ckpt_log w' = ckpt_log w) (get_last_checkpoint eng q t)"
    and claim_keeps: "keeps (\<lambda>w w'. ckpt_log w' = ckpt_log w) (claim_task eng q n)"
    and extend_keeps: "keeps (\<lambda>w w'. ckpt_log w' = ckpt_log w) (extend_claim eng q r i)"
    and complete_keeps: "keeps (\<lambda>w w'. ckpt_log w' = ckpt_log w) (complete_run eng q r v)"
    and fail_keeps: "keeps (\<lambda>w w'. ckpt_log w' = ckpt_log w) (fail_run eng q r v)"
    and non_terminal_keeps: "keeps (\<lambda>w w'. ckpt_log w' = ckpt_log w) (non_terminal_tasks eng q)"
begin

lemma last_after_set:
  assumes "set_checkpoint eng q t s v r w = Some (Inr u, w')"
    and "get_last_checkpoint eng q' t w' = Some (Inr c, w'')"
  shows "c = Some (s, v)"
  using get_last_log [OF assms(2)] set_checkpoint_log [OF assms(1)] by simp

end

sublocale checkpointed_engine \<subseteq> run: task_log eng "\<lambda>e. ckpt_log e t" q t r for q t r
proof
  show "ckpt_log w' t = (case x of Inl _ \<Rightarrow> ckpt_log w t | Inr _ \<Rightarrow> ckpt_log w t @ [(s, v)])"
    if "set_checkpoint eng q t s v r w = Some (x, w')" for s v w x w'
    using that set_checkpoint_log set_checkpoint_err by (cases x) auto
  show "ckpt_log w' t = ckpt_log w t \<and> (\<forall>c. y = Inr c \<longrightarrow> c = last_checkpoint (ckpt_log w t))"
    if "get_last_checkpoint eng q t w = Some (y, w')" for w y w'
    using that keepsD [OF get_last_keeps that] by (cases y) (auto simp: last_checkpoint_def dest!: get_last_log)
  show "keeps (\<lambda>w w'. ckpt_log w' t = ckpt_log w t) (extend_claim eng q r i)" for i
    using extend_keeps [of q r i] by (auto simp: keeps_def)
qed

section \<open>The Postgres adapter\<close>

datatype sql_value =
    SNull
  | SText string
  | SUuid uuid
  | SJson json
  | SInt int
  | SBool bool

type_synonym 'd sql = "string \<Rightarrow> sql_value list \<Rightarrow> (string, 'd, sql_value list list) io"

text \<open>The sanitised table name of a queue.\<close>

definition queue_ident_suffix :: "string \<Rightarrow> string \<Rightarrow> string" where
  "queue_ident_suffix queue pre = pre @ sanitize_chars queue"

definition as_i32 :: "int \<Rightarrow> int" where
  "as_i32 i = sint (word_of_int i :: 32 word)"

definition fetch_one :: "('r \<Rightarrow> 'a option) \<Rightarrow> 'r list \<Rightarrow> (string, 'd, 'a) io" where
  "fetch_one dec_row rows =
     (case rows of
        [] \<Rightarrow> fail ''no rows returned''
      | r # _ \<Rightarrow> (case dec_row r of None \<Rightarrow> fail ''decode'' | Some x \<Rightarrow> ret x))"

definition fetch_optional :: "('r \<Rightarrow> 'a option) \<Rightarrow> 'r list \<Rightarrow> (string, 'd, 'a option) io" where
  "fetch_optional dec_row rows =
     (case rows of
        [] \<Rightarrow> ret None
      | r # _ \<Rightarrow> (case dec_row r of None \<Rightarrow> fail ''decode'' | Some x \<Rightarrow> ret (Some x)))"

definition fetch_all :: "('r \<Rightarrow> 'a option) \<Rightarrow> 'r list \<Rightarrow> (string, 'd, 'a list) io" where
  "fetch_all dec_row rows = (case those (map dec_row rows) of None \<Rightarrow> fail ''decode'' | Some xs \<Rightarrow> ret xs)"

definition execute :: "'d sql \<Rightarrow> string \<Rightarrow> sql_value list \<Rightarrow> (string, 'd, unit) io" where
  "execute sql stmt args = bindE (sql stmt args) (\<lambda>_. ret ())"

definition pg_create_queue :: "'d sql \<Rightarrow> string \<Rightarrow> (string, 'd, unit) io" where
  "pg_create_queue sql queue = execute sql ''SELECT absurd.create_queue($1)'' [SText queue]"

definition pg_spawn_task :: "'d sql \<Rightarrow> string \<Rightarrow> string \<Rightarrow> json \<Rightarrow> (string, 'd, uuid) io" where
  "pg_spawn_task sql queue task_name params =
     bindE (sql (''SELECT task_id FROM absurd.spawn_task($1, $2, $3, '' @ [CHR 0x27] @
         ''{'' @ [CHR 0x22] @ ''max_attempts'' @ [CHR 0x22] @ '': 3}'' @ [CHR 0x27] @ ''::jsonb)'')
       [SText queue, SText task_name, SJson params])
     (fetch_one (\<lambda>r. case r of [SUuid t] \<Rightarrow> Some t | _ \<Rightarrow> None))"

definition pg_claim_task :: "'d sql \<Rightarrow> string \<Rightarrow> string \<Rightarrow> (string, 'd, claimed_task option) io" where
  "pg_claim_task sql queue worker_id =
     bindE (sql ''SELECT run_id, task_id, task_name, params FROM absurd.claim_task($1, $2, 30, 1)''
       [SText queue, SText worker_id])
     (fetch_optional (\<lambda>r. case r of
        [SUuid run_id, SUuid task_id, SText name, SJson params] \<Rightarrow>
          Some \<lparr>ct_run_id = run_id, ct_task_id = task_id, ct_task_name = name, ct_params = params\<rparr>
      | _ \<Rightarrow> None))"

definition pg_complete_run :: "'d sql \<Rightarrow> string \<Rightarrow> uuid \<Rightarrow> json \<Rightarrow> (string, 'd, unit) io" where
  "pg_complete_run sql queue run_id state =
     execute sql ''SELECT absurd.complete_run($1, $2, $3)'' [SText queue, SUuid run_id, SJson state]"

definition pg_extend_claim :: "'d sql \<Rightarrow> string \<Rightarrow> uuid \<Rightarrow> int \<Rightarrow> (string, 'd, unit) io" where
  "pg_extend_claim sql queue run_id secs =
     execute sql ''SELECT absurd.extend_claim($1, $2, $3::integer)''
       [SText queue, SUuid run_id, SInt (as_i32 secs)]"

definition pg_fail_run :: "'d sql \<Rightarrow> string \<Rightarrow> uuid \<Rightarrow> json \<Rightarrow> (string, 'd, unit) io" where
  "pg_fail_run sql queue run_id reason =
     execute sql ''SELECT absurd.fail_run($1, $2, $3, NULL)'' [SText queue, SUuid run_id, SJson reason]"

definition pg_set_checkpoint :: "'d sql \<Rightarrow> string \<Rightarrow> uuid \<Rightarrow> string \<Rightarrow> json \<Rightarrow> uuid \<Rightarrow>
    (string, 'd, unit) io" where
  "pg_set_checkpoint sql queue task_id step state owner_run =
     execute sql ''SELECT absurd.set_task_checkpoint_state($1, $2, $3, $4, $5, NULL)''
       [SText queue, SUuid task_id, SText step, SJson state, SUuid owner_run]"

definition pg_get_last_checkpoint :: "'d sql \<Rightarrow> string \<Rightarrow> uuid \<Rightarrow>
    (string, 'd, (string \<times> json) option) io" where
  "pg_get_last_checkpoint sql queue task_id =
     bindE (sql (''SELECT checkpoint_name, state FROM absurd.'' @ queue_ident_suffix queue ''c_'' @
         '' WHERE task_id = $1 ORDER BY updated_at DESC LIMIT 1'') [SUuid task_id])
     (fetch_optional (\<lambda>r. case r of [SText n, SJson v] \<Rightarrow> Some (n, v) | _ \<Rightarrow> None))"

definition pg_non_terminal_tasks :: "'d sql \<Rightarrow> string \<Rightarrow> (string, 'd, task_info list) io" where
  "pg_non_terminal_tasks sql queue =
     bindE (sql (''SELECT task_id, task_name, state FROM absurd.'' @ queue_ident_suffix queue ''t_'' @
         '' WHERE state IN ('' @ [CHR 0x27] @ ''pending'' @ [CHR 0x27] @ '', '' @ [CHR 0x27] @
         ''sleeping'' @ [CHR 0x27] @ '', '' @ [CHR 0x27] @ ''running'' @ [CHR 0x27] @ '')'') [])
     (fetch_all (\<lambda>r. case r of
        [SUuid t, SText n, SText s] \<Rightarrow> Some \<lparr>ti_task_id = t, ti_task_name = n, ti_state = s\<rparr>
      | _ \<Rightarrow> None))"

definition pg_emit_event :: "'d sql \<Rightarrow> string \<Rightarrow> string \<Rightarrow> json \<Rightarrow> (string, 'd, unit) io" where
  "pg_emit_event sql queue event_name payload =
     execute sql ''SELECT absurd.emit_event($1, $2, $3)'' [SText queue, SText event_name, SJson payload]"

definition pg_await_event :: "'d sql \<Rightarrow> string \<Rightarrow> uuid \<Rightarrow> uuid \<Rightarrow> string \<Rightarrow> string \<Rightarrow> int option \<Rightarrow>
    (string, 'd, await_outcome) io" where
  "pg_await_event sql queue task_id run_id step event_name timeout =
     bindE (sql ''SELECT should_suspend, payload FROM absurd.await_event($1, $2, $3, $4, $5, $6)''
       [SText queue, SUuid task_id, SUuid run_id, SText step, SText event_name,
        (case timeout of None \<Rightarrow> SNull | Some t \<Rightarrow> SInt (as_i32 t))])
     (fetch_one (\<lambda>r. case r of
        [SBool suspend, SNull] \<Rightarrow> Some (if suspend then Suspended else Resolved JNull)
      | [SBool suspend, SJson v] \<Rightarrow> Some (if suspend then Suspended else Resolved v)
      | _ \<Rightarrow> None))"

definition pg_engine :: "'d sql \<Rightarrow> 'd engine" where
  "pg_engine sql =
     \<lparr>create_queue = pg_create_queue sql, spawn_task = pg_spawn_task sql,
      claim_task = pg_claim_task sql, extend_claim = pg_extend_claim sql,
      complete_run = pg_complete_run sql, fail_run = pg_fail_run sql,
      set_checkpoint = pg_set_checkpoint sql, get_last_checkpoint = pg_get_last_checkpoint sql,
      non_terminal_tasks = pg_non_terminal_tasks sql, emit_event = pg_emit_event sql,
      await_event = pg_await_event sql\<rparr>"

section \<open>The in-memory engine\<close>

text \<open>The engine of the unit tests. It has no leases: a claim never expires, and renewing one changes
  nothing, where the engine in Postgres fails a run whose claim has expired and starts another.\<close>

record fake_task =
  ft_task_id :: uuid
  ft_task_name :: string
  ft_params :: json
  ft_state :: string
  ft_max_attempts :: nat
  ft_attempts :: nat
  ft_current_run :: "uuid option"
  ft_pending_runs :: "uuid list"

record fake_engine =
  fe_queues :: "string set"
  fe_tasks :: "(uuid \<times> fake_task) list"
  fe_queue_order :: "string \<Rightarrow> uuid list"
  fe_checkpoints :: "uuid \<Rightarrow> (string \<times> json) list"
  fe_events :: "string \<times> string \<Rightarrow> json list"
  fe_default_max_attempts :: nat
  fe_supply :: "nat \<Rightarrow> uuid"
  fe_drawn :: nat

definition fake_new :: "(nat \<Rightarrow> uuid) \<Rightarrow> nat \<Rightarrow> fake_engine" where
  "fake_new supply max_attempts =
     \<lparr>fe_queues = {}, fe_tasks = [], fe_queue_order = (\<lambda>_. []), fe_checkpoints = (\<lambda>_. []),
      fe_events = (\<lambda>_. []), fe_default_max_attempts = max_attempts, fe_supply = supply, fe_drawn = 0\<rparr>"

definition new_v4 :: "fake_engine \<Rightarrow> uuid" where
  "new_v4 st = fe_supply st (fe_drawn st)"

definition drawn :: "fake_engine \<Rightarrow> fake_engine" where
  "drawn st = st\<lparr>fe_drawn := fe_drawn st + 1\<rparr>"

definition fake_create_queue :: "string \<Rightarrow> (string, fake_engine, unit) io" where
  "fake_create_queue q = modify (\<lambda>st. st\<lparr>fe_queues := insert q (fe_queues st)\<rparr>)"

definition fake_spawn_task :: "string \<Rightarrow> string \<Rightarrow> json \<Rightarrow> (string, fake_engine, uuid) io" where
  "fake_spawn_task q name params st =
     (let task_id = new_v4 st; st1 = drawn st; run_id = new_v4 st1; st2 = drawn st1 in
      Some (Inr task_id,
        st2\<lparr>fe_queues := insert q (fe_queues st2),
            fe_tasks := AList.update task_id
              \<lparr>ft_task_id = task_id, ft_task_name = name, ft_params = params, ft_state = ''pending'',
               ft_max_attempts = fe_default_max_attempts st2, ft_attempts = 0,
               ft_current_run = None, ft_pending_runs = [run_id]\<rparr> (fe_tasks st2),
            fe_queue_order := (fe_queue_order st2)(q := fe_queue_order st2 q @ [task_id])\<rparr>))"

definition claimable :: "fake_task \<Rightarrow> bool" where
  "claimable t = (ft_state t \<in> {''pending'', ''sleeping''} \<and> ft_pending_runs t \<noteq> [])"

definition claim_of :: "uuid \<Rightarrow> fake_task \<Rightarrow> fake_task" where
  "claim_of run_id t =
     t\<lparr>ft_pending_runs := tl (ft_pending_runs t), ft_attempts := ft_attempts t + 1,
       ft_current_run := Some run_id, ft_state := ''running''\<rparr>"

definition fake_claim_task :: "string \<Rightarrow> string \<Rightarrow> (string, fake_engine, claimed_task option) io" where
  "fake_claim_task q worker_id st =
     (case List.find (\<lambda>i. case map_of (fe_tasks st) i of Some t \<Rightarrow> claimable t | None \<Rightarrow> False)
             (fe_queue_order st q) of
        None \<Rightarrow> Some (Inr None, st)
      | Some i \<Rightarrow>
          let t = the (map_of (fe_tasks st) i); run_id = hd (ft_pending_runs t) in
          Some (Inr (Some \<lparr>ct_run_id = run_id, ct_task_id = i, ct_task_name = ft_task_name t,
                           ct_params = ft_params t\<rparr>),
                st\<lparr>fe_tasks := AList.update i (claim_of run_id t) (fe_tasks st)\<rparr>))"

definition fake_extend_claim :: "string \<Rightarrow> uuid \<Rightarrow> int \<Rightarrow> (string, fake_engine, unit) io" where
  "fake_extend_claim q run_id secs = ret ()"

definition run_owner :: "uuid \<Rightarrow> fake_engine \<Rightarrow> (uuid \<times> fake_task) option" where
  "run_owner run_id st = List.find (\<lambda>(i, t). ft_current_run t = Some run_id) (fe_tasks st)"

definition fake_complete_run :: "string \<Rightarrow> uuid \<Rightarrow> json \<Rightarrow> (string, fake_engine, unit) io" where
  "fake_complete_run q run_id state st =
     Some (Inr (),
       case run_owner run_id st of
         None \<Rightarrow> st
       | Some (i, t) \<Rightarrow>
           st\<lparr>fe_tasks := AList.update i (t\<lparr>ft_current_run := None, ft_state := ''completed''\<rparr>) (fe_tasks st)\<rparr>)"

definition fake_fail_run :: "string \<Rightarrow> uuid \<Rightarrow> json \<Rightarrow> (string, fake_engine, unit) io" where
  "fake_fail_run q run_id reason st =
     Some (Inr (),
       case run_owner run_id st of
         None \<Rightarrow> st
       | Some (i, t) \<Rightarrow>
           if ft_attempts t < ft_max_attempts t then
             (drawn st)\<lparr>fe_tasks := AList.update i
               (t\<lparr>ft_current_run := None, ft_pending_runs := ft_pending_runs t @ [new_v4 st],
                  ft_state := ''sleeping''\<rparr>) (fe_tasks st)\<rparr>
           else
             st\<lparr>fe_tasks := AList.update i (t\<lparr>ft_current_run := None, ft_state := ''failed''\<rparr>) (fe_tasks st)\<rparr>)"

definition fake_set_checkpoint :: "string \<Rightarrow> uuid \<Rightarrow> string \<Rightarrow> json \<Rightarrow> uuid \<Rightarrow>
    (string, fake_engine, unit) io" where
  "fake_set_checkpoint q task_id step state owner =
     modify (\<lambda>st. st\<lparr>fe_checkpoints :=
       (fe_checkpoints st)(task_id := fe_checkpoints st task_id @ [(step, state)])\<rparr>)"

definition fake_seed_checkpoint :: "uuid \<Rightarrow> string \<Rightarrow> json \<Rightarrow> fake_engine \<Rightarrow> fake_engine" where
  "fake_seed_checkpoint task_id step state st =
     st\<lparr>fe_checkpoints := (fe_checkpoints st)(task_id := fe_checkpoints st task_id @ [(step, state)])\<rparr>"

definition fake_get_last_checkpoint :: "string \<Rightarrow> uuid \<Rightarrow>
    (string, fake_engine, (string \<times> json) option) io" where
  "fake_get_last_checkpoint q task_id =
     gets (\<lambda>st. case fe_checkpoints st task_id of [] \<Rightarrow> None | cs \<Rightarrow> Some (last cs))"

definition live_state :: "string \<Rightarrow> bool" where
  "live_state s = (s \<in> {''pending'', ''sleeping'', ''running''})"

definition fake_non_terminal_tasks :: "string \<Rightarrow> (string, fake_engine, task_info list) io" where
  "fake_non_terminal_tasks q =
     gets (\<lambda>st. List.map_filter (\<lambda>i. case map_of (fe_tasks st) i of
        None \<Rightarrow> None
      | Some t \<Rightarrow>
          if live_state (ft_state t)
          then Some \<lparr>ti_task_id = ft_task_id t, ti_task_name = ft_task_name t, ti_state = ft_state t\<rparr>
          else None) (fe_queue_order st q))"

definition fake_emit_event :: "string \<Rightarrow> string \<Rightarrow> json \<Rightarrow> (string, fake_engine, unit) io" where
  "fake_emit_event q event_name payload =
     modify (\<lambda>st. st\<lparr>fe_events :=
       (fe_events st)((q, event_name) := fe_events st (q, event_name) @ [payload])\<rparr>)"

definition fake_await_event :: "string \<Rightarrow> uuid \<Rightarrow> uuid \<Rightarrow> string \<Rightarrow> string \<Rightarrow> int option \<Rightarrow>
    (string, fake_engine, await_outcome) io" where
  "fake_await_event q task_id run_id step event_name timeout =
     gets (\<lambda>st. case fe_events st (q, event_name) of
        [] \<Rightarrow> Suspended | payload # _ \<Rightarrow> Resolved payload)"

definition fake_ops :: "fake_engine engine" where
  "fake_ops =
     \<lparr>create_queue = fake_create_queue, spawn_task = fake_spawn_task,
      claim_task = fake_claim_task, extend_claim = fake_extend_claim,
      complete_run = fake_complete_run, fail_run = fake_fail_run,
      set_checkpoint = fake_set_checkpoint, get_last_checkpoint = fake_get_last_checkpoint,
      non_terminal_tasks = fake_non_terminal_tasks, emit_event = fake_emit_event,
      await_event = fake_await_event\<rparr>"

definition fake_task_state :: "fake_engine \<Rightarrow> uuid \<Rightarrow> string option" where
  "fake_task_state st i = map_option ft_state (map_of (fe_tasks st) i)"

section \<open>The in-memory engine keeps the contract\<close>

lemmas fake_defs = fake_ops_def fake_create_queue_def fake_spawn_task_def fake_claim_task_def
  fake_extend_claim_def fake_complete_run_def fake_fail_run_def fake_set_checkpoint_def
  fake_get_last_checkpoint_def fake_non_terminal_tasks_def fake_emit_event_def fake_await_event_def

interpretation fake: checkpointed_engine fake_ops fe_checkpoints
proof
  fix q t s v r w u w' e c n i
  show "set_checkpoint fake_ops q t s v r w = Some (Inr u, w') \<Longrightarrow>
      fe_checkpoints w' = (fe_checkpoints w)(t := fe_checkpoints w t @ [(s, v)])"
    by (auto simp: fake_defs io_simps)
  show "set_checkpoint fake_ops q t s v r w = Some (Inl e, w') \<Longrightarrow> fe_checkpoints w' = fe_checkpoints w"
    by (simp add: fake_defs io_simps)
  show "get_last_checkpoint fake_ops q t w = Some (Inr c, w') \<Longrightarrow>
      c = (if fe_checkpoints w t = [] then None else Some (last (fe_checkpoints w t)))"
    by (auto simp: fake_defs io_simps split: list.splits)
  show "keeps (\<lambda>w w'. fe_checkpoints w' = fe_checkpoints w) (get_last_checkpoint fake_ops q t)"
    by (rule keepsI) (auto simp: fake_defs io_simps)
  show "keeps (\<lambda>w w'. fe_checkpoints w' = fe_checkpoints w) (claim_task fake_ops q n)"
    by (rule keepsI) (auto simp: fake_defs Let_def split: option.splits)
  show "keeps (\<lambda>w w'. fe_checkpoints w' = fe_checkpoints w) (extend_claim fake_ops q r i)"
    by (rule keepsI) (auto simp: fake_defs io_simps)
  show "keeps (\<lambda>w w'. fe_checkpoints w' = fe_checkpoints w) (complete_run fake_ops q r v)"
    by (rule keepsI) (auto simp: fake_defs split: option.splits)
  show "keeps (\<lambda>w w'. fe_checkpoints w' = fe_checkpoints w) (fail_run fake_ops q r v)"
    by (rule keepsI) (auto simp: fake_defs drawn_def split: option.splits if_splits)
  show "keeps (\<lambda>w w'. fe_checkpoints w' = fe_checkpoints w) (non_terminal_tasks fake_ops q)"
    by (rule keepsI) (auto simp: fake_defs io_simps)
qed

text \<open>A checkpoint that has been written is the one that the next lookup of its task
  returns, whichever runs are claimed, extended, completed or failed in between: the resume
  point of a retry is never lost.\<close>

theorem fake_checkpoint_survives:
  assumes "set_checkpoint fake_ops q t s v r st = Some (Inr (), st1)"
    and "claim_task fake_ops q n st1 = Some (c, st2)"
    and "extend_claim fake_ops q r i st2 = Some (x, st3)"
    and "fail_run fake_ops q r' v' st3 = Some (f, st4)"
    and "get_last_checkpoint fake_ops q' t st4 = Some (Inr res, st5)"
  shows "res = Some (s, v)"
proof -
  have "fe_checkpoints st4 = fe_checkpoints st1"
    using keepsD [OF fake.claim_keeps assms(2)] keepsD [OF fake.extend_keeps assms(3)]
      keepsD [OF fake.fail_keeps assms(4)] by simp
  then show ?thesis
    using fake.set_checkpoint_log [OF assms(1)] fake.get_last_log [OF assms(5)] by simp
qed

lemma fake_checkpoint_survives_witness:
  "\<exists>st5. get_last_checkpoint fake_ops ''q'' 5
     (snd (the (fail_run fake_ops ''q'' 1 JNull
       (snd (the (set_checkpoint fake_ops ''q'' 5 ''s'' (JInt 1) 1 (fake_new of_nat 3)))))))
     = Some (Inr (Some (''s'', JInt 1)), st5)"
proof -
  let ?st1 = "snd (the (set_checkpoint fake_ops ''q'' 5 ''s'' (JInt 1) 1 (fake_new of_nat 3)))"
  let ?st4 = "snd (the (fail_run fake_ops ''q'' 1 JNull ?st1))"
  have 1: "set_checkpoint fake_ops ''q'' 5 ''s'' (JInt 1) 1 (fake_new of_nat 3) = Some (Inr (), ?st1)"
    by (simp add: fake_defs modify_def)
  have 2: "claim_task fake_ops ''q'' ''w'' ?st1 = Some (Inr None, ?st1)"
    by (simp add: fake_defs modify_def fake_new_def)
  have 3: "extend_claim fake_ops ''q'' 1 30 ?st1 = Some (Inr (), ?st1)"
    by (simp add: fake_defs ret_def)
  have 4: "fail_run fake_ops ''q'' 1 JNull ?st1 = Some (Inr (), ?st4)"
    by (simp add: fake_defs)
  obtain c where 5: "get_last_checkpoint fake_ops ''q'' 5 ?st4 = Some (Inr c, ?st4)"
    by (simp add: fake_defs gets_def)
  from fake_checkpoint_survives [OF 1 2 3 4 5] 5 show ?thesis by blast
qed

section \<open>The life cycle of a task\<close>

inductive fake_step :: "fake_engine \<Rightarrow> fake_engine \<Rightarrow> bool" where
  step_spawn: "new_v4 st \<notin> fst ` set (fe_tasks st) \<Longrightarrow>
    fake_spawn_task q n p st = Some (r, st') \<Longrightarrow> fake_step st st'"
| step_claim: "fake_claim_task q n st = Some (r, st') \<Longrightarrow> fake_step st st'"
| step_complete: "fake_complete_run q i v st = Some (r, st') \<Longrightarrow> fake_step st st'"
| step_fail: "fake_fail_run q i v st = Some (r, st') \<Longrightarrow> fake_step st st'"
| step_checkpoint: "fake_set_checkpoint q t s v i st = Some (r, st') \<Longrightarrow> fake_step st st'"
| step_emit: "fake_emit_event q e v st = Some (r, st') \<Longrightarrow> fake_step st st'"

inductive_cases fake_stepE [consumes 1,
    case_names step_spawn step_claim step_complete step_fail step_checkpoint step_emit]:
  "fake_step st st'"

inductive fake_reach :: "(nat \<Rightarrow> uuid) \<Rightarrow> nat \<Rightarrow> fake_engine \<Rightarrow> bool" for ids n where
  reach_new: "fake_reach ids n (fake_new ids n)"
| reach_step: "fake_reach ids n st \<Longrightarrow> fake_step st st' \<Longrightarrow> fake_reach ids n st'"

text \<open>What holds of a task in each state.\<close>

definition task_ok :: "fake_task \<Rightarrow> bool" where
  "task_ok t =
     (let s = ft_state t; a = ft_attempts t; m = max 1 (ft_max_attempts t) in
      (s = ''pending'' \<and> a = 0 \<and> ft_current_run t = None \<and> length (ft_pending_runs t) = 1) \<or>
      (s = ''running'' \<and> 1 \<le> a \<and> a \<le> m \<and> ft_current_run t \<noteq> None \<and> ft_pending_runs t = []) \<or>
      (s = ''sleeping'' \<and> 1 \<le> a \<and> a < m \<and> ft_current_run t = None \<and> length (ft_pending_runs t) = 1) \<or>
      ((s = ''completed'' \<or> s = ''failed'') \<and> 1 \<le> a \<and> a \<le> m \<and> ft_current_run t = None \<and>
         ft_pending_runs t = []))"

definition tasks_ok :: "fake_engine \<Rightarrow> bool" where
  "tasks_ok st = (distinct (map fst (fe_tasks st)) \<and> (\<forall>(i, t) \<in> set (fe_tasks st). task_ok t))"

lemma tasks_ok_lookup: "tasks_ok st \<Longrightarrow> map_of (fe_tasks st) i = Some t \<Longrightarrow> task_ok t"
  by (auto simp: tasks_ok_def dest: map_of_SomeD)

lemma set_update: "set (AList.update k v al) \<subseteq> insert (k, v) (set al)"
  by (induction al) auto

lemma tasks_ok_update:
  assumes "tasks_ok st" and "task_ok t" and "fe_tasks st' = AList.update i t (fe_tasks st)"
  shows "tasks_ok st'"
  using assms set_update [of i t "fe_tasks st"]
  by (auto simp: tasks_ok_def distinct_update)

lemma run_ownerD:
  "run_owner r st = Some (i, t) \<Longrightarrow> (i, t) \<in> set (fe_tasks st) \<and> ft_current_run t = Some r"
  by (auto simp: run_owner_def dest: find_SomeD)

lemma task_ok_running: "task_ok t \<Longrightarrow> ft_current_run t = Some r \<Longrightarrow>
    ft_state t = ''running'' \<and> ft_pending_runs t = [] \<and> 1 \<le> ft_attempts t \<and>
    ft_attempts t \<le> max 1 (ft_max_attempts t)"
  by (auto simp: task_ok_def Let_def)

lemma claim_of_ok: "task_ok t \<Longrightarrow> claimable t \<Longrightarrow> task_ok (claim_of r t)"
  by (auto simp: task_ok_def claimable_def claim_of_def Let_def length_Suc_conv)

lemma task_ok_new: "task_ok \<lparr>ft_task_id = i, ft_task_name = n, ft_params = p, ft_state = ''pending'',
    ft_max_attempts = m, ft_attempts = 0, ft_current_run = None, ft_pending_runs = [r]\<rparr>"
  by (simp add: task_ok_def Let_def)

lemma task_ok_complete: "task_ok t \<Longrightarrow> ft_current_run t = Some r \<Longrightarrow>
    task_ok (t\<lparr>ft_current_run := None, ft_state := ''completed''\<rparr>)"
  by (drule (1) task_ok_running) (simp add: task_ok_def Let_def)

lemma task_ok_fail: "task_ok t \<Longrightarrow> ft_current_run t = Some r \<Longrightarrow>
    task_ok (t\<lparr>ft_current_run := None, ft_state := ''failed''\<rparr>)"
  by (drule (1) task_ok_running) (simp add: task_ok_def Let_def)

lemma task_ok_retry: "task_ok t \<Longrightarrow> ft_current_run t = Some r \<Longrightarrow> ft_attempts t < ft_max_attempts t \<Longrightarrow>
    task_ok (t\<lparr>ft_current_run := None, ft_pending_runs := ft_pending_runs t @ [r'], ft_state := ''sleeping''\<rparr>)"
  by (drule (1) task_ok_running) (simp add: task_ok_def Let_def)

lemma run_owner_ok: "tasks_ok st \<Longrightarrow> run_owner r st = Some (i, t) \<Longrightarrow>
    map_of (fe_tasks st) i = Some t \<and> task_ok t \<and> ft_current_run t = Some r"
  using run_ownerD [of r st i t] by (auto simp: tasks_ok_def)

lemma tasks_ok_spawn: "tasks_ok st \<Longrightarrow> fake_spawn_task q n p st = Some (r, st') \<Longrightarrow> tasks_ok st'"
  by (rule tasks_ok_update [OF _ task_ok_new, where i = "new_v4 st"])
     (auto simp: fake_spawn_task_def Let_def drawn_def)

lemma tasks_ok_claim:
  assumes "tasks_ok st" and c: "fake_claim_task q n st = Some (r, st')"
  shows "tasks_ok st'"
proof (cases "List.find (\<lambda>i. case map_of (fe_tasks st) i of Some t \<Rightarrow> claimable t | None \<Rightarrow> False)
    (fe_queue_order st q)")
  case None
  with assms show ?thesis by (simp add: fake_claim_task_def)
next
  case (Some i)
  from find_SomeD [OF Some] obtain t where t: "map_of (fe_tasks st) i = Some t" "claimable t"
    by (auto split: option.splits)
  from c Some t have "fe_tasks st' = AList.update i (claim_of (hd (ft_pending_runs t)) t) (fe_tasks st)"
    by (auto simp: fake_claim_task_def Let_def)
  then show ?thesis
    using tasks_ok_update claim_of_ok [OF tasks_ok_lookup [OF assms(1) t(1)] t(2)] assms(1) by blast
qed

lemma tasks_ok_complete:
  assumes "tasks_ok st" and c: "fake_complete_run q r v st = Some (x, st')"
  shows "tasks_ok st'"
proof (cases "run_owner r st")
  case None
  with assms show ?thesis by (simp add: fake_complete_run_def)
next
  case (Some it)
  obtain i t where it: "it = (i, t)" by (cases it)
  with run_owner_ok [OF assms(1)] Some have t: "task_ok t" "ft_current_run t = Some r" by blast+
  from c Some it have "fe_tasks st' =
      AList.update i (t\<lparr>ft_current_run := None, ft_state := ''completed''\<rparr>) (fe_tasks st)"
    by (auto simp: fake_complete_run_def)
  then show ?thesis using tasks_ok_update task_ok_complete [OF t] assms(1) by blast
qed

lemma tasks_ok_fail:
  assumes "tasks_ok st" and c: "fake_fail_run q r v st = Some (x, st')"
  shows "tasks_ok st'"
proof (cases "run_owner r st")
  case None
  with assms show ?thesis by (simp add: fake_fail_run_def)
next
  case (Some it)
  obtain i t where it: "it = (i, t)" by (cases it)
  with run_owner_ok [OF assms(1)] Some have t: "task_ok t" "ft_current_run t = Some r" by blast+
  show ?thesis
  proof (cases "ft_attempts t < ft_max_attempts t")
    case True
    with c Some it have "fe_tasks st' = AList.update i
        (t\<lparr>ft_current_run := None, ft_pending_runs := ft_pending_runs t @ [new_v4 st],
           ft_state := ''sleeping''\<rparr>) (fe_tasks st)"
      by (auto simp: fake_fail_run_def)
    then show ?thesis using tasks_ok_update task_ok_retry [OF t True] assms(1) by blast
  next
    case False
    with c Some it have "fe_tasks st' =
        AList.update i (t\<lparr>ft_current_run := None, ft_state := ''failed''\<rparr>) (fe_tasks st)"
      by (auto simp: fake_fail_run_def)
    then show ?thesis using tasks_ok_update task_ok_fail [OF t] assms(1) by blast
  qed
qed

lemma tasks_ok_step: "fake_step st st' \<Longrightarrow> tasks_ok st \<Longrightarrow> tasks_ok st'"
proof (induction rule: fake_step.induct)
  case (step_checkpoint q t s v i st r st')
  then show ?case by (auto simp: fake_set_checkpoint_def io_simps tasks_ok_def)
next
  case (step_emit q e v st r st')
  then show ?case by (auto simp: fake_emit_event_def io_simps tasks_ok_def)
qed (blast intro: tasks_ok_spawn tasks_ok_claim tasks_ok_complete tasks_ok_fail)+

lemma fake_reach_ok: "fake_reach ids n st \<Longrightarrow> tasks_ok st"
proof (induction rule: fake_reach.induct)
  case reach_new
  then show ?case by (simp add: tasks_ok_def fake_new_def)
qed (simp add: tasks_ok_step)

text \<open>C36: whatever sequence of operations the in-memory engine has gone through, each of its tasks is in
  one of the five states, is claimable exactly in the two waiting ones, has one run to claim
  there and none elsewhere, and has been claimed at most as often as its retry limit says.\<close>

theorem fake_task_invariant:
  assumes "fake_reach ids n st" and "map_of (fe_tasks st) i = Some t"
  shows "ft_state t \<in> {''pending'', ''running'', ''sleeping'', ''completed'', ''failed''} \<and>
    (claimable t \<longleftrightarrow> ft_state t = ''pending'' \<or> ft_state t = ''sleeping'') \<and>
    ft_attempts t \<le> max 1 (ft_max_attempts t) \<and>
    (ft_current_run t \<noteq> None \<longleftrightarrow> ft_state t = ''running'') \<and> length (ft_pending_runs t) \<le> 1"
  using tasks_ok_lookup [OF fake_reach_ok [OF assms(1)] assms(2)]
  by (auto simp: task_ok_def claimable_def Let_def)

lemma fake_task_invariant_witness:
  "\<exists>st t. fake_reach of_nat 2 st \<and> map_of (fe_tasks st) 0 = Some t \<and> ft_attempts t \<le> max 1 (ft_max_attempts t)"
proof -
  let ?st0 = "fake_new of_nat 2 :: fake_engine"
  obtain st where sp: "fake_spawn_task ''q'' ''n'' JNull ?st0 = Some (Inr 0, st)"
    and t: "\<exists>t. map_of (fe_tasks st) 0 = Some t"
    by (simp add: fake_spawn_task_def fake_new_def new_v4_def drawn_def Let_def)
  have "fake_step ?st0 st"
    by (rule step_spawn [OF _ sp]) (simp add: fake_new_def)
  then have reach: "fake_reach of_nat 2 st" by (rule reach_step [OF reach_new])
  with t fake_task_invariant [OF reach] show ?thesis by blast
qed

text \<open>A completed or failed task is final: no operation changes it, so that nothing can run
  its steps again.\<close>

theorem fake_terminal_final:
  assumes "tasks_ok st" and "fake_step st st'" and "map_of (fe_tasks st) i = Some t"
    and "ft_state t = ''completed'' \<or> ft_state t = ''failed''"
  shows "map_of (fe_tasks st') i = Some t"
proof -
  have nc: "\<not> claimable t" "ft_current_run t = None"
    using tasks_ok_lookup [OF assms(1,3)] assms(4) by (auto simp: task_ok_def claimable_def Let_def)
  have key: "i \<in> fst ` set (fe_tasks st)" using assms(3) by (force dest: map_of_SomeD)
  have owner: "run_owner r st \<noteq> Some (i, u)" for r u
    using run_owner_ok [OF assms(1), of r i u] nc(2) assms(3) by auto
  show ?thesis
    using assms(2)
  proof (cases rule: fake_stepE)
    case (step_spawn q n p r)
    with key have "i \<noteq> new_v4 st" by blast
    with step_spawn assms(3) show ?thesis
      by (auto simp: fake_spawn_task_def Let_def drawn_def update_conv)
  next
    case (step_claim q n r)
    show ?thesis
    proof (cases "List.find (\<lambda>i. case map_of (fe_tasks st) i of Some t \<Rightarrow> claimable t | None \<Rightarrow> False)
        (fe_queue_order st q)")
      case (Some j)
      from find_SomeD [OF Some] nc(1) assms(3) have "j \<noteq> i" by (auto split: option.splits)
      with step_claim Some assms(3) show ?thesis
        by (auto simp: fake_claim_task_def Let_def update_conv)
    qed (use step_claim assms(3) in \<open>simp add: fake_claim_task_def\<close>)
  next
    case (step_complete q r v x)
    with owner assms(3) show ?thesis
      by (auto simp: fake_complete_run_def update_conv split: option.splits prod.splits)
  next
    case (step_fail q r v x)
    with owner assms(3) show ?thesis
      by (auto simp: fake_fail_run_def drawn_def update_conv split: option.splits prod.splits if_splits)
  qed (use assms(3) in \<open>auto simp: fake_set_checkpoint_def fake_emit_event_def io_simps\<close>)
qed

definition done_task :: fake_task where
  "done_task = \<lparr>ft_task_id = 4, ft_task_name = ''n'', ft_params = JNull, ft_state = ''completed'',
     ft_max_attempts = 3, ft_attempts = 1, ft_current_run = None, ft_pending_runs = []\<rparr>"

lemma fake_terminal_final_witness:
  "\<exists>st'. fake_fail_run ''q'' 9 JNull ((fake_new of_nat 3)\<lparr>fe_tasks := [(4, done_task)]\<rparr>) = Some (Inr (), st') \<and>
     map_of (fe_tasks st') 4 = Some done_task"
proof -
  let ?st = "(fake_new of_nat 3)\<lparr>fe_tasks := [(4, done_task)]\<rparr>"
  obtain st' where f: "fake_fail_run ''q'' 9 JNull ?st = Some (Inr (), st')"
    by (simp add: fake_fail_run_def)
  have "tasks_ok ?st" by (simp add: tasks_ok_def task_ok_def done_task_def Let_def)
  from fake_terminal_final [OF this step_fail [OF f], of 4 done_task] f
  show ?thesis by (simp add: done_task_def)
qed

end
