(* ===== verification/Recipe.thy ===== *)
theory Recipe
  imports Dag
begin

text \<open>
  Blueprint recipes and workflow files, \<open>src/janus/src/recipe.rs\<close>: the name rule, the step
  rule, the parser of DAG files with inline steps, the two loaders and the validation of a
  recipe with its bound workflow. The \<open>toml\<close> crate is a parameter, one function for each
  type the code parses to; a panic of the DAG sort (which the lemmas exclude) is \<open>None\<close>.
\<close>

section \<open>Recipes and workflows\<close>

record blueprint_section =
  bs_name :: string
  bs_default_workflow :: string

record remote_section =
  rs_host :: string
  rs_user :: "string option"

record codebase_memory_config =
  cm_transport :: string
  cm_command :: string
  cm_args :: "string list"
  cm_timeout_secs :: nat

record blueprint_recipe =
  br_blueprint :: blueprint_section
  br_remote :: "remote_section option"
  br_openwiki_scope :: "string list"
  br_cognitive :: "codebase_memory_config option option"

definition default_wf_name :: string where
  "default_wf_name = ''dev-flow''"

definition default_cognitive_timeout :: nat where
  "default_cognitive_timeout = 5"

definition remote_host :: "blueprint_recipe \<Rightarrow> string option" where
  "remote_host r = map_option rs_host (br_remote r)"

record workflow_step =
  ws_name :: string
  ws_agent :: string
  ws_command :: "string option"
  ws_host :: "string option"
  ws_toolset :: "string list option"
  ws_max_correction_attempts :: "32 word option"
  ws_isolation :: "string option"
  ws_best_of_n :: "8 word option"
  ws_writes :: "string list option"

record workflow =
  wf_name :: string
  wf_description :: "string option"
  wf_steps :: "workflow_step list"

record validated_recipe =
  vr_name :: string
  vr_default_workflow :: string
  vr_remote_host :: "string option"
  vr_remote_user :: "string option"
  vr_openwiki_scope :: "string list"
  vr_config_text :: string
  vr_workflow :: workflow

datatype unified_workflow =
    Linear workflow
  | Dag_workflow (uw_config: dag_config) (uw_inline: "string \<Rightarrow> workflow option")

record dag_node_def =
  nd_id :: string
  nd_needs :: "string list"
  nd_workflow :: "string option"
  nd_steps :: "workflow_step list option"
  nd_isolation :: "string option"
  nd_best_of_n :: "8 word option"
  nd_writes :: "string list option"

record dag_workflow_file =
  df_workflow :: "(string \<times> string option) option"
  df_nodes :: "dag_node_def list"

datatype recipe_error =
    Invalid_name string
  | No_steps string
  | Step_name_required string nat
  | Step_agent_required string nat string
  | Workflow_not_found string
  | Read_failed string
  | Parse_failed string
  | Workflow_name_mismatch string string
  | Header_required
  | Node_workflow_empty string
  | Node_both string
  | Node_neither string
  | Dag_invalid dag_error
  | Blueprint_name_required
  | Default_workflow_required
  | Scope_required
  | Blueprint_name_mismatch string string

text \<open>The parsers of the \<open>toml\<close> crate at the three types.\<close>

record toml_parsers =
  toml_recipe :: "string \<Rightarrow> blueprint_recipe option"
  toml_workflow :: "string \<Rightarrow> workflow option"
  toml_dag :: "string \<Rightarrow> dag_workflow_file option"

section \<open>Names and steps\<close>

definition validate_name :: "string \<Rightarrow> recipe_error + unit" where
  "validate_name name =
     (if name = [] \<or> 60 < char_count name \<or> \<not> list_all ident_char name
      then Inl (Invalid_name name) else Inr ())"

fun validate_steps_from :: "nat \<Rightarrow> workflow_step list \<Rightarrow> string \<Rightarrow> recipe_error + unit" where
  "validate_steps_from i [] w = Inr ()"
| "validate_steps_from i (s # ss) w =
     (if trim (ws_name s) = [] then Inl (Step_name_required w i)
      else if trim (ws_agent s) = [] then Inl (Step_agent_required w i (ws_name s))
      else validate_steps_from (Suc i) ss w)"

definition validate_workflow_steps :: "workflow_step list \<Rightarrow> string \<Rightarrow> recipe_error + unit" where
  "validate_workflow_steps steps w =
     (if steps = [] then Inl (No_steps w) else validate_steps_from 0 steps w)"

definition step_ok :: "workflow_step \<Rightarrow> bool" where
  "step_ok s = (trim (ws_name s) \<noteq> [] \<and> trim (ws_agent s) \<noteq> [])"

lemma validate_steps_from_ok: "validate_steps_from i ss w = Inr () \<longleftrightarrow> list_all step_ok ss"
  by (induction i ss w rule: validate_steps_from.induct) (auto simp: step_ok_def)

lemma validate_workflow_steps_ok:
  "validate_workflow_steps ss w = Inr u \<longleftrightarrow> ss \<noteq> [] \<and> list_all step_ok ss"
  by (auto simp: validate_workflow_steps_def validate_steps_from_ok)

lemma char_count_ascii: "list_all ident_char s \<Longrightarrow> char_count s = length s"
  by (induction s) (auto simp: char_count_def utf8_cont_def dest: ident_char_ascii)

text \<open>A name that passes has 1 to 60 characters, is unchanged by the sanitising that queue
  names and database names apply, and cannot leave a directory: it has no separator and no
  dot. Conversely every such name of letters, digits and underscores passes.\<close>

theorem validate_name_iff:
  "validate_name name = Inr () \<longleftrightarrow>
     1 \<le> length name \<and> length name \<le> 60 \<and> sanitize_chars name = name \<and>
     CHR ''/'' \<notin> set name \<and> CHR ''.'' \<notin> set name"
proof -
  have slash: "\<not> ident_char (CHR ''/'')" "\<not> ident_char (CHR ''.'')"
    by (simp_all add: ident_char_def is_ascii_alphanumeric_def is_digit_def)
  have "list_all ident_char name \<longleftrightarrow> sanitize_chars name = name"
    using sanitize_chars_id [of name] sanitize_chars_ident [of _ name]
    by (auto simp: list_all_iff)
  then show ?thesis
    using slash char_count_ascii [of name]
    by (cases name) (auto simp: validate_name_def list_all_iff)
qed

section \<open>Loading a linear workflow\<close>

definition template_dirs :: "string list" where
  "template_dirs = [''templates/workflows'', ''.janus/workflows'', ''workflows'']"

definition check_linear :: "workflow \<Rightarrow> string \<Rightarrow> recipe_error + workflow" where
  "check_linear w name =
     (case validate_workflow_steps (wf_steps w) name of
        Inl e \<Rightarrow> Inl e
      | Inr _ \<Rightarrow>
          if wf_name w \<noteq> name then Inl (Workflow_name_mismatch (wf_name w) name) else Inr w)"

definition load_workflow :: "toml_parsers \<Rightarrow> fs \<Rightarrow> string \<Rightarrow> string \<Rightarrow> recipe_error + workflow" where
  "load_workflow toml fs name root =
     (case List.find (file_exists fs) (map (workflow_path root name) template_dirs) of
        None \<Rightarrow> Inl (Workflow_not_found name)
      | Some path \<Rightarrow>
          (case read_to_string fs path of
             None \<Rightarrow> Inl (Read_failed path)
           | Some text \<Rightarrow>
               (case toml_workflow toml text of
                  None \<Rightarrow> Inl (Parse_failed path)
                | Some w \<Rightarrow> check_linear w name)))"

section \<open>DAG files with inline steps\<close>

definition inline_name :: "string \<Rightarrow> string" where
  "inline_name i = ''__inline_'' @ i"

definition inline_workflow :: "string \<Rightarrow> workflow_step list \<Rightarrow> workflow" where
  "inline_workflow i steps =
     \<lparr>wf_name = inline_name i,
      wf_description = Some (''Inline steps for DAG node '' @ [CHR 0x27] @ i @ [CHR 0x27]),
      wf_steps = steps\<rparr>"

definition node_of_def :: "dag_node_def \<Rightarrow> string \<Rightarrow> dag_node" where
  "node_of_def n w =
     \<lparr>dn_id = nd_id n, dn_workflow = w, dn_needs = nd_needs n, dn_isolation = nd_isolation n,
      dn_best_of_n = nd_best_of_n n, dn_writes = nd_writes n\<rparr>"

fun parse_dag_nodes :: "dag_node_def list \<Rightarrow> dag_node list \<Rightarrow> (string \<Rightarrow> workflow option) \<Rightarrow>
    recipe_error + (dag_node list \<times> (string \<Rightarrow> workflow option))" where
  "parse_dag_nodes [] nodes reg = Inr (nodes, reg)"
| "parse_dag_nodes (n # ns) nodes reg =
     (case (nd_workflow n, nd_steps n) of
        (Some w, None) \<Rightarrow>
          if trim w = [] then Inl (Node_workflow_empty (nd_id n))
          else parse_dag_nodes ns (nodes @ [node_of_def n w]) reg
      | (None, Some steps) \<Rightarrow>
          let syn = inline_name (nd_id n) in
          (case validate_workflow_steps steps syn of
             Inl e \<Rightarrow> Inl e
           | Inr _ \<Rightarrow>
               parse_dag_nodes ns (nodes @ [node_of_def n syn])
                 (reg(syn \<mapsto> inline_workflow (nd_id n) steps)))
      | (Some _, Some _) \<Rightarrow> Inl (Node_both (nd_id n))
      | (None, None) \<Rightarrow> Inl (Node_neither (nd_id n)))"

definition parse_dag_workflow :: "dag_workflow_file \<Rightarrow> (recipe_error + unified_workflow) option" where
  "parse_dag_workflow df =
     (case df_workflow df of
        None \<Rightarrow> Some (Inl Header_required)
      | Some (name, description) \<Rightarrow>
          (case parse_dag_nodes (df_nodes df) [] Map.empty of
             Inl e \<Rightarrow> Some (Inl e)
           | Inr (nodes, reg) \<Rightarrow>
               let config = \<lparr>dc_name = name, dc_description = description, dc_nodes = nodes\<rparr> in
               (case dag_validate config of
                  None \<Rightarrow> None
                | Some (Inl e) \<Rightarrow> Some (Inl (Dag_invalid e))
                | Some (Inr _) \<Rightarrow> Some (Inr (Dag_workflow config reg)))))"

definition load_linear_text :: "toml_parsers \<Rightarrow> string \<Rightarrow> string \<Rightarrow> string \<Rightarrow>
    recipe_error + unified_workflow" where
  "load_linear_text toml path name text =
     (case toml_workflow toml text of
        None \<Rightarrow> Inl (Parse_failed path)
      | Some w \<Rightarrow> (case check_linear w name of Inl e \<Rightarrow> Inl e | Inr w' \<Rightarrow> Inr (Linear w')))"

definition load_unified_text :: "toml_parsers \<Rightarrow> string \<Rightarrow> string \<Rightarrow> string \<Rightarrow>
    (recipe_error + unified_workflow) option" where
  "load_unified_text toml path name text =
     (case toml_dag toml text of
        None \<Rightarrow> Some (load_linear_text toml path name text)
      | Some df \<Rightarrow>
          if df_nodes df = [] then Some (load_linear_text toml path name text)
          else
            (case parse_dag_workflow df of
               None \<Rightarrow> None
             | Some (Inl e) \<Rightarrow> Some (Inl e)
             | Some (Inr (Linear w)) \<Rightarrow> Some (Inr (Linear w))
             | Some (Inr (Dag_workflow config reg)) \<Rightarrow>
                 if dc_name config \<noteq> name
                 then Some (Inl (Workflow_name_mismatch (dc_name config) name))
                 else Some (Inr (Dag_workflow config reg))))"

definition load_unified_workflow :: "toml_parsers \<Rightarrow> fs \<Rightarrow> string \<Rightarrow> string \<Rightarrow>
    (recipe_error + unified_workflow) option" where
  "load_unified_workflow toml fs name root =
     (case List.find (file_exists fs) (map (workflow_path root name) workflow_dirs) of
        None \<Rightarrow> Some (Inl (Workflow_not_found name))
      | Some path \<Rightarrow>
          (case read_to_string fs path of
             None \<Rightarrow> Some (Inl (Read_failed path))
           | Some text \<Rightarrow> load_unified_text toml path name text))"

section \<open>The recipe\<close>

definition recipe_path :: "string \<Rightarrow> string" where
  "recipe_path root = path_join root ''.janus/blueprint.toml''"

definition read_recipe :: "toml_parsers \<Rightarrow> fs \<Rightarrow> string \<Rightarrow> recipe_error + (string \<times> blueprint_recipe)" where
  "read_recipe toml fs root =
     (case read_to_string fs (recipe_path root) of
        None \<Rightarrow> Inl (Read_failed (recipe_path root))
      | Some text \<Rightarrow>
          (case toml_recipe toml text of
             None \<Rightarrow> Inl (Parse_failed (recipe_path root))
           | Some r \<Rightarrow> Inr (text, r)))"

definition read_blueprint_name :: "toml_parsers \<Rightarrow> fs \<Rightarrow> string \<Rightarrow> recipe_error + string" where
  "read_blueprint_name toml fs root =
     (case read_recipe toml fs root of Inl e \<Rightarrow> Inl e | Inr (_, r) \<Rightarrow> Inr (bs_name (br_blueprint r)))"

definition load_recipe :: "toml_parsers \<Rightarrow> fs \<Rightarrow> string \<Rightarrow> string \<Rightarrow> recipe_error + blueprint_recipe" where
  "load_recipe toml fs name root =
     (case validate_name name of
        Inl e \<Rightarrow> Inl e
      | Inr _ \<Rightarrow> (case read_recipe toml fs root of Inl e \<Rightarrow> Inl e | Inr (_, r) \<Rightarrow> Inr r))"

definition check_recipe :: "blueprint_recipe \<Rightarrow> string \<Rightarrow> recipe_error + unit" where
  "check_recipe r name =
     (if trim (bs_name (br_blueprint r)) = [] then Inl Blueprint_name_required
      else if trim (bs_default_workflow (br_blueprint r)) = [] then Inl Default_workflow_required
      else if br_openwiki_scope r = [] then Inl Scope_required
      else if bs_name (br_blueprint r) \<noteq> name
        then Inl (Blueprint_name_mismatch (bs_name (br_blueprint r)) name)
      else Inr ())"

definition bound_workflow :: "unified_workflow \<Rightarrow> workflow" where
  "bound_workflow u =
     (case u of
        Linear w \<Rightarrow> w
      | Dag_workflow c _ \<Rightarrow>
          \<lparr>wf_name = dc_name c, wf_description = dc_description c, wf_steps = []\<rparr>)"

definition recipe_validate :: "toml_parsers \<Rightarrow> fs \<Rightarrow> string \<Rightarrow> string \<Rightarrow>
    (recipe_error + validated_recipe) option" where
  "recipe_validate toml fs name root =
     (case validate_name name of
        Inl e \<Rightarrow> Some (Inl e)
      | Inr _ \<Rightarrow>
          (case read_recipe toml fs root of
             Inl e \<Rightarrow> Some (Inl e)
           | Inr (text, r) \<Rightarrow>
               (case check_recipe r name of
                  Inl e \<Rightarrow> Some (Inl e)
                | Inr _ \<Rightarrow>
                    (case load_unified_workflow toml fs (bs_default_workflow (br_blueprint r)) root of
                       None \<Rightarrow> None
                     | Some (Inl e) \<Rightarrow> Some (Inl e)
                     | Some (Inr u) \<Rightarrow>
                         Some (Inr
                           \<lparr>vr_name = bs_name (br_blueprint r),
                            vr_default_workflow = bs_default_workflow (br_blueprint r),
                            vr_remote_host = remote_host r,
                            vr_remote_user = Option.bind (br_remote r) rs_user,
                            vr_openwiki_scope = br_openwiki_scope r,
                            vr_config_text = text,
                            vr_workflow = bound_workflow u\<rparr>)))))"

section \<open>What a loaded workflow satisfies\<close>

lemma dag_validate_total: "dag_validate c \<noteq> None"
proof (cases "distinct (map dn_id (dc_nodes c))")
  case True
  then have "dag_plan c \<noteq> None" by (cases rule: dag_plan_cases) auto
  then show ?thesis by (auto simp: dag_validate_def Let_def split: option.splits sum.splits)
next
  case False
  then have "duplicate_id {} (dc_nodes c) \<noteq> None" by (simp add: duplicate_id_None del: not_None_eq)
  then show ?thesis by (auto simp: dag_validate_def Let_def)
qed

definition reg_add :: "dag_node_def \<Rightarrow> (string \<Rightarrow> workflow option) \<Rightarrow> (string \<Rightarrow> workflow option)" where
  "reg_add n reg =
     (case nd_steps n of
        None \<Rightarrow> reg
      | Some steps \<Rightarrow> reg(inline_name (nd_id n) \<mapsto> inline_workflow (nd_id n) steps))"

text \<open>How a node of the plan comes from its definition in the file.\<close>

definition node_matches :: "dag_node_def \<Rightarrow> dag_node \<Rightarrow> bool" where
  "node_matches n d =
     (d = node_of_def n (dn_workflow d) \<and>
      (case nd_steps n of
         None \<Rightarrow> nd_workflow n = Some (dn_workflow d) \<and> trim (dn_workflow d) \<noteq> []
       | Some steps \<Rightarrow> nd_workflow n = None \<and> dn_workflow d = inline_name (nd_id n) \<and>
           steps \<noteq> [] \<and> list_all step_ok steps))"

lemma parse_dag_nodes_ok:
  "parse_dag_nodes ns nodes reg = Inr (nodes', reg') \<Longrightarrow>
     reg' = fold reg_add ns reg \<and> (\<exists>added. nodes' = nodes @ added \<and> list_all2 node_matches ns added)"
proof (induction ns nodes reg rule: parse_dag_nodes.induct)
  case (2 n ns nodes reg)
  show ?case
  proof (cases "nd_steps n")
    case None
    with "2.prems" obtain w where w: "nd_workflow n = Some w" "trim w \<noteq> []"
      by (auto split: option.splits if_splits)
    with None "2.prems" have
        "parse_dag_nodes ns (nodes @ [node_of_def n w]) reg = Inr (nodes', reg')" by simp
    from "2.IH"(2) [OF refl w(1) None w(2) this] obtain added where
        "reg' = fold reg_add ns reg" "nodes' = (nodes @ [node_of_def n w]) @ added"
        "list_all2 node_matches ns added" by blast
    with None w show ?thesis
      by (intro conjI exI [of _ "node_of_def n w # added"])
         (simp_all add: reg_add_def [of n] node_matches_def [of n] node_of_def_def)
  next
    case (Some steps)
    let ?syn = "inline_name (nd_id n)"
    from Some "2.prems" have w: "nd_workflow n = None" and
        "\<exists>u. validate_workflow_steps steps ?syn = Inr u" and
        rec: "parse_dag_nodes ns (nodes @ [node_of_def n ?syn])
          (reg(?syn \<mapsto> inline_workflow (nd_id n) steps)) = Inr (nodes', reg')"
      by (auto simp: Let_def split: option.splits sum.splits)
    then obtain u where v: "validate_workflow_steps steps ?syn = Inr u" by blast
    from "2.IH"(1) [OF refl w Some refl v rec] obtain added where
        "reg' = fold reg_add ns (reg(?syn \<mapsto> inline_workflow (nd_id n) steps))"
        "nodes' = (nodes @ [node_of_def n ?syn]) @ added" "list_all2 node_matches ns added" by blast
    with Some w v show ?thesis
      by (intro conjI exI [of _ "node_of_def n ?syn # added"])
         (simp_all add: reg_add_def [of n] node_matches_def [of n] node_of_def_def
            validate_workflow_steps_ok)
  qed
qed simp

lemma inline_name_inject [simp]: "inline_name i = inline_name j \<longleftrightarrow> i = j"
  by (simp add: inline_name_def)

lemma fold_reg_add:
  "distinct (map nd_id ns) \<Longrightarrow> fold reg_add ns reg k =
     (case List.find (\<lambda>n. nd_steps n \<noteq> None \<and> inline_name (nd_id n) = k) ns of
        Some n \<Rightarrow> Some (inline_workflow (nd_id n) (the (nd_steps n))) | None \<Rightarrow> reg k)"
proof (induction ns arbitrary: reg)
  case (Cons n ns)
  have "List.find (\<lambda>m. nd_steps m \<noteq> None \<and> inline_name (nd_id m) = inline_name (nd_id n)) ns = None"
    using Cons.prems by (auto simp: find_None_iff dest: rev_image_eqI [where f = nd_id])
  with Cons show ?case by (auto simp: reg_add_def split: option.splits)
qed simp

lemma node_matches_id: "node_matches n d \<Longrightarrow> dn_id d = nd_id n"
  by (metis dag_node.select_convs(1) node_matches_def node_of_def_def)

lemma node_matches_ids: "list_all2 node_matches ns ds \<Longrightarrow> map dn_id ds = map nd_id ns"
  by (induction rule: list_all2_induct) (simp_all add: node_matches_id)

text \<open>A loaded workflow: a linear one has the requested name and at least one step, each with
  a name and an agent; a DAG one has the requested name and an acyclic configuration.\<close>

definition unified_ok :: "string \<Rightarrow> unified_workflow \<Rightarrow> bool" where
  "unified_ok name u =
     (case u of
        Linear w \<Rightarrow> wf_name w = name \<and> wf_steps w \<noteq> [] \<and> list_all step_ok (wf_steps w)
      | Dag_workflow c reg \<Rightarrow> dc_name c = name \<and> dag_wf c \<and>
          (\<forall>k w. reg k = Some w \<longrightarrow> wf_name w = k \<and> wf_steps w \<noteq> [] \<and> list_all step_ok (wf_steps w)))"

lemma dag_validate_wf: "dag_validate c = Some (Inr u) \<Longrightarrow> dag_wf c"
proof -
  assume v: "dag_validate c = Some (Inr u)"
  then have "dc_nodes c \<noteq> []" "distinct (map dn_id (dc_nodes c))"
    "\<forall>n \<in> set (dc_nodes c). set (dn_needs n) \<subseteq> dn_id ` set (dc_nodes c)"
    by (auto simp: dag_validate_def Let_def duplicate_id_None unknown_dependency_None
        split: if_splits option.splits prod.splits)
  note ok = this
  from ok(2) show "dag_wf c"
  proof (cases rule: dag_plan_cases)
    case (1 levels deg)
    with ok v show ?thesis by (simp add: dag_validate_cases)
  next
    case (2 levels deg plan)
    with ok dag_inv_acyclic [OF 2(1,2)] show ?thesis by (simp add: dag_wf_def)
  qed
qed

lemma parse_dag_workflow_ok:
  assumes "parse_dag_workflow df = Some (Inr u)"
  shows "\<exists>c reg d. u = Dag_workflow c reg \<and> df_workflow df = Some (dc_name c, d) \<and> dag_wf c \<and>
     list_all2 node_matches (df_nodes df) (dc_nodes c) \<and>
     reg = fold reg_add (df_nodes df) Map.empty \<and> distinct (map nd_id (df_nodes df))"
proof -
  from assms obtain name d nodes reg where h: "df_workflow df = Some (name, d)"
    and p: "parse_dag_nodes (df_nodes df) [] Map.empty = Inr (nodes, reg)"
    by (auto simp: parse_dag_workflow_def split: option.splits sum.splits)
  let ?c = "\<lparr>dc_name = name, dc_description = d, dc_nodes = nodes\<rparr>"
  from assms h p have v: "dag_validate ?c = Some (Inr ())" and u: "u = Dag_workflow ?c reg"
    by (auto simp: parse_dag_workflow_def Let_def split: option.splits sum.splits)
  from dag_validate_wf [OF v] have wf: "dag_wf ?c" .
  from parse_dag_nodes_ok [OF p] have m: "list_all2 node_matches (df_nodes df) nodes"
    and r: "reg = fold reg_add (df_nodes df) Map.empty" by auto
  from wf node_matches_ids [OF m] have "distinct (map nd_id (df_nodes df))"
    by (simp add: dag_wf_def)
  with h u wf m r show ?thesis by auto
qed

lemma reg_steps_ok:
  assumes "list_all2 node_matches ns ds" and "distinct (map nd_id ns)"
    and "fold reg_add ns Map.empty k = Some w"
  shows "wf_name w = k \<and> wf_steps w \<noteq> [] \<and> list_all step_ok (wf_steps w)"
proof -
  from assms(2,3) obtain n where "List.find (\<lambda>n. nd_steps n \<noteq> None \<and> inline_name (nd_id n) = k) ns = Some n"
    and w: "w = inline_workflow (nd_id n) (the (nd_steps n))"
    by (auto simp: fold_reg_add split: option.splits)
  from find_SomeD [OF this(1)] obtain steps where n: "n \<in> set ns" "nd_steps n = Some steps"
    and k: "inline_name (nd_id n) = k" by auto
  from assms(1) n(1) obtain d where "node_matches n d" by (metis list_all2_conv_all_nth in_set_conv_nth)
  with n k w show ?thesis by (simp add: node_matches_def inline_workflow_def)
qed

lemma check_linear_ok:
  "check_linear w name = Inr w' \<Longrightarrow> unified_ok name (Linear w')"
  by (auto simp: check_linear_def unified_ok_def validate_workflow_steps_ok split: sum.splits if_splits)

lemma load_linear_text_ok: "load_linear_text toml path name text = Inr u \<Longrightarrow> unified_ok name u"
  by (auto simp: load_linear_text_def dest: check_linear_ok split: option.splits sum.splits)

lemma load_unified_text_ok:
  assumes "load_unified_text toml path name text = Some (Inr u)"
  shows "unified_ok name u"
proof (cases "toml_dag toml text")
  case None
  with assms show ?thesis by (simp add: load_unified_text_def load_linear_text_ok)
next
  case (Some df)
  show ?thesis
  proof (cases "df_nodes df = []")
    case True
    with assms Some show ?thesis by (simp add: load_unified_text_def load_linear_text_ok)
  next
    case False
    with assms Some obtain u' where p: "parse_dag_workflow df = Some (Inr u')"
      by (auto simp: load_unified_text_def split: option.splits sum.splits)
    from parse_dag_workflow_ok [OF p] obtain c reg where c: "u' = Dag_workflow c reg" "dag_wf c"
        "list_all2 node_matches (df_nodes df) (dc_nodes c)"
        "reg = fold reg_add (df_nodes df) Map.empty" "distinct (map nd_id (df_nodes df))" by blast
    with assms Some False p have "u = u'" "dc_name c = name"
      by (auto simp: load_unified_text_def split: if_splits)
    with c reg_steps_ok [OF c(3,5)] show ?thesis by (auto simp: unified_ok_def)
  qed
qed

text \<open>C40: loading never panics, and what it returns is well formed and has the name that was
  asked for, whichever of the two formats the file is in; inline steps are registered under
  their synthetic names with the same checks as the steps of a file.\<close>

theorem load_unified_workflow_ok:
  "case load_unified_workflow toml fs name root of
     None \<Rightarrow> False
   | Some (Inl e) \<Rightarrow> True
   | Some (Inr u) \<Rightarrow> unified_ok name u"
proof -
  have total: "parse_dag_workflow df \<noteq> None" for df
    by (auto simp: parse_dag_workflow_def Let_def split: option.splits sum.splits
        elim!: dag_validate_total [THEN notE])
  then have "load_unified_text toml path name tx \<noteq> None" for path tx
    by (auto simp: load_unified_text_def split: option.splits sum.splits unified_workflow.splits
        elim!: total [THEN notE])
  then show ?thesis
    by (auto simp: load_unified_workflow_def dest: load_unified_text_ok split: option.splits sum.splits)
qed

text \<open>A DAG file that is accepted keeps its nodes in order with their needs and settings,
  and every node runs either the workflow it names or, from the register, exactly its own
  inline steps; a node never has both.\<close>

theorem parse_dag_workflow_nodes:
  assumes "parse_dag_workflow df = Some (Inr (Dag_workflow c reg))"
  shows "list_all2 node_matches (df_nodes df) (dc_nodes c) \<and> dag_wf c \<and>
     (\<forall>n \<in> set (df_nodes df). \<forall>steps. nd_steps n = Some steps \<longrightarrow>
        reg (inline_name (nd_id n)) = Some (inline_workflow (nd_id n) steps))"
proof -
  from parse_dag_workflow_ok [OF assms] have
      m: "list_all2 node_matches (df_nodes df) (dc_nodes c)" "dag_wf c"
    and r: "reg = fold reg_add (df_nodes df) Map.empty"
    and d: "distinct (map nd_id (df_nodes df))" by auto
  have "reg (inline_name (nd_id n)) = Some (inline_workflow (nd_id n) steps)"
    if n: "n \<in> set (df_nodes df)" "nd_steps n = Some steps" for n steps
  proof -
    let ?P = "\<lambda>m. nd_steps m \<noteq> None \<and> inline_name (nd_id m) = inline_name (nd_id n)"
    obtain m where f: "List.find ?P (df_nodes df) = Some m"
      using n by (cases "List.find ?P (df_nodes df)") (auto simp: find_None_iff)
    with find_SomeD [OF f] n d have "m = n" by (auto simp: distinct_map inj_on_def)
    with f n show ?thesis unfolding r fold_reg_add [OF d] by simp
  qed
  with m show ?thesis by blast
qed

definition sample_step :: "string \<Rightarrow> string option \<Rightarrow> workflow_step" where
  "sample_step name command = \<lparr>ws_name = name, ws_agent = ''agent'', ws_command = command,
     ws_host = None, ws_toolset = None, ws_max_correction_attempts = None, ws_isolation = None,
     ws_best_of_n = None, ws_writes = None\<rparr>"

definition sample_dag_file :: dag_workflow_file where
  "sample_dag_file = \<lparr>df_workflow = Some (''d'', None), df_nodes =
     [\<lparr>nd_id = ''a'', nd_needs = [], nd_workflow = None, nd_steps = Some [sample_step ''s'' None],
       nd_isolation = None, nd_best_of_n = None, nd_writes = None\<rparr>,
      \<lparr>nd_id = ''b'', nd_needs = [''a''], nd_workflow = Some ''w'', nd_steps = None,
       nd_isolation = None, nd_best_of_n = None, nd_writes = None\<rparr>]\<rparr>"

lemma parse_dag_workflow_nodes_witness:
  "\<exists>c reg. parse_dag_workflow sample_dag_file = Some (Inr (Dag_workflow c reg)) \<and>
     reg ''__inline_a'' = Some (inline_workflow ''a'' [sample_step ''s'' None])"
proof -
  have "case parse_dag_workflow sample_dag_file of Some (Inr (Dag_workflow c reg)) \<Rightarrow> True | _ \<Rightarrow> False"
    by code_simp
  then obtain c reg where p: "parse_dag_workflow sample_dag_file = Some (Inr (Dag_workflow c reg))"
    by (auto split: option.splits sum.splits unified_workflow.splits)
  from parse_dag_workflow_nodes [OF p] show ?thesis
    using p by (auto simp: sample_dag_file_def inline_name_def)
qed

end
