(* ===== verification/Overlay.thy ===== *)
theory Overlay
  imports Fallback Durable_Engine Recipe
begin

text \<open>
  The database layer, \<open>src/janus/src/absurd/mod.rs\<close>: the catalog, the per-blueprint overlay
  table \<open>metamach_step_meta\<close> that mirrors every step for the dashboard and the HITL flow, and
  the fallback ring that buffers transitions while a blueprint's database is unreachable.

  The state is \<open>AbsurdDb\<close> together with the Postgres server it talks to: which databases
  exist and answer, the rows of the overlay tables, the catalog and the audit log. Every SQL
  statement of the code is a function on these rows, with the trigger that stamps
  \<open>updated_at\<close> on updates. A statement on a database that does not answer fails, and so does one
  that stores a text that is too long for its column of the overlay; the widths of the
  catalog's columns, and that Postgres refuses a text with a NUL byte, are not modelled. The order in which hash maps are traversed is the order of first
  appearance; the collation of step names is a parameter of the server.
\<close>

section \<open>State\<close>

record meta_row =
  mr_task_id :: uuid
  mr_step_name :: string
  mr_blueprint_name :: string
  mr_workflow_name :: "string option"
  mr_status :: string
  mr_target_sha :: string
  mr_exit_code :: "i32 option"
  mr_stdout_tail :: "string option"
  mr_started_at :: "int option"
  mr_session_name :: "string option"
  mr_updated_at :: int
  mr_hitl_verdict :: "string option"
  mr_env_snapshot :: "json option"

record blueprint_row =
  bp_name :: string
  bp_status :: string
  bp_default_workflow :: string
  bp_config :: json
  bp_openwiki_scope :: json
  bp_remote_host :: "string option"
  bp_onboarded_at :: "int option"
  bp_offboarded_at :: "int option"

record audit_row =
  au_task_id :: uuid
  au_blueprint_name :: string
  au_step_count :: nat
  au_trace_summary :: json

record pg_server =
  ps_databases :: "string \<Rightarrow> meta_row list option"
  ps_answers :: "string \<Rightarrow> bool"
  ps_blueprints :: "blueprint_row list"
  ps_audit :: "audit_row list"
  ps_now :: int
  ps_collate :: "string \<Rightarrow> nat"

record absurd_db =
  ad_catalog :: bool
  ad_base_opts :: bool
  ad_pools :: "string list"
  ad_fallback :: fallback_db
  ad_server :: pg_server

type_synonym 'a db_op = "(string, absurd_db, 'a) io"

definition catalog_db :: string where
  "catalog_db = ''metamach_db''"

definition sanitize_ident :: "string \<Rightarrow> string" where
  "sanitize_ident name = sanitize_chars name"

definition blueprint_db :: "string \<Rightarrow> string" where
  "blueprint_db name = ''metamach_blueprint_'' @ sanitize_ident name"

definition NULL_SHA :: string where
  "NULL_SHA = replicate 40 CHR ''0''"

section \<open>Connections\<close>

definition open_degraded :: "fallback_db \<Rightarrow> pg_server \<Rightarrow> absurd_db" where
  "open_degraded fb srv =
     \<lparr>ad_catalog = False, ad_base_opts = False, ad_pools = [], ad_fallback = fb, ad_server = srv\<rparr>"

definition pg_online :: "absurd_db \<Rightarrow> bool" where
  "pg_online d = ad_catalog d"

text \<open>A statement on the catalog or on the overlay of a database.\<close>

definition on_catalog :: "(pg_server \<Rightarrow> 'a \<times> pg_server) \<Rightarrow> 'a db_op" where
  "on_catalog f d =
     (if ps_answers (ad_server d) catalog_db then
        (let (x, srv) = f (ad_server d) in Some (Inr x, d\<lparr>ad_server := srv\<rparr>))
      else Some (Inl ''catalog statement failed'', d))"

definition on_overlay :: "string \<Rightarrow> (int \<Rightarrow> meta_row list \<Rightarrow> 'a \<times> meta_row list) \<Rightarrow> 'a db_op" where
  "on_overlay dbn f d =
     (let srv = ad_server d in
      case ps_databases srv dbn of
        Some rows \<Rightarrow>
          if ps_answers srv dbn then
            (let (x, rows') = f (ps_now srv) rows in
             Some (Inr x, d\<lparr>ad_server := srv\<lparr>ps_databases := (ps_databases srv)(dbn \<mapsto> rows')\<rparr>\<rparr>))
          else Some (Inl ''overlay statement failed'', d)
      | None \<Rightarrow> Some (Inl ''overlay statement failed'', d))"

definition can_connect :: "pg_server \<Rightarrow> string \<Rightarrow> bool" where
  "can_connect srv dbn = (ps_databases srv dbn \<noteq> None \<and> ps_answers srv dbn)"

definition add_pool :: "string \<Rightarrow> absurd_db \<Rightarrow> absurd_db" where
  "add_pool name d = d\<lparr>ad_pools := List.insert name (ad_pools d)\<rparr>"

text \<open>The pool of a blueprint is the name of its database; \<open>None\<close> says that it cannot be
  reached. A failing existence query counts as absent.\<close>

definition blueprint_pool :: "string \<Rightarrow> string option db_op" where
  "blueprint_pool name d =
     (let dbn = blueprint_db name; srv = ad_server d in
      if name \<in> set (ad_pools d) then Some (Inr (Some dbn), d)
      else if \<not> ad_base_opts d then Some (Inr None, d)
      else if ad_catalog d \<and> \<not> (ps_answers srv catalog_db \<and> ps_databases srv dbn \<noteq> None)
        then Some (Inr None, d)
      else if can_connect srv dbn then Some (Inr (Some dbn), add_pool name d)
      else Some (Inr None, d))"

definition ensure_blueprint_db :: "string \<Rightarrow> unit db_op" where
  "ensure_blueprint_db name d =
     (let dbn = blueprint_db name; srv = ad_server d in
      if name \<in> set (ad_pools d) then Some (Inr (), d)
      else if \<not> ad_catalog d then Some (Inl ''catalog DB offline'', d)
      else if \<not> ps_answers srv catalog_db then Some (Inl ''catalog statement failed'', d)
      else
        (let dbs = ps_databases srv;
             dbs' = (if dbs dbn = None then dbs(dbn \<mapsto> []) else dbs);
             d' = d\<lparr>ad_server := srv\<lparr>ps_databases := dbs'\<rparr>\<rparr> in
         if \<not> ad_base_opts d then Some (Inl ''base_opts not set'', d')
         else if \<not> ps_answers srv dbn then Some (Inl ''blueprint DB connect failed'', d')
         else Some (Inr (), add_pool name d')))"

section \<open>The fallback ring\<close>

definition record_fallback_event :: "string \<Rightarrow> uuid \<Rightarrow> string \<Rightarrow> string \<Rightarrow> string option \<Rightarrow> unit db_op" where
  "record_fallback_event blueprint task_id step status cache =
     modify (\<lambda>d. d\<lparr>ad_fallback := fallback_record task_id blueprint step status cache (ad_fallback d)\<rparr>)"

definition fallback_depth :: "nat db_op" where
  "fallback_depth = gets (\<lambda>d. fallback_count (ad_fallback d))"

section \<open>Step rows\<close>

definition row_key :: "uuid \<Rightarrow> string \<Rightarrow> meta_row \<Rightarrow> bool" where
  "row_key t s r = (mr_task_id r = t \<and> mr_step_name r = s)"

text \<open>\<open>UPDATE .. WHERE task_id = $1 AND step_name = $2\<close>, with the trigger.\<close>

definition update_rows :: "(meta_row \<Rightarrow> bool) \<Rightarrow> (meta_row \<Rightarrow> meta_row) \<Rightarrow> int \<Rightarrow> meta_row list \<Rightarrow>
    meta_row list" where
  "update_rows P f now rows = map (\<lambda>r. if P r then (f r)\<lparr>mr_updated_at := now\<rparr> else r) rows"

text \<open>\<open>INSERT .. ON CONFLICT (task_id, step_name) DO UPDATE\<close>.\<close>

definition upsert_row :: "meta_row \<Rightarrow> (meta_row \<Rightarrow> meta_row) \<Rightarrow> int \<Rightarrow> meta_row list \<Rightarrow> meta_row list" where
  "upsert_row new f now rows =
     (if list_ex (row_key (mr_task_id new) (mr_step_name new)) rows
      then update_rows (row_key (mr_task_id new) (mr_step_name new)) f now rows
      else rows @ [new])"

definition blank_row :: "uuid \<Rightarrow> string \<Rightarrow> string \<Rightarrow> string \<Rightarrow> int \<Rightarrow> meta_row" where
  "blank_row t s blueprint status now =
     \<lparr>mr_task_id = t, mr_step_name = s, mr_blueprint_name = blueprint, mr_workflow_name = None,
      mr_status = status, mr_target_sha = NULL_SHA, mr_exit_code = None, mr_stdout_tail = None,
      mr_started_at = None, mr_session_name = None, mr_updated_at = now, mr_hitl_verdict = None,
      mr_env_snapshot = None\<rparr>"

text \<open>A text is stored in a \<open>VARCHAR(n)\<close> column: one of more than \<open>n\<close> characters is refused, unless the
  excess is spaces, which are cut.\<close>

fun take_chars :: "nat \<Rightarrow> string \<Rightarrow> string \<times> string" where
  "take_chars n [] = ([], [])"
| "take_chars n (c # s) =
     (if n = 0 \<and> \<not> utf8_cont c then ([], c # s)
      else (let (kept, rest) = take_chars (if utf8_cont c then n else n - 1) s in (c # kept, rest)))"

definition varchar :: "nat \<Rightarrow> string \<Rightarrow> string option" where
  "varchar n s =
     (let (kept, rest) = take_chars n s in if list_all (\<lambda>c. c = CHR '' '') rest then Some kept else None)"

definition column :: "nat \<Rightarrow> string \<Rightarrow> string db_op" where
  "column n s = (case varchar n s of Some v \<Rightarrow> ret v | None \<Rightarrow> fail ''overlay statement failed'')"

definition with_pool :: "string \<Rightarrow> (string \<Rightarrow> 'a db_op) \<Rightarrow> 'a db_op \<Rightarrow> 'a db_op" where
  "with_pool blueprint f g =
     bindE (blueprint_pool blueprint) (\<lambda>p. case p of Some dbn \<Rightarrow> f dbn | None \<Rightarrow> g)"

definition update_step :: "uuid \<Rightarrow> string \<Rightarrow> (int \<Rightarrow> meta_row \<Rightarrow> meta_row) \<Rightarrow> string \<Rightarrow> unit db_op" where
  "update_step t s f dbn = on_overlay dbn (\<lambda>now rows. ((), update_rows (row_key t s) (f now) now rows))"

definition suspend_step :: "string \<Rightarrow> uuid \<Rightarrow> string \<Rightarrow> string \<Rightarrow> unit db_op" where
  "suspend_step blueprint t s reason =
     with_pool blueprint
       (update_step t s (\<lambda>_ r. r\<lparr>mr_status := ''SUSPENDED''\<rparr>))
       (record_fallback_event blueprint t s ''SUSPENDED'' None)"

definition record_hitl_resolution :: "string \<Rightarrow> uuid \<Rightarrow> string \<Rightarrow> string \<Rightarrow> unit db_op" where
  "record_hitl_resolution blueprint t s verdict =
     with_pool blueprint
       (\<lambda>dbn. bindE (column 32 verdict) (\<lambda>v.
          update_step t s (\<lambda>_ r. r\<lparr>mr_hitl_verdict := Some v\<rparr>) dbn))
       (record_fallback_event blueprint t s verdict None)"

definition upsert_step_start :: "string \<Rightarrow> uuid \<Rightarrow> string \<Rightarrow> string \<Rightarrow> string \<Rightarrow> string \<Rightarrow> json \<Rightarrow>
    unit db_op" where
  "upsert_step_start blueprint t s workflow_name target_sha session_name env_snapshot =
     with_pool blueprint
       (\<lambda>dbn. bindE (column 100 s) (\<lambda>name. bindE (column 100 blueprint) (\<lambda>bp.
          bindE (column 100 workflow_name) (\<lambda>workflow. bindE (column 64 target_sha) (\<lambda>sha.
          bindE (column 100 session_name) (\<lambda>session. on_overlay dbn (\<lambda>now rows. ((),
          upsert_row
            ((blank_row t name bp ''STARTING'' now)\<lparr>mr_workflow_name := Some workflow,
               mr_target_sha := sha, mr_session_name := Some session,
               mr_env_snapshot := Some env_snapshot\<rparr>)
            (\<lambda>r. r\<lparr>mr_status := ''STARTING'', mr_workflow_name := Some workflow,
               mr_target_sha := sha, mr_session_name := Some session,
               mr_env_snapshot := Some env_snapshot, mr_exit_code := None, mr_started_at := None\<rparr>)
            now rows))))))))
       (record_fallback_event blueprint t s ''STARTING'' None)"

definition set_step_running :: "string \<Rightarrow> uuid \<Rightarrow> string \<Rightarrow> unit db_op" where
  "set_step_running blueprint t s =
     with_pool blueprint
       (update_step t s (\<lambda>now r. r\<lparr>mr_status := ''RUNNING'', mr_started_at := Some now\<rparr>))
       (record_fallback_event blueprint t s ''RUNNING'' None)"

definition finalize_step :: "string \<Rightarrow> uuid \<Rightarrow> string \<Rightarrow> string \<Rightarrow> i32 option \<Rightarrow> string option \<Rightarrow>
    unit db_op" where
  "finalize_step blueprint t s status exit_code stdout_tail =
     with_pool blueprint
       (\<lambda>dbn. bindE (column 20 status) (\<lambda>st. update_step t s (\<lambda>_ r. r\<lparr>mr_status := st,
          mr_exit_code := exit_code, mr_stdout_tail := stdout_tail\<rparr>) dbn))
       (record_fallback_event blueprint t s status stdout_tail)"

definition select_step :: "(meta_row \<Rightarrow> 'a) \<Rightarrow> uuid \<Rightarrow> string \<Rightarrow> string \<Rightarrow> 'a option db_op" where
  "select_step f t s dbn = on_overlay dbn (\<lambda>now rows. (map_option f (List.find (row_key t s) rows), rows))"

definition step_status_of :: "string \<Rightarrow> uuid \<Rightarrow> string \<Rightarrow> string option db_op" where
  "step_status_of blueprint t s = with_pool blueprint (select_step mr_status t s) (ret None)"

definition flatten :: "'a option option \<Rightarrow> 'a option" where
  "flatten x = (case x of Some (Some y) \<Rightarrow> Some y | _ \<Rightarrow> None)"

definition hitl_verdict :: "string \<Rightarrow> uuid \<Rightarrow> string \<Rightarrow> string option db_op" where
  "hitl_verdict blueprint t s =
     bindE (with_pool blueprint (select_step mr_hitl_verdict t s) (ret None)) (\<lambda>v. ret (flatten v))"

definition step_workflow_name :: "string \<Rightarrow> uuid \<Rightarrow> string \<Rightarrow> string option db_op" where
  "step_workflow_name blueprint t s =
     bindE (with_pool blueprint (select_step mr_workflow_name t s) (ret None)) (\<lambda>v. ret (flatten v))"

text \<open>What the columns make of an event.\<close>

definition storable :: "fallback_event \<Rightarrow> fallback_event option" where
  "storable ev =
     Option.bind (varchar 100 (fv_step_name ev)) (\<lambda>s.
     Option.bind (varchar 100 (fv_blueprint_name ev)) (\<lambda>b.
     map_option (\<lambda>st. ev\<lparr>fv_step_name := s, fv_blueprint_name := b, fv_status := st\<rparr>)
       (varchar 20 (fv_status ev))))"

text \<open>Log replay. Every event is merged or dropped; \<open>parse_uuid\<close> is the UUID crate's parser.\<close>

definition replay_event :: "(string \<Rightarrow> uuid option) \<Rightarrow> fallback_event \<Rightarrow> nat \<Rightarrow> nat db_op" where
  "replay_event parse_uuid ev n =
     (case parse_uuid (fv_task_id ev) of
        None \<Rightarrow> ret n
      | Some t \<Rightarrow>
          bindE (attempt (ensure_blueprint_db (fv_blueprint_name ev))) (\<lambda>r.
            case r of
              Inl _ \<Rightarrow> ret n
            | Inr _ \<Rightarrow>
                bindE (blueprint_pool (fv_blueprint_name ev)) (\<lambda>p.
                  case p of
                    None \<Rightarrow> ret n
                  | Some dbn \<Rightarrow>
                      bindE (attempt (case storable ev of
                          None \<Rightarrow> fail ''overlay statement failed''
                        | Some e \<Rightarrow> on_overlay dbn (\<lambda>now rows. ((),
                            upsert_row (blank_row t (fv_step_name e) (fv_blueprint_name e) (fv_status e) now)
                              (\<lambda>r. r\<lparr>mr_status := fv_status e\<rparr>) now rows))))
                        (\<lambda>q. case q of Inl _ \<Rightarrow> ret n | Inr _ \<Rightarrow> ret (n + 1)))))"

fun replay_events :: "(string \<Rightarrow> uuid option) \<Rightarrow> fallback_event list \<Rightarrow> nat \<Rightarrow> nat db_op" where
  "replay_events parse_uuid [] n = ret n"
| "replay_events parse_uuid (ev # evs) n =
     bindE (replay_event parse_uuid ev n) (replay_events parse_uuid evs)"

definition replay_fallback :: "(string \<Rightarrow> uuid option) \<Rightarrow> nat db_op" where
  "replay_fallback parse_uuid =
     bindE (gets (\<lambda>d. fst (fallback_drain (ad_fallback d)))) (\<lambda>evs.
       bindE (modify (\<lambda>d. d\<lparr>ad_fallback := snd (fallback_drain (ad_fallback d))\<rparr>)) (\<lambda>_.
         replay_events parse_uuid evs 0))"

text \<open>The connect task: \<open>outcomes\<close> says for each of the five attempts whether it succeeds; the
  first success stores the catalog pool and replays the ring, errors of which are logged.\<close>

definition PG_RETRY_ATTEMPTS :: nat where
  "PG_RETRY_ATTEMPTS = 5"

definition spawn_connect :: "(string \<Rightarrow> uuid option) \<Rightarrow> (nat \<Rightarrow> bool) \<Rightarrow> unit db_op" where
  "spawn_connect parse_uuid outcomes =
     bindE (modify (\<lambda>d. d\<lparr>ad_base_opts := True\<rparr>)) (\<lambda>_.
       if list_ex outcomes [1..<Suc PG_RETRY_ATTEMPTS] then
         bindE (modify (\<lambda>d. d\<lparr>ad_catalog := True\<rparr>)) (\<lambda>_.
           bindE (attempt (replay_fallback parse_uuid)) (\<lambda>_. ret ()))
       else ret ())"

section \<open>The catalog\<close>

definition blueprint_row_info :: "blueprint_row \<Rightarrow> blueprint_info" where
  "blueprint_row_info r =
     \<lparr>bi_name = bp_name r, bi_default_workflow = bp_default_workflow r,
      bi_remote_host = bp_remote_host r, bi_status = bp_status r\<rparr>"

definition active_blueprints :: "blueprint_info list db_op" where
  "active_blueprints d =
     (if \<not> ad_catalog d then Some (Inr [], d)
      else on_catalog (\<lambda>srv. (map blueprint_row_info
        (sort_key (\<lambda>r. ps_collate srv (bp_name r))
          (filter (\<lambda>r. bp_status r = ''ACTIVE'') (ps_blueprints srv))), srv)) d)"

definition register_blueprint :: "validated_recipe \<Rightarrow> bool db_op" where
  "register_blueprint recipe d =
     (if \<not> ad_catalog d then Some (Inl ''pg offline'', d)
      else on_catalog (\<lambda>srv.
        let exists = list_ex (\<lambda>r. bp_name r = vr_name recipe) (ps_blueprints srv);
            fill = (\<lambda>r. r\<lparr>bp_status := ''ACTIVE'', bp_default_workflow := vr_default_workflow recipe,
              bp_config := JStr (vr_config_text recipe),
              bp_openwiki_scope := JArr (map JStr (vr_openwiki_scope recipe)),
              bp_remote_host := vr_remote_host recipe, bp_onboarded_at := Some (ps_now srv),
              bp_offboarded_at := None\<rparr>);
            new = fill \<lparr>bp_name = vr_name recipe, bp_status = [], bp_default_workflow = [],
              bp_config = JNull, bp_openwiki_scope = JNull, bp_remote_host = None,
              bp_onboarded_at = None, bp_offboarded_at = None\<rparr> in
        (exists,
         srv\<lparr>ps_blueprints :=
           if exists then map (\<lambda>r. if bp_name r = vr_name recipe then fill r else r) (ps_blueprints srv)
           else ps_blueprints srv @ [new]\<rparr>)) d)"

definition set_blueprint_offboarded :: "string \<Rightarrow> unit db_op" where
  "set_blueprint_offboarded name d =
     (if \<not> ad_catalog d then Some (Inl ''pg offline'', d)
      else on_catalog (\<lambda>srv. ((), srv\<lparr>ps_blueprints :=
        map (\<lambda>r. if bp_name r = name
          then r\<lparr>bp_status := ''OFFBOARDED'', bp_offboarded_at := Some (ps_now srv)\<rparr> else r)
          (ps_blueprints srv)\<rparr>)) d)"

definition insert_audit :: "audit_row \<Rightarrow> unit db_op" where
  "insert_audit a = on_catalog (\<lambda>srv. ((), srv\<lparr>ps_audit := ps_audit srv @ [a]\<rparr>))"

definition offboard_blueprint_data :: "string \<Rightarrow> nat db_op" where
  "offboard_blueprint_data name d =
     (if \<not> ad_catalog d then Some (Inl ''catalog DB offline'', d)
      else
        bindE (with_pool name
          (\<lambda>dbn. on_overlay dbn (\<lambda>now rows.
             (length (filter (\<lambda>r. mr_blueprint_name r = name) rows),
              filter (\<lambda>r. mr_blueprint_name r \<noteq> name) rows)))
          (ret 0))
        (\<lambda>purged. bindE (insert_audit \<lparr>au_task_id = 0, au_blueprint_name = name, au_step_count = purged,
            au_trace_summary = JObj [(''purged_overlay_rows'', JInt (int purged))]\<rparr>)
          (\<lambda>_. ret purged)) d)"

section \<open>Reports\<close>

record step_trace =
  st_task_id :: uuid
  st_step_name :: string
  st_status :: string
  st_result_cache :: "string option"

definition scan_offboard_traces :: "string \<Rightarrow> nat \<Rightarrow> step_trace list db_op" where
  "scan_offboard_traces name limit =
     with_pool name
       (\<lambda>dbn. on_overlay dbn (\<lambda>now rows.
          (map (\<lambda>r. \<lparr>st_task_id = mr_task_id r, st_step_name = mr_step_name r, st_status = mr_status r,
               st_result_cache = Some (case mr_stdout_tail r of None \<Rightarrow> [] | Some s \<Rightarrow> s)\<rparr>)
             (take limit (sort_key (\<lambda>r. - mr_updated_at r) (filter (\<lambda>r. mr_blueprint_name r = name) rows))),
           rows)))
       (fail ''blueprint DB unreachable'')"

text \<open>The task status that the rows of a task stand for.\<close>

definition derive_task_status :: "meta_row list \<Rightarrow> string" where
  "derive_task_status steps =
     (if list_ex (\<lambda>r. mr_status r = ''SUSPENDED'') steps then ''SUSPENDED''
      else if list_ex (\<lambda>r. mr_status r = ''RUNNING'') steps then ''RUNNING''
      else if list_ex (\<lambda>r. mr_status r = ''STARTING'') steps then ''STARTING''
      else ''COMPLETED'')"

definition step_active :: "meta_row \<Rightarrow> bool" where
  "step_active r = (mr_status r = ''STARTING'' \<or> mr_status r = ''RUNNING'')"

definition min_started :: "meta_row list \<Rightarrow> int option" where
  "min_started steps =
     (case List.map_filter mr_started_at steps of [] \<Rightarrow> None | s # ss \<Rightarrow> Some (fold min ss s))"

definition task_report :: "(int \<Rightarrow> string) \<Rightarrow> int \<Rightarrow> string \<Rightarrow> uuid \<Rightarrow> meta_row list \<Rightarrow> active_task" where
  "task_report rfc3339 now name task_id steps =
     (let status = derive_task_status steps;
          current = List.find step_active (rev steps);
          started = min_started steps in
      \<lparr>at_task_id = task_id,
       at_blueprint_id = (case steps of s # _ \<Rightarrow> mr_blueprint_name s | [] \<Rightarrow> name),
       at_workflow_name = (case steps of s # _ \<Rightarrow>
          (case mr_workflow_name s of Some w \<Rightarrow> w | None \<Rightarrow> []) | [] \<Rightarrow> []),
       at_status = status,
       at_started_at = map_option rfc3339 started,
       at_elapsed_seconds = map_option (\<lambda>s. max 0 (now - s)) started,
       at_current_step = map_option mr_step_name current,
       at_tmux_alive = False,
       at_session_name = Option.bind current mr_session_name,
       at_suspended_reason = (if status = ''SUSPENDED'' then Some ''awaiting HITL'' else None),
       at_steps = map (\<lambda>r. \<lparr>ss_name = mr_step_name r, ss_status = mr_status r,
          ss_exit_code = mr_exit_code r, ss_stdout_tail = map_option truncate_16k (mr_stdout_tail r)\<rparr>) steps\<rparr>)"

definition live_row :: "meta_row \<Rightarrow> bool" where
  "live_row r = (mr_status r \<in> {''STARTING'', ''RUNNING'', ''SUSPENDED''})"

definition progress_rows :: "pg_server \<Rightarrow> meta_row list \<Rightarrow> meta_row list" where
  "progress_rows srv rows =
     sort_key (\<lambda>r. uint (mr_task_id r)) (sort_key (\<lambda>r. ps_collate srv (mr_step_name r)) (filter live_row rows))"

text \<open>The report of one blueprint; whatever fails there reports nothing.\<close>

definition blueprint_progress :: "(int \<Rightarrow> string) \<Rightarrow> string \<Rightarrow> active_task list db_op" where
  "blueprint_progress rfc3339 name d =
     (case blueprint_pool name d of
        Some (Inr (Some dbn), d') \<Rightarrow>
          (case on_overlay dbn (\<lambda>now rows. (progress_rows (ad_server d') rows, rows)) d' of
             Some (Inr rows, d'') \<Rightarrow>
               Some (Inr (map (\<lambda>t. task_report rfc3339 (ps_now (ad_server d'')) name t
                   (filter (\<lambda>r. mr_task_id r = t) rows)) (remdups (map mr_task_id rows))), d'')
           | Some (Inl _, d'') \<Rightarrow> Some (Inr [], d'')
           | None \<Rightarrow> None)
      | Some (_, d') \<Rightarrow> Some (Inr [], d')
      | None \<Rightarrow> None)"

fun progress_all :: "(int \<Rightarrow> string) \<Rightarrow> string list \<Rightarrow> active_task list db_op" where
  "progress_all rfc3339 [] = ret []"
| "progress_all rfc3339 (n # ns) =
     bindE (blueprint_progress rfc3339 n) (\<lambda>ts. bindE (progress_all rfc3339 ns) (\<lambda>us. ret (ts @ us)))"

definition progress_report :: "(int \<Rightarrow> string) \<Rightarrow> string option \<Rightarrow> active_task list db_op" where
  "progress_report rfc3339 blueprint =
     bindE
       (case blueprint of
          Some n \<Rightarrow> ret [n]
        | None \<Rightarrow>
            bindE (gets ad_pools) (\<lambda>cached.
              if cached \<noteq> [] then ret cached
              else bindE active_blueprints (\<lambda>bs. ret (map bi_name bs))))
       (progress_all rfc3339)"

record cold_start_task =
  cs_task_id :: uuid
  cs_blueprint :: string
  cs_workflow_name :: string
  cs_status :: string
  cs_last_completed_step :: "string option"

definition status_rank :: "string \<Rightarrow> nat" where
  "status_rank s =
     (if s = ''SUSPENDED'' then 0 else if s = ''RUNNING'' then 1
      else if s = ''STARTING'' then 2 else if s = ''STOPPED'' then 3 else 4)"

definition resumable_row :: "meta_row \<Rightarrow> bool" where
  "resumable_row r = (mr_status r \<in> {''STARTING'', ''RUNNING'', ''SUSPENDED'', ''STOPPED''})"

definition last_completed :: "meta_row list \<Rightarrow> uuid \<Rightarrow> string option" where
  "last_completed rows t =
     (case sort_key (\<lambda>r. - mr_updated_at r)
        (filter (\<lambda>r. mr_task_id r = t \<and> mr_status r = ''COMPLETED'') rows) of
        [] \<Rightarrow> None | r # _ \<Rightarrow> Some (mr_step_name r))"

definition cold_start_rows :: "meta_row list \<Rightarrow> cold_start_task list" where
  "cold_start_rows rows =
     (let ms = sort_key (\<lambda>r. uint (mr_task_id r)) (sort_key (\<lambda>r. status_rank (mr_status r))
          (filter resumable_row rows)) in
      map (\<lambda>t. let r = hd (filter (\<lambda>r. mr_task_id r = t) ms) in
          \<lparr>cs_task_id = t, cs_blueprint = mr_blueprint_name r,
           cs_workflow_name = (case mr_workflow_name r of Some w \<Rightarrow> w | None \<Rightarrow> []),
           cs_status = mr_status r, cs_last_completed_step = last_completed rows t\<rparr>)
        (remdups (map mr_task_id ms)))"

fun cold_start_all :: "string list \<Rightarrow> cold_start_task list db_op" where
  "cold_start_all [] = ret []"
| "cold_start_all (n # ns) =
     bindE (with_pool n (\<lambda>dbn. on_overlay dbn (\<lambda>now rows. (cold_start_rows rows, rows))) (ret []))
       (\<lambda>ts. bindE (cold_start_all ns) (\<lambda>us. ret (ts @ us)))"

definition cold_start_running_tasks :: "string option \<Rightarrow> cold_start_task list db_op" where
  "cold_start_running_tasks blueprint =
     bindE (case blueprint of
         Some n \<Rightarrow> ret [n]
       | None \<Rightarrow> bindE active_blueprints (\<lambda>bs. ret (map bi_name bs)))
       cold_start_all"

definition stale_cache :: "int \<Rightarrow> meta_row \<Rightarrow> bool" where
  "stale_cache now r =
     (mr_status r \<in> {''COMPLETED'', ''FAILED''} \<and> mr_stdout_tail r \<noteq> None \<and>
      mr_updated_at r < now - 3 * 86400)"

fun gc_all :: "string list \<Rightarrow> nat db_op" where
  "gc_all [] = ret 0"
| "gc_all (n # ns) =
     bindE (with_pool n
       (\<lambda>dbn. on_overlay dbn (\<lambda>now rows. (length (filter (stale_cache now) rows),
          update_rows (stale_cache now) (\<lambda>r. r\<lparr>mr_stdout_tail := None\<rparr>) now rows)))
       (ret 0))
     (\<lambda>a. bindE (gc_all ns) (\<lambda>b. ret (a + b)))"

definition gc_old_caches :: "nat db_op" where
  "gc_old_caches = bindE active_blueprints (\<lambda>bs. gc_all (map bi_name bs))"

section \<open>Reachable blueprints\<close>

definition reachable :: "absurd_db \<Rightarrow> string \<Rightarrow> bool" where
  "reachable d b =
     (can_connect (ad_server d) (blueprint_db b) \<and>
      (b \<in> set (ad_pools d) \<or>
       (ad_base_opts d \<and> (ad_catalog d \<longrightarrow> ps_answers (ad_server d) catalog_db))))"

definition pooled :: "string \<Rightarrow> absurd_db \<Rightarrow> absurd_db" where
  "pooled b d = (if b \<in> set (ad_pools d) then d else add_pool b d)"

definition table :: "absurd_db \<Rightarrow> string \<Rightarrow> meta_row list" where
  "table d b = the (ps_databases (ad_server d) (blueprint_db b))"

definition set_table :: "string \<Rightarrow> meta_row list \<Rightarrow> absurd_db \<Rightarrow> absurd_db" where
  "set_table b rows d =
     d\<lparr>ad_server := (ad_server d)\<lparr>ps_databases := (ps_databases (ad_server d))(blueprint_db b \<mapsto> rows)\<rparr>\<rparr>"

definition row_at :: "absurd_db \<Rightarrow> string \<Rightarrow> uuid \<Rightarrow> string \<Rightarrow> meta_row option" where
  "row_at d b t s = List.find (row_key t s) (table d b)"

lemma blueprint_pool_reachable: "reachable d b \<Longrightarrow> blueprint_pool b d = Some (Inr (Some (blueprint_db b)), pooled b d)"
  by (auto simp: blueprint_pool_def reachable_def pooled_def can_connect_def Let_def)

lemma with_pool_reachable: "reachable d b \<Longrightarrow> with_pool b f g d = f (blueprint_db b) (pooled b d)"
  by (simp add: with_pool_def bindE_Inr [OF blueprint_pool_reachable])

lemma with_pool_unreachable: "blueprint_pool b d = Some (Inr None, d') \<Longrightarrow> with_pool b f g d = g d'"
  by (simp add: with_pool_def bindE_Inr)

lemma pooled_server [simp]: "ad_server (pooled b d) = ad_server d" "ad_fallback (pooled b d) = ad_fallback d"
    "ad_catalog (pooled b d) = ad_catalog d" "ad_base_opts (pooled b d) = ad_base_opts d"
  by (simp_all add: pooled_def add_pool_def)

lemma table_pooled [simp]: "table (pooled b d) c = table d c" "row_at (pooled b d) c t s = row_at d c t s"
  by (simp_all add: table_def row_at_def)

lemma reachable_pooled [simp]: "reachable d b \<Longrightarrow> reachable (pooled c d) b"
  by (auto simp: reachable_def pooled_def add_pool_def)

lemma reachable_set_table [simp]: "reachable d b \<Longrightarrow> reachable (set_table c rows d) b"
  by (auto simp: reachable_def set_table_def can_connect_def)

lemma table_set_table [simp]: "table (set_table b rows d) b = rows"
  by (simp add: table_def set_table_def)

lemma on_overlay_reachable:
  "reachable d b \<Longrightarrow> on_overlay (blueprint_db b) f d =
     (let (x, rows) = f (ps_now (ad_server d)) (table d b) in Some (Inr x, set_table b rows d))"
  by (auto simp: on_overlay_def reachable_def can_connect_def table_def set_table_def Let_def
      split: prod.splits)

lemmas reachable_simps = with_pool_reachable on_overlay_reachable update_step_def select_step_def

section \<open>Rows\<close>

lemma find_update_rows:
  assumes "\<And>r. row_key t s (f r) = row_key t s r"
  shows "List.find (row_key t s) (update_rows (row_key t' s') f now rows) =
    (case List.find (row_key t s) rows of None \<Rightarrow> None
     | Some r \<Rightarrow> Some (if t = t' \<and> s = s' then (f r)\<lparr>mr_updated_at := now\<rparr> else r))"
proof (induction rows)
  case (Cons r rows)
  have "row_key t s ((f r)\<lparr>mr_updated_at := now\<rparr>) = row_key t s r"
    using assms [of r] by (simp add: row_key_def)
  with Cons show ?case by (auto simp: update_rows_def) (auto simp: row_key_def)
qed (simp add: update_rows_def)

lemma find_upsert_row:
  assumes "\<And>r. row_key t s (f r) = row_key t s r"
  shows "List.find (row_key t s) (upsert_row new f now rows) =
    (if row_key t s new then
       Some (case List.find (row_key t s) rows of None \<Rightarrow> new | Some r \<Rightarrow> (f r)\<lparr>mr_updated_at := now\<rparr>)
     else List.find (row_key t s) rows)"
proof -
  have snoc: "List.find P (xs @ [x]) =
      (case List.find P xs of Some y \<Rightarrow> Some y | None \<Rightarrow> if P x then Some x else None)"
    for P xs and x :: meta_row by (induction xs) auto
  have ex: "list_ex P xs \<longleftrightarrow> List.find P xs \<noteq> None" for P and xs :: "meta_row list"
    by (induction xs) auto
  show ?thesis
    by (auto simp: upsert_row_def ex snoc find_update_rows [OF assms] row_key_def
        split: option.splits)
qed

text \<open>A text within the width of its column is stored as it is; one beyond it that does not end in
  a space is refused.\<close>

lemma take_chars_short: "char_count s \<le> n \<Longrightarrow> take_chars n s = (s, [])"
  by (induction n s rule: take_chars.induct) (auto simp: char_count_def)

lemma take_chars_append: "take_chars n s = (kept, rest) \<Longrightarrow> kept @ rest = s \<and> char_count kept \<le> n"
  by (induction n s arbitrary: kept rest rule: take_chars.induct)
     (auto simp: char_count_def split: if_splits prod.splits)

lemma varchar_fits: "char_count s \<le> n \<Longrightarrow> varchar n s = Some s"
  by (simp add: varchar_def take_chars_short)

lemma varchar_overlong:
  assumes "n < char_count s" "last s \<noteq> CHR '' ''"
  shows "varchar n s = None"
proof -
  obtain kept rest where k: "take_chars n s = (kept, rest)" by fastforce
  from take_chars_append [OF k] assms(1) have "kept @ rest = s" "rest \<noteq> []" by auto
  then have "last s \<in> set rest" by auto
  with assms(2) k show ?thesis by (auto simp: varchar_def list_all_iff)
qed

lemma column_fits [simp]: "char_count s \<le> n \<Longrightarrow> column n s = ret s"
  by (simp add: column_def varchar_fits)

lemma column_same: "column n s x = Some (r, x') \<Longrightarrow> x' = x"
  by (auto simp: column_def ret_def fail_def split: option.splits)

text \<open>C33: the life of a step in a reachable database, for names, status and commit within the widths
  of their columns. Starting, running and finalizing it succeeds and leaves exactly this row:
  the workflow, commit, session and environment of this start, its time, the final status,
  exit code and tail; the blueprint and the verdict are those of the row that was there
  before, if there was one. No other row of the table changes.\<close>

theorem step_life_cycle:
  assumes "reachable d b"
    and "char_count s \<le> 100" "char_count b \<le> 100" "char_count w \<le> 100" "char_count sha \<le> 64"
    and "char_count sess \<le> 100" "char_count status \<le> 20"
  shows "\<exists>d'. bindE (upsert_step_start b t s w sha sess env)
       (\<lambda>_. bindE (set_step_running b t s) (\<lambda>_. finalize_step b t s status code tail)) d = Some (Inr (), d') \<and>
     row_at d' b t s = Some \<lparr>mr_task_id = t, mr_step_name = s,
       mr_blueprint_name = (case row_at d b t s of Some r \<Rightarrow> mr_blueprint_name r | None \<Rightarrow> b),
       mr_workflow_name = Some w, mr_status = status, mr_target_sha = sha, mr_exit_code = code,
       mr_stdout_tail = tail, mr_started_at = Some (ps_now (ad_server d)), mr_session_name = Some sess,
       mr_updated_at = ps_now (ad_server d),
       mr_hitl_verdict = Option.bind (row_at d b t s) mr_hitl_verdict, mr_env_snapshot = Some env\<rparr> \<and>
     (\<forall>t' s'. (t', s') \<noteq> (t, s) \<longrightarrow> row_at d' b t' s' = row_at d b t' s')"
proof -
  define new where "new = (blank_row t s b ''STARTING'' (ps_now (ad_server d)))\<lparr>mr_workflow_name := Some w,
     mr_target_sha := sha, mr_session_name := Some sess, mr_env_snapshot := Some env\<rparr>"
  define f :: "meta_row \<Rightarrow> meta_row" where "f = (\<lambda>r. r\<lparr>mr_status := ''STARTING'', mr_workflow_name := Some w,
     mr_target_sha := sha, mr_session_name := Some sess, mr_env_snapshot := Some env,
     mr_exit_code := None, mr_started_at := None\<rparr>)"
  let ?now = "ps_now (ad_server d)"
  let ?rows1 = "upsert_row new f ?now (table d b)"
  let ?rows2 = "update_rows (row_key t s) (\<lambda>r. r\<lparr>mr_status := ''RUNNING'', mr_started_at := Some ?now\<rparr>) ?now ?rows1"
  let ?rows3 = "update_rows (row_key t s) (\<lambda>r. r\<lparr>mr_status := status, mr_exit_code := code, mr_stdout_tail := tail\<rparr>) ?now ?rows2"
  let ?d1 = "set_table b ?rows1 (pooled b d)"
  let ?d2 = "set_table b ?rows2 (pooled b ?d1)"
  let ?d3 = "set_table b ?rows3 (pooled b ?d2)"
  have now: "ps_now (ad_server (set_table b rows x)) = ps_now (ad_server x)" for rows x
    by (simp add: set_table_def)
  have 1: "upsert_step_start b t s w sha sess env d = Some (Inr (), ?d1)"
    using assms by (simp add: upsert_step_start_def reachable_simps new_def f_def bindE_ret)
  have 2: "set_step_running b t s ?d1 = Some (Inr (), ?d2)"
    using assms by (simp add: set_step_running_def reachable_simps now)
  have 3: "finalize_step b t s status code tail ?d2 = Some (Inr (), ?d3)"
    using assms by (simp add: finalize_step_def reachable_simps now bindE_ret)
  have key: "row_key t' s' (f r) = row_key t' s' r" for t' s' r by (simp add: f_def row_key_def)
  have keys: "row_key t' s' (r\<lparr>mr_status := x, mr_started_at := y\<rparr>) = row_key t' s' r"
      "row_key t' s' (r\<lparr>mr_status := x, mr_exit_code := c, mr_stdout_tail := z\<rparr>) = row_key t' s' r"
    for t' s' r x y c z by (simp_all add: row_key_def)
  have nk: "row_key t' s' new \<longleftrightarrow> t' = t \<and> s' = s" for t' s'
    by (auto simp: new_def blank_row_def row_key_def)
  have rows: "row_at ?d3 b t' s' =
      (case List.find (row_key t' s') ?rows1 of None \<Rightarrow> None
       | Some r \<Rightarrow> Some (if t' = t \<and> s' = s then
           (r\<lparr>mr_status := ''RUNNING'', mr_started_at := Some ?now, mr_updated_at := ?now\<rparr>)
             \<lparr>mr_status := status, mr_exit_code := code, mr_stdout_tail := tail, mr_updated_at := ?now\<rparr> else r))"
    for t' s'
    unfolding row_at_def table_set_table by (simp add: find_update_rows keys split: option.splits)
  have other: "row_at ?d3 b t' s' = row_at d b t' s'" if "(t', s') \<noteq> (t, s)" for t' s'
    using that unfolding rows by (auto simp: find_upsert_row key nk row_at_def split: option.splits)
  let ?base = "case row_at d b t s of None \<Rightarrow> new | Some r \<Rightarrow> (f r)\<lparr>mr_updated_at := ?now\<rparr>"
  have fin: "row_at ?d3 b t s = Some
      (?base\<lparr>mr_status := ''RUNNING'', mr_started_at := Some ?now, mr_updated_at := ?now\<rparr>
         \<lparr>mr_status := status, mr_exit_code := code, mr_stdout_tail := tail, mr_updated_at := ?now\<rparr>)"
    unfolding rows by (simp add: find_upsert_row key nk row_at_def)
  have run: "bindE (upsert_step_start b t s w sha sess env)
     (\<lambda>_. bindE (set_step_running b t s) (\<lambda>_. finalize_step b t s status code tail)) d = Some (Inr (), ?d3)"
    by (simp add: bindE_def 1 2 3)
  have key_found: "mr_task_id r = t \<and> mr_step_name r = s" if "row_at d b t s = Some r" for r
    using that by (auto simp: row_at_def find_Some_iff row_key_def)
  have row: "row_at ?d3 b t s = Some \<lparr>mr_task_id = t, mr_step_name = s,
       mr_blueprint_name = (case row_at d b t s of Some r \<Rightarrow> mr_blueprint_name r | None \<Rightarrow> b),
       mr_workflow_name = Some w, mr_status = status, mr_target_sha = sha, mr_exit_code = code,
       mr_stdout_tail = tail, mr_started_at = Some ?now, mr_session_name = Some sess,
       mr_updated_at = ?now,
       mr_hitl_verdict = Option.bind (row_at d b t s) mr_hitl_verdict, mr_env_snapshot = Some env\<rparr>"
    unfolding fin by (cases "row_at d b t s") (use key_found in \<open>auto simp: new_def f_def blank_row_def\<close>)
  show ?thesis using run row other by blast
qed

text \<open>Nothing bounds the names of steps and workflows before they reach the table: the start of a step
  whose name is too long fails, and leaves no row.\<close>

theorem overlong_start_fails:
  assumes "reachable d b" "100 < char_count s" "last s \<noteq> CHR '' ''"
  shows "\<exists>e d'. upsert_step_start b t s w sha sess env d = Some (Inl e, d') \<and> table d' b = table d b"
  using assms by (simp add: upsert_step_start_def with_pool_reachable column_def varchar_overlong
      bindE_def fail_def)

definition sample_server :: pg_server where
  "sample_server = \<lparr>ps_databases = [blueprint_db ''bp'' \<mapsto> []], ps_answers = (\<lambda>_. True),
     ps_blueprints = [], ps_audit = [], ps_now = 100, ps_collate = length\<rparr>"

definition sample_db :: absurd_db where
  "sample_db = \<lparr>ad_catalog = True, ad_base_opts = True, ad_pools = [], ad_fallback = fallback_empty,
     ad_server = sample_server\<rparr>"

lemma sample_reachable: "reachable sample_db ''bp''"
  by (simp add: reachable_def sample_db_def sample_server_def can_connect_def)

lemma step_life_cycle_witness:
  "\<exists>d' r. bindE (upsert_step_start ''bp'' 1 ''s'' ''w'' NULL_SHA ''n'' JNull)
       (\<lambda>_. bindE (set_step_running ''bp'' 1 ''s'') (\<lambda>_. finalize_step ''bp'' 1 ''s'' ''COMPLETED'' (Some 0) None))
       sample_db = Some (Inr (), d') \<and> row_at d' ''bp'' 1 ''s'' = Some r \<and> mr_status r = ''COMPLETED'' \<and>
     mr_workflow_name r = Some ''w''"
  using step_life_cycle [OF sample_reachable, of "''s''" "''w''" NULL_SHA "''n''" "''COMPLETED''" 1 JNull "Some 0" None]
  by (auto simp: char_count_def NULL_SHA_def utf8_cont_def)

lemma overlong_start_fails_witness:
  "\<exists>e d'. upsert_step_start ''bp'' 1 (replicate 101 CHR ''x'') ''w'' NULL_SHA ''n'' JNull sample_db = Some (Inl e, d') \<and>
     table d' ''bp'' = []"
  using overlong_start_fails [OF sample_reachable, of "replicate 101 CHR ''x''" 1 "''w''" NULL_SHA "''n''" JNull]
  by (auto simp: char_count_def utf8_cont_def table_def sample_db_def sample_server_def)

section \<open>Outages\<close>

text \<open>The five transitions that fall back to the ring.\<close>

datatype transition =
    T_start string string string json
  | T_running
  | T_final string "i32 option" "string option"
  | T_suspend string
  | T_verdict string

definition apply_transition :: "string \<Rightarrow> uuid \<Rightarrow> string \<Rightarrow> transition \<Rightarrow> unit db_op" where
  "apply_transition b t s tr =
     (case tr of
        T_start w sha sess env \<Rightarrow> upsert_step_start b t s w sha sess env
      | T_running \<Rightarrow> set_step_running b t s
      | T_final status code tail \<Rightarrow> finalize_step b t s status code tail
      | T_suspend reason \<Rightarrow> suspend_step b t s reason
      | T_verdict v \<Rightarrow> record_hitl_resolution b t s v)"

definition transition_event :: "string \<Rightarrow> uuid \<Rightarrow> string \<Rightarrow> transition \<Rightarrow> fallback_event" where
  "transition_event b t s tr =
     (case tr of
        T_start _ _ _ _ \<Rightarrow> stored_event t b s ''STARTING'' None
      | T_running \<Rightarrow> stored_event t b s ''RUNNING'' None
      | T_final status _ tail \<Rightarrow> stored_event t b s status tail
      | T_suspend _ \<Rightarrow> stored_event t b s ''SUSPENDED'' None
      | T_verdict v \<Rightarrow> stored_event t b s v None)"

lemma pool_None_same: "blueprint_pool b d = Some (Inr None, d') \<Longrightarrow> d' = d"
  by (auto simp: blueprint_pool_def Let_def split: if_splits)

lemma record_event: "\<exists>e. record_fallback_event b t s st c d = Some (Inr (), d\<lparr>ad_fallback := e\<rparr>) \<and>
    e = fallback_record t b s st c (ad_fallback d)"
  by (simp add: record_fallback_event_def modify_def)

text \<open>A transition of a step whose database cannot be reached is not lost: it changes
  nothing on the server and is the newest event of the ring, which stays within its bound.\<close>

theorem outage_buffers:
  assumes "blueprint_pool b d = Some (Inr None, d')" and "fallback_ok (ad_fallback d)"
  shows "\<exists>d''. apply_transition b t s tr d = Some (Inr (), d'') \<and> ad_server d'' = ad_server d \<and>
     events (ad_fallback d'') = last_n 1000 (events (ad_fallback d) @ [transition_event b t s tr]) \<and>
     fallback_ok (ad_fallback d'')"
proof -
  have d: "d' = d" using pool_None_same [OF assms(1)] .
  note unreachable = with_pool_unreachable [OF assms(1)[unfolded d]]
  note refine = fallback_record_refines [OF assms(2)]
  show ?thesis
    by (cases tr)
       (simp_all add: apply_transition_def transition_event_def upsert_step_start_def
          set_step_running_def finalize_step_def suspend_step_def record_hitl_resolution_def
          unreachable record_fallback_event_def modify_def refine MAX_ENTRIES_def)
qed

definition offline_db :: absurd_db where
  "offline_db = open_degraded fallback_empty sample_server"

lemma offline_pool: "blueprint_pool ''bp'' offline_db = Some (Inr None, offline_db)"
  by (simp add: blueprint_pool_def offline_db_def open_degraded_def Let_def)

lemma outage_buffers_witness:
  "\<exists>d''. apply_transition ''bp'' 1 ''s'' T_running offline_db = Some (Inr (), d'') \<and>
     events (ad_fallback d'') = [stored_event 1 ''bp'' ''s'' ''RUNNING'' None]"
  using outage_buffers [OF offline_pool, of 1 "''s''" T_running]
  by (auto simp: offline_db_def open_degraded_def fallback_empty_ok last_n_def transition_event_def)

section \<open>Replay\<close>

definition merged_row :: "uuid \<Rightarrow> fallback_event \<Rightarrow> int \<Rightarrow> meta_row option \<Rightarrow> meta_row" where
  "merged_row t ev now old =
     (case old of
        None \<Rightarrow> blank_row t (fv_step_name ev) (fv_blueprint_name ev) (fv_status ev) now
      | Some r \<Rightarrow> r\<lparr>mr_status := fv_status ev, mr_updated_at := now\<rparr>)"

lemma ensure_reachable:
  assumes "reachable d b" and "ad_catalog d" and "ad_base_opts d"
  shows "ensure_blueprint_db b d = Some (Inr (), pooled b d)"
  using assms
  by (auto simp: ensure_blueprint_db_def reachable_def pooled_def can_connect_def Let_def add_pool_def)

lemma pooled_pooled [simp]: "pooled b (pooled b d) = pooled b d"
  by (auto simp: pooled_def add_pool_def)

lemma set_table_props [simp]:
  "ad_catalog (set_table b rows d) = ad_catalog d" "ad_base_opts (set_table b rows d) = ad_base_opts d"
  "ps_now (ad_server (set_table b rows d)) = ps_now (ad_server d)"
  "ad_fallback (set_table b rows d) = ad_fallback d"
  by (simp_all add: set_table_def)

lemma replay_event_merge:
  assumes "reachable d b" and "ad_catalog d" and "ad_base_opts d"
    and "fv_blueprint_name ev = b" and "parse_uuid (fv_task_id ev) = Some t"
  shows "\<exists>rows. replay_event parse_uuid ev n d =
       Some (Inr (if storable ev = None then n else n + 1), set_table b rows (pooled b d)) \<and>
     (\<forall>t' s'. List.find (row_key t' s') rows =
        (case storable ev of
           Some e \<Rightarrow> if t' = t \<and> s' = fv_step_name e
             then Some (merged_row t e (ps_now (ad_server d)) (row_at d b t' s')) else row_at d b t' s'
         | None \<Rightarrow> row_at d b t' s'))"
proof -
  let ?now = "ps_now (ad_server d)"
  have pool: "blueprint_pool b (pooled b d) = Some (Inr (Some (blueprint_db b)), pooled b d)"
    using blueprint_pool_reachable [OF reachable_pooled [OF assms(1)], of b] by simp
  have ov: "on_overlay (blueprint_db b) f (pooled b d) =
      (let (x, rows) = f ?now (table d b) in Some (Inr x, set_table b rows (pooled b d)))" for f :: "int \<Rightarrow> meta_row list \<Rightarrow> unit \<times> meta_row list"
    using on_overlay_reachable [OF reachable_pooled [OF assms(1)], of f b] by simp
  note start = assms(4,5) ensure_reachable [OF assms(1-3)] pool
  show ?thesis
  proof (cases "storable ev")
    case None
    have "set_table b (table d b) (pooled b d) = pooled b d"
      using assms(1) by (auto simp: set_table_def table_def reachable_def can_connect_def fun_upd_idem)
    then have "replay_event parse_uuid ev n d = Some (Inr n, set_table b (table d b) (pooled b d))"
      using start by (simp add: replay_event_def bindE_def attempt_def None fail_def ret_def)
    then show ?thesis by (auto simp: None row_at_def)
  next
    case (Some e)
    let ?rows = "upsert_row (blank_row t (fv_step_name e) (fv_blueprint_name e) (fv_status e) ?now)
       (\<lambda>r. r\<lparr>mr_status := fv_status e\<rparr>) ?now (table d b)"
    have "replay_event parse_uuid ev n d = Some (Inr (n + 1), set_table b ?rows (pooled b d))"
      using start by (simp add: replay_event_def bindE_def attempt_def ov ret_def Some)
    moreover have "List.find (row_key t' s') ?rows =
        (if t' = t \<and> s' = fv_step_name e then Some (merged_row t e ?now (row_at d b t' s'))
         else row_at d b t' s')" for t' s'
      by (subst find_upsert_row)
         (auto simp: row_key_def blank_row_def merged_row_def row_at_def split: option.splits)
    ultimately show ?thesis by (auto simp: Some)
  qed
qed

text \<open>The event that a key ends with.\<close>

definition last_event :: "(string \<Rightarrow> uuid option) \<Rightarrow> fallback_event list \<Rightarrow> uuid \<Rightarrow> string \<Rightarrow>
    fallback_event option" where
  "last_event parse_uuid evs t s =
     List.find (\<lambda>ev. parse_uuid (fv_task_id ev) = Some t \<and> fv_step_name ev = s) (rev evs)"

lemma last_event_Cons:
  "last_event p (e # evs) t s = (case last_event p evs t s of Some x \<Rightarrow> Some x | None \<Rightarrow>
     if p (fv_task_id e) = Some t \<and> fv_step_name e = s then Some e else None)"
proof -
  have "List.find P (xs @ [x]) =
      (case List.find P xs of Some y \<Rightarrow> Some y | None \<Rightarrow> if P x then Some x else None)"
    for P xs and x :: fallback_event by (induction xs) auto
  then show ?thesis by (simp add: last_event_def)
qed

text \<open>What replay makes of a row: the status of its last event, if it has one.\<close>

definition replayed_row :: "(string \<Rightarrow> uuid option) \<Rightarrow> fallback_event list \<Rightarrow> int \<Rightarrow> uuid \<Rightarrow>
    string \<Rightarrow> meta_row option \<Rightarrow> meta_row option" where
  "replayed_row parse_uuid evs now t s old =
     (case last_event parse_uuid evs t s of
        None \<Rightarrow> old
      | Some ev \<Rightarrow> Some (case old of
          None \<Rightarrow> blank_row t s (fv_blueprint_name ev) (fv_status ev) now
        | Some r \<Rightarrow> r\<lparr>mr_status := fv_status ev, mr_updated_at := now\<rparr>))"

lemma storable_task: "storable ev = Some e \<Longrightarrow> fv_task_id e = fv_task_id ev"
  by (auto simp: storable_def bind_eq_Some_conv)

lemma storable_blueprint: "storable ev = Some e \<Longrightarrow> varchar 100 (fv_blueprint_name ev) = Some (fv_blueprint_name e)"
  unfolding storable_def bind_eq_Some_conv by fastforce

lemma find_mem: "List.find P xs = Some x \<Longrightarrow> x \<in> set xs"
  by (induction xs) (auto split: if_splits)

lemma replay_events_merge:
  assumes "reachable d b" and "ad_catalog d" and "ad_base_opts d"
    and "\<forall>ev \<in> set evs. fv_blueprint_name ev = b \<and> parse_uuid (fv_task_id ev) \<noteq> None"
  shows "\<exists>d'. replay_events parse_uuid evs n d = Some (Inr (n + length (List.map_filter storable evs)), d') \<and>
     ad_fallback d' = ad_fallback d \<and>
     (\<forall>t s. row_at d' b t s =
        replayed_row parse_uuid (List.map_filter storable evs) (ps_now (ad_server d)) t s (row_at d b t s))"
  using assms
proof (induction evs arbitrary: d n)
  case Nil
  then show ?case by (simp add: ret_def last_event_def replayed_row_def map_filter_simps)
next
  case (Cons e evs)
  let ?stored = "List.map_filter storable"
  from Cons.prems(4) obtain u where u: "parse_uuid (fv_task_id e) = Some u" and b: "fv_blueprint_name e = b" by auto
  from replay_event_merge [where n = n and parse_uuid = parse_uuid, OF Cons.prems(1-3) b u] obtain rows where
      r: "replay_event parse_uuid e n d =
        Some (Inr (if storable e = None then n else n + 1), set_table b rows (pooled b d))"
    and rows: "\<And>t' s'. List.find (row_key t' s') rows =
        (case storable e of
           Some x \<Rightarrow> if t' = u \<and> s' = fv_step_name x
             then Some (merged_row u x (ps_now (ad_server d)) (row_at d b t' s')) else row_at d b t' s'
         | None \<Rightarrow> row_at d b t' s')" by blast
  let ?d = "set_table b rows (pooled b d)" and ?n = "if storable e = None then n else n + 1"
  have "\<exists>d'. replay_events parse_uuid evs ?n ?d = Some (Inr (?n + length (?stored evs)), d') \<and>
     ad_fallback d' = ad_fallback ?d \<and>
     (\<forall>t s. row_at d' b t s = replayed_row parse_uuid (?stored evs) (ps_now (ad_server ?d)) t s (row_at ?d b t s))"
    by (rule Cons.IH) (use Cons.prems in simp_all)
  then obtain d' where
      d': "replay_events parse_uuid evs ?n ?d = Some (Inr (?n + length (?stored evs)), d')"
      "ad_fallback d' = ad_fallback ?d"
    and at: "\<forall>t s. row_at d' b t s = replayed_row parse_uuid (?stored evs) (ps_now (ad_server ?d)) t s (row_at ?d b t s)"
    by blast
  have "replay_events parse_uuid (e # evs) n d = Some (Inr (n + length (?stored (e # evs))), d')"
    using r d'(1) by (cases "storable e") (simp_all add: bindE_def map_filter_simps)
  moreover have "row_at d' b t s = replayed_row parse_uuid (?stored (e # evs)) (ps_now (ad_server d)) t s (row_at d b t s)" for t s
  proof -
    have q: "row_at ?d b t s = List.find (row_key t s) rows" by (simp add: row_at_def)
    show ?thesis
    proof (cases "storable e")
      case None
      then show ?thesis by (simp add: at q rows map_filter_simps)
    next
      case (Some x)
      have same: "fv_blueprint_name y = fv_blueprint_name x" if "last_event parse_uuid (?stored evs) t s = Some y" for y
      proof -
        from that have "y \<in> set (?stored evs)" by (auto simp: last_event_def dest: find_mem)
        then obtain e' where e': "e' \<in> set evs" "storable e' = Some y" by (auto simp: map_filter_def)
        then show ?thesis using Some b Cons.prems(4) by (auto dest!: storable_blueprint)
      qed
      have stored: "?stored (e # evs) = x # ?stored evs" by (simp add: Some map_filter_simps)
      have at: "row_at d' b t s = replayed_row parse_uuid (?stored evs) (ps_now (ad_server d)) t s
          (if t = u \<and> s = fv_step_name x then Some (merged_row u x (ps_now (ad_server d)) (row_at d b t s))
           else row_at d b t s)"
        unfolding at [rule_format] q rows Some by simp
      have x: "parse_uuid (fv_task_id x) = Some u" using u storable_task [OF Some] by simp
      show ?thesis
      proof (cases "last_event parse_uuid (?stored evs) t s")
        case None
        then show ?thesis unfolding stored at replayed_row_def last_event_Cons x
          by (simp add: merged_row_def blank_row_def split: option.split)
      next
        case (Some y)
        then show ?thesis unfolding stored at replayed_row_def last_event_Cons x
          using same [OF Some] by (simp add: merged_row_def blank_row_def split: option.split)
      qed
    qed
  qed
  ultimately show ?case using d'(2) by auto
qed

text \<open>C38: when the server is back, replay merges every buffered event that the columns can hold, and
  drops the others: each step ends with the status of the last event merged, a step without
  a row gets one, all other columns and all other steps stay as they were, and the ring is empty.\<close>

theorem replay_merges_ring:
  assumes "reachable d b" and "ad_catalog d" and "ad_base_opts d" and "fallback_ok (ad_fallback d)"
    and "\<forall>ev \<in> set (events (ad_fallback d)). fv_blueprint_name ev = b \<and> parse_uuid (fv_task_id ev) \<noteq> None"
  shows "\<exists>d'. replay_fallback parse_uuid d =
       Some (Inr (length (List.map_filter storable (events (ad_fallback d)))), d') \<and>
     fallback_count (ad_fallback d') = 0 \<and>
     (\<forall>t s. row_at d' b t s = replayed_row parse_uuid (List.map_filter storable (events (ad_fallback d)))
        (ps_now (ad_server d)) t s (row_at d b t s))"
proof -
  let ?evs = "events (ad_fallback d)" and ?stored = "List.map_filter storable (events (ad_fallback d))"
  let ?d = "d\<lparr>ad_fallback := snd (fallback_drain (ad_fallback d))\<rparr>"
  have r: "reachable ?d b" "ad_catalog ?d" "ad_base_opts ?d"
    using assms(1-3) by (simp_all add: reachable_def)
  from replay_events_merge [where n = 0, OF r assms(5)] obtain d' where
      d': "replay_events parse_uuid ?evs 0 ?d = Some (Inr (0 + length ?stored), d')"
      "ad_fallback d' = ad_fallback ?d"
    and at: "\<forall>t s. row_at d' b t s = replayed_row parse_uuid ?stored (ps_now (ad_server ?d)) t s (row_at ?d b t s)" by blast
  have same: "row_at ?d b t s = row_at d b t s" for t s by (simp add: row_at_def table_def)
  have "replay_fallback parse_uuid d = Some (Inr (length ?stored), d')"
    using d'(1) fallback_drain_ok [OF assms(4)]
    by (simp add: replay_fallback_def bindE_def gets_def modify_def)
  moreover have "fallback_count (ad_fallback d') = 0"
    using d'(2) fallback_drain_ok [OF assms(4)] by (simp add: fallback_count_def)
  moreover have "row_at d' b t s =
      replayed_row parse_uuid ?stored (ps_now (ad_server d)) t s (row_at d b t s)" for t s
    by (simp add: at same)
  ultimately show ?thesis by blast
qed

text \<open>An event within the widths is stored as it is.\<close>

lemma storable_fits:
  "char_count (fv_step_name ev) \<le> 100 \<Longrightarrow> char_count (fv_blueprint_name ev) \<le> 100 \<Longrightarrow>
     char_count (fv_status ev) \<le> 20 \<Longrightarrow> storable ev = Some ev"
  by (simp add: storable_def varchar_fits)

definition sample_outage :: absurd_db where
  "sample_outage = sample_db\<lparr>ad_fallback := fallback_record 1 ''bp'' ''s'' ''RUNNING'' None fallback_empty\<rparr>"

definition sample_parse :: "string \<Rightarrow> uuid option" where
  "sample_parse s = (if s = uuid_string 1 then Some 1 else None)"

lemma sample_outage_events: "events (ad_fallback sample_outage) = [stored_event 1 ''bp'' ''s'' ''RUNNING'' None]"
  "fallback_ok (ad_fallback sample_outage)"
  using fallback_record_refines [OF fallback_empty_ok(1), of 1 "''bp''" "''s''" "''RUNNING''" None]
  by (simp_all add: sample_outage_def fallback_empty_ok last_n_def MAX_ENTRIES_def)

lemma replay_merges_ring_witness:
  "\<exists>d' r. replay_fallback sample_parse sample_outage = Some (Inr 1, d') \<and>
     row_at d' ''bp'' 1 ''s'' = Some r \<and> mr_status r = ''RUNNING''"
proof -
  have r: "reachable sample_outage ''bp''" "ad_catalog sample_outage" "ad_base_opts sample_outage"
    using sample_reachable by (simp_all add: reachable_def sample_outage_def sample_db_def)
  have ev: "\<forall>ev \<in> set (events (ad_fallback sample_outage)). fv_blueprint_name ev = ''bp'' \<and>
      sample_parse (fv_task_id ev) \<noteq> None"
    by (simp add: sample_outage_events stored_event_def sample_parse_def)
  have stored: "List.map_filter storable (events (ad_fallback sample_outage)) =
      [stored_event 1 ''bp'' ''s'' ''RUNNING'' None]"
    by (simp add: sample_outage_events map_filter_simps storable_fits stored_event_def char_count_def utf8_cont_def)
  have last: "last_event sample_parse [stored_event 1 ''bp'' ''s'' ''RUNNING'' None] 1 ''s'' =
      Some (stored_event 1 ''bp'' ''s'' ''RUNNING'' None)"
    by (simp add: last_event_def stored_event_def sample_parse_def)
  from replay_merges_ring [OF r sample_outage_events(2) ev, unfolded stored] obtain d' where
    d': "replay_fallback sample_parse sample_outage = Some (Inr 1, d')"
    and at: "row_at d' ''bp'' 1 ''s'' = replayed_row sample_parse [stored_event 1 ''bp'' ''s'' ''RUNNING'' None]
      (ps_now (ad_server sample_outage)) 1 ''s'' (row_at sample_outage ''bp'' 1 ''s'')"
    by auto
  from at have "\<exists>r. row_at d' ''bp'' 1 ''s'' = Some r \<and> mr_status r = ''RUNNING''"
    unfolding replayed_row_def last by (auto simp: stored_event_def blank_row_def split: option.splits)
  with d' show ?thesis by blast
qed

text \<open>A verdict (of at most 20 characters) that is given while the database cannot be reached does not survive: the
  buffered event carries it in the status column, so that after recovery the step has the
  verdict as its status and still no verdict.\<close>

theorem outage_loses_verdict:
  assumes off: "blueprint_pool b d = Some (Inr None, d)" and empty: "fd_rows (ad_fallback d) = []"
    and rec: "record_hitl_resolution b t s v d = Some (Inr (), d1)"
    and again: "reachable d2 b" "ad_catalog d2" "ad_base_opts d2" "ad_fallback d2 = ad_fallback d1"
    and row: "row_at d2 b t s = Some r" "mr_hitl_verdict r = None"
    and uuid: "parse_uuid (uuid_string t) = Some t"
    and fits: "char_count s \<le> 100" "char_count b \<le> 100" "char_count v \<le> 20"
  shows "\<exists>d3 r'. replay_fallback parse_uuid d2 = Some (Inr 1, d3) \<and> row_at d3 b t s = Some r' \<and>
     mr_status r' = v \<and> mr_hitl_verdict r' = None"
proof -
  let ?ev = "stored_event t b s v None"
  have ok: "fallback_ok (ad_fallback d)" "events (ad_fallback d) = []"
    using empty by (simp_all add: fallback_ok_def events_def)
  have "ad_fallback d1 = fallback_record t b s v None (ad_fallback d)"
    using rec by (auto simp: record_hitl_resolution_def with_pool_unreachable [OF off]
        record_fallback_event_def modify_def)
  with fallback_record_refines [OF ok(1), of t b s v None] ok(2) again(4)
  have f: "fallback_ok (ad_fallback d2)" "events (ad_fallback d2) = [?ev]"
    by (simp_all add: last_n_def MAX_ENTRIES_def)
  have evs: "\<forall>ev \<in> set [?ev]. fv_blueprint_name ev = b \<and> parse_uuid (fv_task_id ev) \<noteq> None"
    using uuid by (simp add: stored_event_def)
  have stored: "List.map_filter storable [?ev] = [?ev]"
    using fits by (simp add: map_filter_simps storable_fits stored_event_def)
  let ?d = "d2\<lparr>ad_fallback := snd (fallback_drain (ad_fallback d2))\<rparr>"
  have "reachable ?d b" "ad_catalog ?d" "ad_base_opts ?d" using again by (simp_all add: reachable_def)
  from replay_events_merge [where n = 0, OF this evs, unfolded stored] obtain d3 where
      d3: "replay_events parse_uuid [?ev] 0 ?d = Some (Inr 1, d3)"
    and at: "row_at d3 b t s = replayed_row parse_uuid [?ev] (ps_now (ad_server ?d)) t s (row_at ?d b t s)"
    by auto
  have "replay_fallback parse_uuid d2 = Some (Inr 1, d3)"
    using d3 fallback_drain_ok [OF f(1)] f(2)
    by (simp add: replay_fallback_def bindE_def gets_def modify_def)
  moreover have "row_at ?d b t s = Some r" using row(1) by (simp add: row_at_def table_def)
  then have "row_at d3 b t s = Some (r\<lparr>mr_status := v, mr_updated_at := ps_now (ad_server d2)\<rparr>)"
    unfolding at by (simp add: replayed_row_def last_event_def stored_event_def uuid)
  ultimately show ?thesis using row(2) by auto
qed

definition suspended_row :: meta_row where
  "suspended_row = (blank_row 1 ''s'' ''bp'' ''SUSPENDED'' 90)"

definition recovered_db :: absurd_db where
  "recovered_db = sample_db\<lparr>
     ad_server := sample_server\<lparr>ps_databases := [blueprint_db ''bp'' \<mapsto> [suspended_row]]\<rparr>,
     ad_fallback := fallback_record 1 ''bp'' ''s'' ''APPROVED'' None fallback_empty\<rparr>"

lemma outage_loses_verdict_witness:
  "\<exists>d3 r'. replay_fallback sample_parse recovered_db = Some (Inr 1, d3) \<and>
     row_at d3 ''bp'' 1 ''s'' = Some r' \<and> mr_status r' = ''APPROVED'' \<and> mr_hitl_verdict r' = None"
proof (rule outage_loses_verdict [OF offline_pool, where r = suspended_row])
  show "fd_rows (ad_fallback offline_db) = []"
    by (simp add: offline_db_def open_degraded_def fallback_empty_def)
  show "record_hitl_resolution ''bp'' 1 ''s'' ''APPROVED'' offline_db = Some (Inr (),
      offline_db\<lparr>ad_fallback := fallback_record 1 ''bp'' ''s'' ''APPROVED'' None (ad_fallback offline_db)\<rparr>)"
    by (simp add: record_hitl_resolution_def with_pool_unreachable [OF offline_pool]
        record_fallback_event_def modify_def)
qed (simp_all add: reachable_def recovered_db_def sample_db_def sample_server_def can_connect_def
       row_at_def table_def suspended_row_def blank_row_def row_key_def sample_parse_def
       offline_db_def open_degraded_def char_count_def utf8_cont_def)

section \<open>Offboarding\<close>

lemma insert_audit_ok: "ps_answers (ad_server d) catalog_db \<Longrightarrow>
    insert_audit a d = Some (Inr (), d\<lparr>ad_server := (ad_server d)\<lparr>ps_audit := ps_audit (ad_server d) @ [a]\<rparr>\<rparr>)"
  by (simp add: insert_audit_def on_catalog_def)

lemma set_table_answers [simp]: "ps_answers (ad_server (set_table b rows d)) = ps_answers (ad_server d)"
    "ps_audit (ad_server (set_table b rows d)) = ps_audit (ad_server d)"
  by (simp_all add: set_table_def)

text \<open>An offboarding that succeeds leaves no row of the blueprint in its overlay, keeps the
  rows of every other blueprint, and adds one audit row with the number of rows purged.\<close>

theorem offboard_audited:
  assumes "reachable d b" and "ad_catalog d" and "ps_answers (ad_server d) catalog_db"
  shows "\<exists>d' n. offboard_blueprint_data b d = Some (Inr n, d') \<and>
     table d' b = filter (\<lambda>r. mr_blueprint_name r \<noteq> b) (table d b) \<and>
     n + length (table d' b) = length (table d b) \<and>
     (\<exists>a. ps_audit (ad_server d') = ps_audit (ad_server d) @ [a] \<and> au_blueprint_name a = b \<and> au_step_count a = n)"
proof -
  let ?n = "length (filter (\<lambda>r. mr_blueprint_name r = b) (table d b))"
  let ?rows = "filter (\<lambda>r. mr_blueprint_name r \<noteq> b) (table d b)"
  let ?d = "set_table b ?rows (pooled b d)"
  let ?a = "\<lparr>au_task_id = 0, au_blueprint_name = b, au_step_count = ?n,
      au_trace_summary = JObj [(''purged_overlay_rows'', JInt (int ?n))]\<rparr>"
  let ?d' = "?d\<lparr>ad_server := (ad_server ?d)\<lparr>ps_audit := ps_audit (ad_server ?d) @ [?a]\<rparr>\<rparr>"
  have "offboard_blueprint_data b d = Some (Inr ?n, ?d')"
    using assms by (simp add: offboard_blueprint_data_def reachable_simps bindE_def insert_audit_ok ret_def)
  moreover have "table ?d' b = ?rows" by (simp add: table_def set_table_def)
  moreover have "?n + length ?rows = length (table d b)"
    using sum_length_filter_compl [of "\<lambda>r. mr_blueprint_name r = b" "table d b"] by simp
  ultimately show ?thesis by (intro exI [of _ ?d'] exI [of _ ?n]) auto
qed

lemma offboard_audited_witness:
  "\<exists>d' n. offboard_blueprint_data ''bp'' recovered_db = Some (Inr n, d') \<and> table d' ''bp'' = [] \<and> n = 1"
proof -
  have "reachable recovered_db ''bp''" "ad_catalog recovered_db" "ps_answers (ad_server recovered_db) catalog_db"
    and t: "table recovered_db ''bp'' = [suspended_row]"
    by (simp_all add: reachable_def recovered_db_def sample_db_def sample_server_def can_connect_def table_def)
  from offboard_audited [OF this(1-3)] show ?thesis
    unfolding t by (auto simp: suspended_row_def blank_row_def)
qed

text \<open>The promise not to purge without an audit trail does not hold when the catalog stops
  answering after the check: the rows are gone, the call fails and no audit row is written.\<close>

theorem offboard_unaudited_purge:
  assumes "b \<in> set (ad_pools d)" and "can_connect (ad_server d) (blueprint_db b)" and "ad_catalog d"
    and "\<not> ps_answers (ad_server d) catalog_db"
  shows "\<exists>e d'. offboard_blueprint_data b d = Some (Inl e, d') \<and>
     table d' b = filter (\<lambda>r. mr_blueprint_name r \<noteq> b) (table d b) \<and>
     ps_audit (ad_server d') = ps_audit (ad_server d)"
proof -
  have "reachable d b" using assms by (simp add: reachable_def)
  then show ?thesis
    using assms(3,4)
    by (simp add: offboard_blueprint_data_def reachable_simps bindE_def insert_audit_def on_catalog_def)
qed

definition half_dead_db :: absurd_db where
  "half_dead_db = recovered_db\<lparr>ad_pools := [''bp''], ad_server := (ad_server recovered_db)
     \<lparr>ps_answers := (\<lambda>n. n \<noteq> catalog_db)\<rparr>\<rparr>"

lemma offboard_unaudited_purge_witness:
  "\<exists>e d'. offboard_blueprint_data ''bp'' half_dead_db = Some (Inl e, d') \<and> table d' ''bp'' = [] \<and>
     table half_dead_db ''bp'' \<noteq> []"
proof -
  have 1: "''bp'' \<in> set (ad_pools half_dead_db)" "can_connect (ad_server half_dead_db) (blueprint_db ''bp'')"
    "ad_catalog half_dead_db" "\<not> ps_answers (ad_server half_dead_db) catalog_db"
    and t: "table half_dead_db ''bp'' = [suspended_row]"
    by (simp_all add: half_dead_db_def recovered_db_def sample_db_def sample_server_def can_connect_def
        table_def blueprint_db_def catalog_db_def)
  from offboard_unaudited_purge [OF 1] show ?thesis
    unfolding t by (auto simp: suspended_row_def blank_row_def)
qed

section \<open>Reports\<close>

text \<open>The phases of a step in the order of precedence for the status of its task.\<close>

datatype phase = Terminal | Starting | Running | Suspended_phase

definition phase_of :: "meta_row \<Rightarrow> phase" where
  "phase_of r =
     (if mr_status r = ''SUSPENDED'' then Suspended_phase else if mr_status r = ''RUNNING'' then Running
      else if mr_status r = ''STARTING'' then Starting else Terminal)"

definition phase_rank :: "phase \<Rightarrow> nat" where
  "phase_rank p = (case p of Terminal \<Rightarrow> 0 | Starting \<Rightarrow> 1 | Running \<Rightarrow> 2 | Suspended_phase \<Rightarrow> 3)"

definition phase_str :: "phase \<Rightarrow> string" where
  "phase_str p = (case p of Terminal \<Rightarrow> ''COMPLETED'' | Starting \<Rightarrow> ''STARTING'' | Running \<Rightarrow> ''RUNNING''
     | Suspended_phase \<Rightarrow> ''SUSPENDED'')"

instantiation phase :: linorder
begin

definition less_eq_phase :: "phase \<Rightarrow> phase \<Rightarrow> bool" where
  "less_eq_phase p q = (phase_rank p \<le> phase_rank q)"

definition less_phase :: "phase \<Rightarrow> phase \<Rightarrow> bool" where
  "less_phase p q = (phase_rank p < phase_rank q)"

instance
  by standard (auto simp: less_eq_phase_def less_phase_def phase_rank_def split: phase.splits)

end

lemma phase_le_simps [simp]:
  "p \<le> Suspended_phase" "Terminal \<le> p" "Running \<le> p \<longleftrightarrow> p = Running \<or> p = Suspended_phase"
  "Starting \<le> p \<longleftrightarrow> p \<noteq> Terminal" "Suspended_phase \<le> p \<longleftrightarrow> p = Suspended_phase"
  by (cases p; simp add: less_eq_phase_def phase_rank_def)+

lemma phase_of_status:
  "mr_status r = ''SUSPENDED'' \<longleftrightarrow> phase_of r = Suspended_phase"
  "mr_status r = ''RUNNING'' \<longleftrightarrow> phase_of r = Running"
  "mr_status r = ''STARTING'' \<longleftrightarrow> phase_of r = Starting"
  by (auto simp: phase_of_def)

lemma derive_task_status_phase:
  "derive_task_status steps =
     (if \<exists>r \<in> set steps. phase_of r = Suspended_phase then ''SUSPENDED''
      else if \<exists>r \<in> set steps. phase_of r = Running then ''RUNNING''
      else if \<exists>r \<in> set steps. phase_of r = Starting then ''STARTING'' else ''COMPLETED'')"
  by (simp add: derive_task_status_def list_ex_iff phase_of_status)

text \<open>The status of a task is the highest phase of its rows: suspended before running before
  starting before everything else.\<close>

theorem derive_task_status_max:
  "derive_task_status steps = phase_str (fold max (map phase_of steps) Terminal)"
proof -
  let ?m = "fold max (map phase_of steps) Terminal"
  have le: "p \<le> fold max ps q" if "p \<in> set ps \<or> p \<le> q" for p q :: phase and ps
    using that by (induction ps arbitrary: q) (auto simp: le_max_iff_disj)
  have mem: "fold max ps q \<in> insert q (set ps)" for q :: phase and ps
    by (induction ps arbitrary: q) (auto simp: max_def split: if_splits)
  have "?m \<in> insert Terminal (phase_of ` set steps)" using mem [of "map phase_of steps" Terminal] by simp
  moreover have "\<And>r. r \<in> set steps \<Longrightarrow> phase_of r \<le> ?m" using le [of _ "map phase_of steps" Terminal] by simp
  ultimately have m: "?m = Terminal \<or> (\<exists>r \<in> set steps. phase_of r = ?m)"
    and le: "\<forall>r \<in> set steps. phase_of r \<le> ?m" by auto
  show ?thesis
  proof (cases ?m)
    case Terminal
    with le have "\<forall>r \<in> set steps. phase_of r = Terminal" by (metis phase_le_simps(2) order_antisym)
    with Terminal show ?thesis by (simp add: derive_task_status_phase phase_str_def)
  next
    case Starting
    with le have "\<forall>r \<in> set steps. phase_of r \<noteq> Running \<and> phase_of r \<noteq> Suspended_phase"
      by (metis phase.distinct phase_le_simps(3,5))
    with Starting m show ?thesis by (auto simp: derive_task_status_phase phase_str_def)
  next
    case Running
    with le have "\<forall>r \<in> set steps. phase_of r \<noteq> Suspended_phase"
      by (metis phase.distinct phase_le_simps(5))
    with Running m show ?thesis by (auto simp: derive_task_status_phase phase_str_def)
  next
    case Suspended_phase
    with m show ?thesis by (auto simp: derive_task_status_phase phase_str_def)
  qed
qed

lemma mset_group:
  "distinct ks \<Longrightarrow> mset (concat (map (\<lambda>k. filter (\<lambda>x. f x = k) xs) ks)) = filter_mset (\<lambda>x. f x \<in> set ks) (mset xs)"
proof (induction ks)
  case (Cons k ks)
  then have "filter_mset (\<lambda>x. f x \<in> set (k # ks)) (mset xs) =
      filter_mset (\<lambda>x. f x = k) (mset xs) + filter_mset (\<lambda>x. f x \<in> set ks) (mset xs)"
    by (intro multiset_eqI) auto
  with Cons show ?case by (simp add: mset_filter)
qed simp

lemma mset_group_all: "mset (concat (map (\<lambda>k. filter (\<lambda>x. f x = k) xs) (remdups (map f xs)))) = mset xs"
proof -
  have "filter_mset (\<lambda>x. f x \<in> f ` set xs) (mset xs) = mset xs" by (rule filter_mset_eq_conv [THEN iffD2]) auto
  then show ?thesis by (simp add: mset_group)
qed

lemma mset_progress_rows: "mset (progress_rows srv rows) = filter_mset live_row (mset rows)"
  by (simp add: progress_rows_def)

text \<open>The progress report of a reachable blueprint shows every step that is starting, running
  or suspended exactly once, under its own task, and no other step; the table is not
  changed, no elapsed time is negative and no tail exceeds the size budget.\<close>

theorem progress_complete:
  assumes "reachable d b"
  shows "\<exists>tasks d'. blueprint_progress rfc3339 b d = Some (Inr tasks, d') \<and> table d' b = table d b \<and>
     distinct (map at_task_id tasks) \<and>
     mset (concat (map (\<lambda>a. map (\<lambda>s. (at_task_id a, ss_name s, ss_status s)) (at_steps a)) tasks)) =
       mset (map (\<lambda>r. (mr_task_id r, mr_step_name r, mr_status r)) (filter live_row (table d b))) \<and>
     (\<forall>a \<in> set tasks. (\<forall>n. at_elapsed_seconds a = Some n \<longrightarrow> 0 \<le> n) \<and>
        (\<forall>s \<in> set (at_steps a). \<forall>t. ss_stdout_tail s = Some t \<longrightarrow> length t \<le> SIZE_BUDGET))"
proof -
  let ?rows = "progress_rows (ad_server d) (table d b)"
  let ?now = "ps_now (ad_server d)"
  let ?report = "\<lambda>t. task_report rfc3339 ?now b t (filter (\<lambda>r. mr_task_id r = t) ?rows)"
  let ?tasks = "map ?report (remdups (map mr_task_id ?rows))"
  let ?d' = "set_table b (table d b) (pooled b d)"
  have "on_overlay (blueprint_db b) f (pooled b d) =
      (let (x, rows) = f ?now (table d b) in Some (Inr x, set_table b rows (pooled b d)))"
    for f :: "int \<Rightarrow> meta_row list \<Rightarrow> meta_row list \<times> meta_row list"
    using on_overlay_reachable [OF reachable_pooled [OF assms], of f b] by simp
  then have "blueprint_progress rfc3339 b d = Some (Inr ?tasks, ?d')"
    by (simp add: blueprint_progress_def blueprint_pool_reachable [OF assms])
  moreover have "table ?d' b = table d b" by simp
  moreover have ids: "map at_task_id ?tasks = remdups (map mr_task_id ?rows)"
    by (simp add: task_report_def Let_def o_def)
  then have "distinct (map at_task_id ?tasks)" by simp
  moreover have "concat (map (\<lambda>a. map (\<lambda>s. (at_task_id a, ss_name s, ss_status s)) (at_steps a)) ?tasks) =
      map (\<lambda>r. (mr_task_id r, mr_step_name r, mr_status r))
        (concat (map (\<lambda>t. filter (\<lambda>r. mr_task_id r = t) ?rows) (remdups (map mr_task_id ?rows))))"
    unfolding map_concat map_map
    by (intro arg_cong [where f = concat] map_cong) (auto simp: o_def task_report_def Let_def)
  then have "mset (concat (map (\<lambda>a. map (\<lambda>s. (at_task_id a, ss_name s, ss_status s)) (at_steps a)) ?tasks)) =
      mset (map (\<lambda>r. (mr_task_id r, mr_step_name r, mr_status r)) (filter live_row (table d b)))"
    by (simp only: mset_map mset_group_all mset_progress_rows mset_filter)
  moreover have "(\<forall>n. at_elapsed_seconds a = Some n \<longrightarrow> 0 \<le> n) \<and>
        (\<forall>s \<in> set (at_steps a). \<forall>t. ss_stdout_tail s = Some t \<longrightarrow> length t \<le> SIZE_BUDGET)"
    if "a \<in> set ?tasks" for a
    using that length_truncate_16k by (auto simp: task_report_def Let_def)
  ultimately show ?thesis by blast
qed

lemma progress_complete_witness:
  "\<exists>tasks d'. blueprint_progress (\<lambda>_. []) ''bp'' recovered_db = Some (Inr tasks, d') \<and>
     distinct (map at_task_id tasks) \<and> mset (concat (map (\<lambda>a. map (\<lambda>s. (at_task_id a, ss_name s, ss_status s)) (at_steps a)) tasks))
       = {#(1, ''s'', ''SUSPENDED'')#}"
proof -
  have "reachable recovered_db ''bp''" and t: "table recovered_db ''bp'' = [suspended_row]"
    by (simp_all add: reachable_def recovered_db_def sample_db_def sample_server_def can_connect_def table_def)
  from progress_complete [OF this(1), of "\<lambda>_. []"] show ?thesis
    unfolding t by (auto simp: suspended_row_def blank_row_def live_row_def)
qed

end
