(* ===== verification/Envelope.thy ===== *)
theory Envelope
  imports Json Protocol
begin

text \<open>
  The typed checkpoint envelopes, \<open>src/janus/src/workflow/envelope.rs\<close>: the records, their
  validation, the JSON value that a checkpoint is stored as, and the parser that reads a
  stored checkpoint back and falls back to the format of older versions.

  The serialised form is what the \<open>serde\<close> attributes of the structs prescribe: the member
  names, the members that are skipped when absent, the defaults. The parser of UUIDs is the
  \<open>uuid\<close> crate's and a parameter.
\<close>

section \<open>Envelopes\<close>

datatype envelope_error =
    Validation string
  | Missing_field string
  | Serialization string

record envelope_base =
  eb_status :: string
  eb_summary :: string
  eb_artifacts :: "string list"
  eb_notes_for_next_agent :: string

record build_envelope =
  be_base :: envelope_base
  be_changed_files :: "string list"
  be_commit_hash :: "string option"

record test_envelope =
  te_base :: envelope_base
  te_tests_passed :: nat
  te_tests_failed :: nat
  te_test_suite_name :: string

record checkpoint_envelope =
  ce_version :: "8 word"
  ce_task_id :: uuid
  ce_step_name :: string
  ce_status :: string
  ce_exit_code :: "i32 option"
  ce_hitl_verdict :: "string option"
  ce_noop :: "bool option"
  ce_state_data :: json

definition base_validate :: "envelope_base \<Rightarrow> envelope_error + unit" where
  "base_validate b = (if eb_status b = [] then Inl (Missing_field ''status'') else Inr ())"

definition build_validate :: "build_envelope \<Rightarrow> envelope_error + unit" where
  "build_validate b = base_validate (be_base b)"

definition test_validate :: "test_envelope \<Rightarrow> envelope_error + unit" where
  "test_validate t = base_validate (te_base t)"

definition envelope_new :: "uuid \<Rightarrow> string \<Rightarrow> string \<Rightarrow> i32 option \<Rightarrow> string option \<Rightarrow> json \<Rightarrow>
    checkpoint_envelope" where
  "envelope_new task_id step_name status exit_code hitl_verdict state_data =
     \<lparr>ce_version = 1, ce_task_id = task_id, ce_step_name = step_name, ce_status = status,
      ce_exit_code = exit_code, ce_hitl_verdict = hitl_verdict, ce_noop = None,
      ce_state_data = state_data\<rparr>"

definition with_noop :: "bool \<Rightarrow> checkpoint_envelope \<Rightarrow> checkpoint_envelope" where
  "with_noop b e = e\<lparr>ce_noop := Some b\<rparr>"

definition envelope_validate :: "checkpoint_envelope \<Rightarrow> envelope_error + unit" where
  "envelope_validate e =
     (if ce_step_name e = [] then Inl (Missing_field ''step_name'')
      else if ce_status e = [] then Inl (Missing_field ''status'') else Inr ())"

section \<open>The stored value\<close>

definition opt_member :: "string \<Rightarrow> ('a \<Rightarrow> json) \<Rightarrow> 'a option \<Rightarrow> (string \<times> json) list" where
  "opt_member k f v = (case v of None \<Rightarrow> [] | Some x \<Rightarrow> [(k, f x)])"

definition envelope_to_value :: "checkpoint_envelope \<Rightarrow> json" where
  "envelope_to_value e =
     JObj ([(''version'', JInt (uint (ce_version e))),
            (''task_id'', JStr (uuid_string (ce_task_id e))),
            (''step_name'', JStr (ce_step_name e)),
            (''status'', JStr (ce_status e))] @
           opt_member ''exit_code'' (\<lambda>c. JInt (sint c)) (ce_exit_code e) @
           opt_member ''hitl_verdict'' JStr (ce_hitl_verdict e) @
           opt_member ''noop'' JBool (ce_noop e) @
           (if is_null (ce_state_data e) then [] else [(''state_data'', ce_state_data e)]))"

definition to_checkpoint_value :: "checkpoint_envelope \<Rightarrow> envelope_error + json" where
  "to_checkpoint_value e =
     (case envelope_validate e of Inl err \<Rightarrow> Inl err | Inr _ \<Rightarrow> Inr (envelope_to_value e))"

definition u8_of_json :: "json \<Rightarrow> 8 word option" where
  "u8_of_json v =
     (case v of JInt i \<Rightarrow> if 0 \<le> i \<and> i < 256 then Some (word_of_int i) else None | _ \<Rightarrow> None)"

definition i32_of_json :: "json \<Rightarrow> i32 option" where
  "i32_of_json v =
     (case v of JInt i \<Rightarrow> if - (2 ^ 31) \<le> i \<and> i < 2 ^ 31 then Some (word_of_int i) else None
      | _ \<Rightarrow> None)"

definition uuid_of_json :: "(string \<Rightarrow> uuid option) \<Rightarrow> json \<Rightarrow> uuid option" where
  "uuid_of_json parse_uuid v = Option.bind (as_str v) parse_uuid"

text \<open>An \<open>Option\<close> reads null as absent; the outer \<open>None\<close> is a type error.\<close>

definition opt_of_json :: "(json \<Rightarrow> 'a option) \<Rightarrow> json \<Rightarrow> 'a option option" where
  "opt_of_json f v = (if is_null v then Some None else map_option Some (f v))"

text \<open>The members in the order of the struct, each with its value if it is present; an absent
  optional member is \<open>None\<close> and an absent state is null.\<close>

definition envelope_fields :: "(string \<Rightarrow> uuid option) \<Rightarrow> json option list \<Rightarrow>
    checkpoint_envelope option" where
  "envelope_fields parse_uuid fs =
     (case fs of
        [Some v, Some t, Some n, Some s, x, h, b, d] \<Rightarrow>
          (case (u8_of_json v, uuid_of_json parse_uuid t, as_str n, as_str s,
                 opt_of_json i32_of_json (case x of Some j \<Rightarrow> j | None \<Rightarrow> JNull),
                 opt_of_json as_str (case h of Some j \<Rightarrow> j | None \<Rightarrow> JNull),
                 opt_of_json as_bool (case b of Some j \<Rightarrow> j | None \<Rightarrow> JNull)) of
             (Some v', Some t', Some n', Some s', Some x', Some h', Some b') \<Rightarrow>
               Some \<lparr>ce_version = v', ce_task_id = t', ce_step_name = n', ce_status = s',
                     ce_exit_code = x', ce_hitl_verdict = h', ce_noop = b',
                     ce_state_data = (case d of Some j \<Rightarrow> j | None \<Rightarrow> JNull)\<rparr>
           | _ \<Rightarrow> None)
      | _ \<Rightarrow> None)"

definition envelope_keys :: "string list" where
  "envelope_keys = [''version'', ''task_id'', ''step_name'', ''status'', ''exit_code'',
     ''hitl_verdict'', ''noop'', ''state_data'']"

text \<open>A struct is also read from an array of its members in order, of which only the last one
  has a default.\<close>

definition envelope_from_value :: "(string \<Rightarrow> uuid option) \<Rightarrow> json \<Rightarrow> checkpoint_envelope option" where
  "envelope_from_value parse_uuid v =
     (case v of
        JObj ms \<Rightarrow> envelope_fields parse_uuid (map (map_of ms) envelope_keys)
      | JArr xs \<Rightarrow>
          if length xs = 8 then envelope_fields parse_uuid (map Some xs)
          else if length xs = 7 then envelope_fields parse_uuid (map Some xs @ [None])
          else None
      | _ \<Rightarrow> None)"

definition legacy_checkpoint :: "json \<Rightarrow> uuid \<Rightarrow> checkpoint_envelope" where
  "legacy_checkpoint v default_task_id =
     \<lparr>ce_version = 0, ce_task_id = default_task_id,
      ce_step_name = (case get_str ''step'' v of Some s \<Rightarrow> s | None \<Rightarrow> []),
      ce_status = (case get_str ''status'' v of Some s \<Rightarrow> s | None \<Rightarrow> []),
      ce_exit_code = map_option word_of_int (Option.bind (json_get ''exit'' v) as_i64),
      ce_hitl_verdict = get_str ''hitl_verdict'' v,
      ce_noop = Option.bind (json_get ''noop'' v) as_bool,
      ce_state_data = v\<rparr>"

definition parse_checkpoint :: "(string \<Rightarrow> uuid option) \<Rightarrow> json \<Rightarrow> uuid \<Rightarrow> checkpoint_envelope" where
  "parse_checkpoint parse_uuid v default_task_id =
     (case envelope_from_value parse_uuid v of
        Some e \<Rightarrow> e
      | None \<Rightarrow> legacy_checkpoint v default_task_id)"

section \<open>Round trip\<close>

lemma u8_roundtrip [simp]: "u8_of_json (JInt (uint (b :: 8 word))) = Some b"
  using unsigned_less [of b, where ?'a = int] by (simp add: u8_of_json_def)

lemma i32_roundtrip [simp]: "i32_of_json (JInt (sint c)) = Some c"
  using sint_range_size [of c] by (simp add: i32_of_json_def word_size)

lemma opt_of_json_simps [simp]:
  "opt_of_json f JNull = Some None"
  "opt_of_json f (JInt i) = map_option Some (f (JInt i))"
  "opt_of_json f (JStr s) = map_option Some (f (JStr s))"
  "opt_of_json f (JBool b) = map_option Some (f (JBool b))"
  by (simp_all add: opt_of_json_def is_null_def)

lemma envelope_roundtrip:
  assumes "parse_uuid (uuid_string (ce_task_id e)) = Some (ce_task_id e)"
  shows "envelope_from_value parse_uuid (envelope_to_value e) = Some e"
  using assms
  by (cases "ce_exit_code e"; cases "ce_hitl_verdict e"; cases "ce_noop e"; cases "is_null (ce_state_data e)")
     (simp_all add: envelope_from_value_def envelope_to_value_def envelope_keys_def opt_member_def
        envelope_fields_def uuid_of_json_def as_bool_def is_null_def)

text \<open>C37: a checkpoint that the engine writes is read back as the envelope that was written,
  whatever default task id the reader supplies; only the UUID crate's own round trip is
  assumed. Validation stops exactly the envelopes without a step name or a status.\<close>

theorem checkpoint_roundtrip:
  assumes "parse_uuid (uuid_string (ce_task_id e)) = Some (ce_task_id e)"
  shows "(case to_checkpoint_value e of
            Inr v \<Rightarrow> parse_checkpoint parse_uuid v d = e
          | Inl err \<Rightarrow> (ce_step_name e = [] \<and> err = Missing_field ''step_name'') \<or>
              (ce_step_name e \<noteq> [] \<and> ce_status e = [] \<and> err = Missing_field ''status''))"
  using envelope_roundtrip [of parse_uuid e] assms
  by (simp add: to_checkpoint_value_def envelope_validate_def parse_checkpoint_def)

definition sample_envelope :: checkpoint_envelope where
  "sample_envelope = envelope_new 7 ''build'' ''COMPLETED'' (Some (- 1)) None (JObj [(''k'', JInt 3)])"

lemma checkpoint_roundtrip_witness:
  "\<exists>v. to_checkpoint_value sample_envelope = Inr v \<and>
     parse_checkpoint (\<lambda>s. if s = uuid_string 7 then Some 7 else None) v 0 = sample_envelope"
proof -
  let ?p = "\<lambda>s. if s = uuid_string 7 then Some (7 :: uuid) else None"
  have id: "ce_task_id sample_envelope = 7" by (simp add: sample_envelope_def envelope_new_def)
  have "to_checkpoint_value sample_envelope = Inr (envelope_to_value sample_envelope)"
    by (simp add: to_checkpoint_value_def envelope_validate_def sample_envelope_def envelope_new_def)
  then show ?thesis
    using checkpoint_roundtrip [of ?p sample_envelope 0] id by simp
qed

text \<open>A checkpoint in the old format, an object that has a \<open>step\<close> and a \<open>status\<close> but no
  \<open>version\<close>, is read as a version 0 envelope of the default task with that step and status,
  the exit code taken modulo 2^32, and the whole object kept as its state.\<close>

theorem legacy_checkpoint_parse:
  assumes "map_of ms ''version'' = None"
    and "map_of ms ''step'' = Some (JStr n)" and "map_of ms ''status'' = Some (JStr s)"
  shows "parse_checkpoint parse_uuid (JObj ms) d =
     \<lparr>ce_version = 0, ce_task_id = d, ce_step_name = n, ce_status = s,
      ce_exit_code = (case map_of ms ''exit'' of
         Some (JInt i) \<Rightarrow> if - (2 ^ 63) \<le> i \<and> i < 2 ^ 63 then Some (word_of_int i) else None
       | _ \<Rightarrow> None),
      ce_hitl_verdict = (case map_of ms ''hitl_verdict'' of Some (JStr h) \<Rightarrow> Some h | _ \<Rightarrow> None),
      ce_noop = (case map_of ms ''noop'' of Some (JBool b) \<Rightarrow> Some b | _ \<Rightarrow> None),
      ce_state_data = JObj ms\<rparr>"
proof -
  have "envelope_from_value parse_uuid (JObj ms) = None"
    using assms(1) by (simp add: envelope_from_value_def envelope_keys_def envelope_fields_def)
  then show ?thesis
    using assms(2,3)
    by (auto simp: parse_checkpoint_def legacy_checkpoint_def get_str_def as_i64_def as_str_def
        as_bool_def split: option.splits json.splits)
qed

lemma legacy_checkpoint_parse_witness:
  "ce_step_name (parse_checkpoint (\<lambda>_. None)
     (JObj [(''step'', JStr ''build''), (''status'', JStr ''COMPLETED'')]) 9) = ''build''"
  using legacy_checkpoint_parse [of "[(''step'', JStr ''build''), (''status'', JStr ''COMPLETED'')]"
      "''build''" "''COMPLETED''" "\<lambda>_. None" 9] by simp

end
