(* ===== verification/Pty_Filter.thy ===== *)
theory Pty_Filter
  imports Protocol
begin

text \<open>
  The filter for captured terminal output, \<open>src/janus/src/workflow/filter.rs\<close>: escape
  sequences are removed from the bytes, runs of progress lines become one summary and
  runs of equal lines become one annotated line. The index loops of the code are
  recursions on the rest of the input.

  The lemmas show what each stage keeps: which escape bytes can survive, and that the two
  line stages replace consecutive blocks of lines by one line each, so that nothing outside
  a run is lost or reordered.
\<close>

section \<open>Escape sequences\<close>

definition esc :: char where
  "esc = CHR 0x1B"

definition is_csi_terminator :: "char \<Rightarrow> bool" where
  "is_csi_terminator b = (0x40 \<le> byte b \<and> byte b \<le> 0x7E)"

definition after_csi :: "string \<Rightarrow> string" where
  "after_csi s = drop 1 (dropWhile (\<lambda>b. \<not> is_csi_terminator b) s)"

definition after_osc :: "string \<Rightarrow> string" where
  "after_osc s =
     (case dropWhile (\<lambda>b. b \<noteq> CHR 0x07 \<and> b \<noteq> esc) s of
        [] \<Rightarrow> []
      | [a] \<Rightarrow> []
      | a # b # t \<Rightarrow> if a = esc \<and> b = CHR 0x5C then t else b # t)"

lemma length_after_csi: "length (after_csi s) \<le> length s"
  using length_dropWhile_le [of "\<lambda>b. \<not> is_csi_terminator b" s] by (simp add: after_csi_def)

lemma length_after_osc: "length (after_osc s) \<le> length s"
  using length_dropWhile_le [of "\<lambda>b. b \<noteq> CHR 0x07 \<and> b \<noteq> esc" s]
  by (auto simp: after_osc_def split: list.splits)

function strip_bytes :: "string \<Rightarrow> string" where
  "strip_bytes [] = []"
| "strip_bytes [c] = [c]"
| "strip_bytes (c # d # s) =
     (if c = esc then
        (if d = CHR ''['' then strip_bytes (after_csi s)
         else if d = CHR '']'' then strip_bytes (after_osc s)
         else strip_bytes s)
      else c # strip_bytes (d # s))"
  by pat_completeness auto
termination
proof (relation "measure length")
  fix s :: string
  show "(after_csi s, c # d # s) \<in> measure length" "(after_osc s, c # d # s) \<in> measure length" for c d
    using length_after_csi [of s] length_after_osc [of s] by simp_all
qed simp_all

definition strip_ansi :: "string \<Rightarrow> string" where
  "strip_ansi s = trim (from_utf8_lossy (strip_bytes s))"

text \<open>A text whose only escape byte, if any, is its last byte.\<close>

definition esc_last :: "string \<Rightarrow> bool" where
  "esc_last s = (esc \<notin> set (butlast s))"

lemma esc_last_strip_bytes: "esc_last (strip_bytes s)"
  by (induction s rule: strip_bytes.induct) (auto simp: esc_last_def)

lemma esc_last_append:
  "t \<noteq> [] \<Longrightarrow> esc_last (s @ t) \<longleftrightarrow> esc \<notin> set s \<and> esc_last t"
  by (simp add: esc_last_def butlast_append)

lemma esc_last_appendI: "esc \<notin> set s \<Longrightarrow> esc_last t \<Longrightarrow> esc_last (s @ t)"
  by (cases "t = []") (auto simp: esc_last_append, auto simp: esc_last_def dest: in_set_butlastD)

lemma esc_last_sublist:
  assumes "sublist t s" and "esc_last s"
  shows "esc_last t"
proof (cases "t = []")
  case False
  obtain a b where s: "s = a @ t @ b" using assms(1) by (auto simp: sublist_def)
  from False obtain u c where t: "t = u @ [c]" by (metis rev_exhaust)
  from s t have "s = (a @ u) @ (c # b)" by simp
  with assms(2) have "esc \<notin> set (a @ u)" using esc_last_append [of "c # b" "a @ u"] by blast
  with t show ?thesis by (simp add: esc_last_def)
qed (simp add: esc_last_def)

lemma esc_not_replacement: "esc \<notin> set replacement_char"
  by (auto simp: esc_def replacement_char_def dest: arg_cong [where f = byte])

lemma from_utf8_lossy_Nil [simp]: "from_utf8_lossy [] = []"
  by (simp add: from_utf8_lossy.simps)

lemma esc_last_lossy: "esc_last s \<Longrightarrow> esc_last (from_utf8_lossy s)"
proof (induction s rule: from_utf8_lossy.induct)
  case (1 s)
  show ?case
  proof (cases "s = []")
    case True
    then show ?thesis by (simp add: esc_last_def)
  next
    case False
    let ?n = "snd (utf8_step s)" and ?chunk = "if fst (utf8_step s) then take (snd (utf8_step s)) s else replacement_char"
    have eq: "from_utf8_lossy s = ?chunk @ from_utf8_lossy (drop ?n s)"
      using False by (subst from_utf8_lossy.simps) (simp add: Let_def)
    show ?thesis
    proof (cases "drop ?n s = []")
      case True
      then have "?chunk = s \<or> ?chunk = replacement_char" by simp
      with True 1(2) esc_not_replacement show ?thesis
        unfolding eq by (auto simp: esc_last_def dest: in_set_butlastD)
    next
      case rest: False
      have "esc_last (take ?n s @ drop ?n s)" using 1(2) by simp
      with rest have "esc \<notin> set (take ?n s)" "esc_last (drop ?n s)"
        unfolding esc_last_append [OF rest] by blast+
      moreover have "esc_last (from_utf8_lossy (drop ?n s))"
        using 1(1) [OF False refl] \<open>esc_last (drop ?n s)\<close> by blast
      moreover have "esc \<notin> set ?chunk"
        using \<open>esc \<notin> set (take ?n s)\<close> esc_not_replacement by simp
      ultimately show ?thesis
        unfolding eq by (intro esc_last_appendI)
    qed
  qed
qed

text \<open>No escape sequence survives: the only escape byte that the stripped text can hold is
  one at its very end, which a lone trailing ESC leaves.\<close>

theorem strip_ansi_no_escape: "esc \<notin> set (butlast (strip_ansi s))"
  using esc_last_sublist [OF trim_sublist esc_last_lossy [OF esc_last_strip_bytes]]
  by (simp add: strip_ansi_def esc_last_def)

section \<open>Progress lines\<close>

definition find_pct_word :: "string list \<Rightarrow> nat option" where
  "find_pct_word ws = List.fold (\<lambda>w acc. case acc of Some p \<Rightarrow> Some p | None \<Rightarrow>
     (case strip_suffix ''%'' w of
        Some t \<Rightarrow> (case parse_u32 t of Some p \<Rightarrow> if p \<le> 100 then Some p else None | None \<Rightarrow> None)
      | None \<Rightarrow> None)) ws None"

definition pct_at_end :: "string \<Rightarrow> nat option" where
  "pct_at_end trimmed =
     (case strip_suffix ''%'' trimmed of
        Some t \<Rightarrow>
          (case parse_u32 (trim t) of Some p \<Rightarrow> if p \<le> 100 then Some p else None | None \<Rightarrow> None)
      | None \<Rightarrow> None)"

definition extract_progress_pct :: "string \<Rightarrow> nat option" where
  "extract_progress_pct line =
     (let trimmed = trim line in
      case pct_at_end trimmed of
        Some p \<Rightarrow> Some p
      | None \<Rightarrow> find_pct_word (split_whitespace trimmed))"

lemma find_pct_word_bound: "find_pct_word ws = Some p \<Longrightarrow> p \<le> 100"
  unfolding find_pct_word_def
  by (induction ws rule: rev_induct) (auto split: option.splits if_splits)

lemma extract_progress_pct_bound: "extract_progress_pct l = Some p \<Longrightarrow> p \<le> 100"
  by (auto simp: extract_progress_pct_def pct_at_end_def Let_def
      dest: find_pct_word_bound split: option.splits if_splits)

definition progress_summary :: "nat \<Rightarrow> nat \<Rightarrow> nat \<Rightarrow> string" where
  "progress_summary a b n =
     ''[MetaMach: progress '' @ dec a @ ''% '' @ [bchr 0xE2, bchr 0x86, bchr 0x92] @ '' '' @ dec b @
     ''% ('' @ dec n @ '' lines collapsed)]''"

function collapse_lines :: "string list \<Rightarrow> string list" where
  "collapse_lines [] = []"
| "collapse_lines (l # ls) =
     (case extract_progress_pct l of
        None \<Rightarrow> l # collapse_lines ls
      | Some a \<Rightarrow>
          (let run = takeWhile (\<lambda>x. extract_progress_pct x \<noteq> None) ls;
               b = fold (\<lambda>x acc. case extract_progress_pct x of Some p \<Rightarrow> p | None \<Rightarrow> acc) run a in
           (if run \<noteq> [] then progress_summary a b (1 + length run) else l) #
             collapse_lines (drop (length run) ls)))"
  by pat_completeness auto
termination
  by (relation "measure length") auto

definition collapse_progress_bars :: "string \<Rightarrow> string" where
  "collapse_progress_bars s =
     (let ls = lines s in if length ls < 2 then s else join [newline] (collapse_lines ls))"

section \<open>Repeated lines\<close>

definition annotate :: "string \<Rightarrow> nat \<Rightarrow> string" where
  "annotate l n =
     (if 1 < n then l @ '' ('' @ [bchr 0xC3, bchr 0x97] @ dec n @ '')'' else l)"

function dedup_lines :: "string list \<Rightarrow> string list" where
  "dedup_lines [] = []"
| "dedup_lines (l # ls) =
     (let count = 1 + length (takeWhile (\<lambda>x. x = l) ls) in
      annotate l count # dedup_lines (drop (count - 1) ls))"
  by pat_completeness auto
termination
  by (relation "measure length") auto

definition deduplicate_lines :: "string \<Rightarrow> string" where
  "deduplicate_lines s = join [newline] (dedup_lines (lines s))"

definition clean_pty_output :: "string \<Rightarrow> string" where
  "clean_pty_output raw = deduplicate_lines (collapse_progress_bars (strip_ansi raw))"

text \<open>A run is a block of consecutive lines; the block that a progress run covers holds
  progress lines only.\<close>

definition progress_block :: "string list \<Rightarrow> string \<Rightarrow> bool" where
  "progress_block block l =
     (block = [l] \<or>
      (2 \<le> length block \<and> (\<forall>x \<in> set block. extract_progress_pct x \<noteq> None) \<and>
       l = progress_summary (the (extract_progress_pct (hd block)))
             (the (extract_progress_pct (last block))) (length block)))"

lemma fold_last_pct:
  "\<forall>x \<in> set run. extract_progress_pct x \<noteq> None \<Longrightarrow> run \<noteq> [] \<Longrightarrow>
     fold (\<lambda>x acc. case extract_progress_pct x of Some p \<Rightarrow> p | None \<Rightarrow> acc) run a =
       the (extract_progress_pct (last run))"
  by (induction run rule: rev_induct) (auto split: option.splits)

lemma collapse_lines_blocks:
  "\<exists>blocks. concat blocks = ls \<and> list_all2 progress_block blocks (collapse_lines ls)"
proof (induction ls rule: collapse_lines.induct)
  case (2 l ls)
  show ?case
  proof (cases "extract_progress_pct l")
    case None
    with 2(1) obtain blocks where "concat blocks = ls" "list_all2 progress_block blocks (collapse_lines ls)"
      by blast
    with None show ?thesis by (intro exI [of _ "[l] # blocks"]) (simp add: progress_block_def [of "[l]"])
  next
    case (Some a)
    let ?run = "takeWhile (\<lambda>x. extract_progress_pct x \<noteq> None) ls"
    from 2(2) [OF Some refl refl] obtain blocks where
        b: "concat blocks = drop (length ?run) ls"
           "list_all2 progress_block blocks (collapse_lines (drop (length ?run) ls))" by blast
    have run: "\<forall>x \<in> set ?run. extract_progress_pct x \<noteq> None" by (auto dest: set_takeWhileD)
    have "?run @ drop (length ?run) ls = ls" by (metis dropWhile_eq_drop takeWhile_dropWhile_id)
    moreover have "progress_block (l # ?run) (hd (collapse_lines (l # ls)))"
      using Some run fold_last_pct [OF run, of a] by (auto simp: progress_block_def Let_def Suc_le_eq)
    ultimately show ?thesis
      using Some b by (intro exI [of _ "(l # ?run) # blocks"]) (simp add: Let_def)
  qed
qed simp

lemma dedup_lines_runs:
  "\<exists>runs. concat (map (\<lambda>(l, n). replicate n l) runs) = ls \<and>
     dedup_lines ls = map (\<lambda>(l, n). annotate l n) runs \<and> (\<forall>(l, n) \<in> set runs. 0 < n) \<and>
     distinct_adj (map fst runs) \<and> (ls \<noteq> [] \<longrightarrow> runs \<noteq> [] \<and> fst (hd runs) = hd ls)"
proof (induction ls rule: dedup_lines.induct)
  case (2 l ls)
  let ?run = "takeWhile (\<lambda>x. x = l) ls"
  from 2 [OF refl] obtain runs where
      r: "concat (map (\<lambda>(l, n). replicate n l) runs) = drop (length ?run) ls"
         "dedup_lines (drop (length ?run) ls) = map (\<lambda>(l, n). annotate l n) runs"
         "\<forall>(l, n) \<in> set runs. 0 < n" "distinct_adj (map fst runs)"
         "drop (length ?run) ls \<noteq> [] \<longrightarrow> runs \<noteq> [] \<and> fst (hd runs) = hd (drop (length ?run) ls)"
    by auto
  have run: "?run = replicate (length ?run) l"
    by (rule replicate_eqI) (auto dest: set_takeWhileD)
  have split: "?run @ drop (length ?run) ls = ls" by (metis dropWhile_eq_drop takeWhile_dropWhile_id)
  have "fst (hd runs) \<noteq> l" if "runs \<noteq> []"
  proof -
    from that r(1,3) have "drop (length ?run) ls \<noteq> []" by (cases runs) auto
    then show ?thesis using r(5) hd_dropWhile [of "\<lambda>x. x = l" ls] by (simp add: dropWhile_eq_drop)
  qed
  with r(4) have "distinct_adj (map fst ((l, 1 + length ?run) # runs))"
    by (cases runs) auto
  moreover have "concat (map (\<lambda>(l, n). replicate n l) ((l, 1 + length ?run) # runs)) = l # ls"
    using r(1) run split by simp
  ultimately show ?case
    using r(2,3) by (intro exI [of _ "(l, 1 + length ?run) # runs"]) (simp add: Let_def)
qed simp

text \<open>Collapsing cuts the lines into consecutive blocks, each kept as it is or, when it
  holds at least two progress lines and nothing else, replaced by its summary; and
  deduplication is the run-length encoding of the lines. No line outside a run is dropped,
  changed or moved.\<close>

theorem clean_stages:
  "(length (lines s) < 2 \<and> collapse_progress_bars s = s \<or>
    (\<exists>blocks out. collapse_progress_bars s = join [newline] out \<and> concat blocks = lines s \<and>
       list_all2 progress_block blocks out)) \<and>
   (\<exists>runs. deduplicate_lines t = join [newline] (map (\<lambda>(l, n). annotate l n) runs) \<and>
     concat (map (\<lambda>(l, n). replicate n l) runs) = lines t \<and>
     (\<forall>r \<in> set runs. 0 < snd r) \<and> distinct_adj (map fst runs))"
proof
  show "length (lines s) < 2 \<and> collapse_progress_bars s = s \<or>
    (\<exists>blocks out. collapse_progress_bars s = join [newline] out \<and> concat blocks = lines s \<and>
       list_all2 progress_block blocks out)"
    using collapse_lines_blocks [of "lines s"] unfolding collapse_progress_bars_def Let_def
    by (cases "length (lines s) < 2") auto
  show "\<exists>runs. deduplicate_lines t = join [newline] (map (\<lambda>(l, n). annotate l n) runs) \<and>
     concat (map (\<lambda>(l, n). replicate n l) runs) = lines t \<and>
     (\<forall>r \<in> set runs. 0 < snd r) \<and> distinct_adj (map fst runs)"
    using dedup_lines_runs [of "lines t"] unfolding deduplicate_lines_def
    by (elim exE conjE) (intro exI conjI, auto)
qed

lemma clean_stages_witness:
  "deduplicate_lines (''A'' @ [newline] @ ''A'') =
     join [newline] (map (\<lambda>(l, n). annotate l n) [(''A'', 2)]) \<and>
   (\<exists>runs. concat (map (\<lambda>(l, n). replicate n l) runs) = lines (''A'' @ [newline] @ ''A''))"
proof
  show "deduplicate_lines (''A'' @ [newline] @ ''A'') =
     join [newline] (map (\<lambda>(l, n). annotate l n) [(''A'', 2)])" by code_simp
  show "\<exists>runs. concat (map (\<lambda>(l, n). replicate n l) runs) = lines (''A'' @ [newline] @ ''A'')"
    using clean_stages [of "[]" "''A'' @ [newline] @ ''A''"] by blast
qed

end
