(* ===== verification/Tmux.thy ===== *)
theory Tmux
  imports Prelude "HOL-Library.AList"
begin

text \<open>
  The physical execution engine, \<open>src/janus/src/tmux/mod.rs\<close>: session names, the backend
  trait, the backend that drives \<open>tmux\<close> (locally, or over \<open>ssh\<close>), the factory that picks a
  backend per host, and the two in-memory backends of the unit tests.

  The trait is a record of operations on a state of type \<open>'b\<close>. Running a program is a
  parameter, a function from the program and its arguments to an effect that fails when the
  process cannot be started and otherwise returns its output; the model says which commands
  are issued, in which order, and how their output is read. What clients rely on is the
  locale \<open>session_backend\<close>.
\<close>

section \<open>Sessions and the trait\<close>

type_synonym exit_code = "32 word"

definition TMUX_SOCKET :: string where
  "TMUX_SOCKET = ''metamach-tmux''"

definition SESSION_PREFIX :: string where
  "SESSION_PREFIX = ''tmux-janus-task-''"

datatype session_id = SessionId (sid_str: string)

definition new_for_task :: "string \<Rightarrow> session_id" where
  "new_for_task task_uuid = SessionId (SESSION_PREFIX @ task_uuid)"

record 'b backend =
  create_session :: "session_id \<Rightarrow> string \<Rightarrow> string option \<Rightarrow> (string, 'b, unit) io"
  attach :: "session_id \<Rightarrow> (string, 'b, unit) io"
  kill_session :: "session_id \<Rightarrow> (string, 'b, unit) io"
  has_session :: "session_id \<Rightarrow> (string, 'b, bool) io"
  list_sessions :: "(string, 'b, string list) io"
  capture_pane :: "session_id \<Rightarrow> (string, 'b, string) io"
  poll_exit :: "session_id \<Rightarrow> (string, 'b, exit_code option) io"

type_synonym 'b factory = "string option \<Rightarrow> (string, 'b, 'b backend) io"

text \<open>What the workflow engine relies on: which sessions are alive changes only as created
  and killed sessions say.\<close>

locale session_backend =
  fixes bk :: "'b backend" and alive :: "'b \<Rightarrow> string set"
  assumes create_alive: "create_session bk i cmd cwd w = Some (Inr u, w') \<Longrightarrow>
      alive w' = insert (sid_str i) (alive w)"
    and create_err: "create_session bk i cmd cwd w = Some (Inl e, w') \<Longrightarrow>
      alive w' \<subseteq> insert (sid_str i) (alive w)"
    and kill_alive: "kill_session bk i w = Some (Inr u, w') \<Longrightarrow> alive w' = alive w - {sid_str i}"
    and kill_err: "kill_session bk i w = Some (Inl e, w') \<Longrightarrow> alive w' = alive w"
    and list_alive: "list_sessions bk w = Some (r, w') \<Longrightarrow>
      alive w' = alive w \<and> (\<forall>xs. r = Inr xs \<longrightarrow> set xs = alive w)"
    and capture_keeps: "keeps (\<lambda>w w'. alive w' = alive w) (capture_pane bk i)"
    and poll_keeps: "keeps (\<lambda>w w'. alive w' = alive w) (poll_exit bk i)"

section \<open>Errors\<close>

datatype tmux_error = TmuxNotFound | NotFound string | Command string

definition tmux_error_string :: "tmux_error \<Rightarrow> string" where
  "tmux_error_string e =
     (case e of
        TmuxNotFound \<Rightarrow> ''tmux binary not found on PATH (install tmux 3.3+)''
      | NotFound s \<Rightarrow> ''session '' @ s @ '' not found''
      | Command s \<Rightarrow> ''tmux command failed: '' @ s)"

definition bail :: "tmux_error \<Rightarrow> (string, 'w, 'a) io" where
  "bail e = fail (tmux_error_string e)"

section \<open>The tmux backend\<close>

record ssh_target =
  sh_host :: string
  sh_user :: "string option"

record tmux_backend =
  tb_tmux :: string
  tb_ssh :: "ssh_target option"
  tb_socket :: "string option"

record cmd_output =
  co_success :: bool
  co_status :: string
  co_stdout :: string
  co_stderr :: string

type_synonym 'w runner = "string \<Rightarrow> string list \<Rightarrow> (string, 'w, cmd_output) io"

text \<open>\<open>resolve_tmux\<close>: the first executable \<open>tmux\<close> of the search path, then of four fixed
  directories, then the bare name.\<close>

fun split_on :: "char \<Rightarrow> string \<Rightarrow> string \<Rightarrow> string list" where
  "split_on sep cur [] = [cur]"
| "split_on sep cur (c # cs) =
     (if c = sep then cur # split_on sep [] cs else split_on sep (cur @ [c]) cs)"

definition split_paths :: "string \<Rightarrow> string list" where
  "split_paths s = split_on (CHR '':'') [] s"

definition resolve_tmux :: "string option \<Rightarrow> (string \<Rightarrow> bool) \<Rightarrow> string" where
  "resolve_tmux path_env is_executable =
     (let dirs = (case path_env of Some p \<Rightarrow> split_paths p | None \<Rightarrow> []) @
            [''/usr/bin'', ''/bin'', ''/opt/homebrew/bin'', ''/usr/local/bin''] in
      case List.find is_executable (map (\<lambda>d. path_join d ''tmux'') dirs) of
        Some candidate \<Rightarrow> candidate | None \<Rightarrow> ''tmux'')"

definition tmux_new :: "string \<Rightarrow> tmux_backend" where
  "tmux_new tmux = \<lparr>tb_tmux = tmux, tb_ssh = None, tb_socket = None\<rparr>"

definition with_socket :: "string \<Rightarrow> string \<Rightarrow> tmux_backend" where
  "with_socket tmux socket_name = \<lparr>tb_tmux = tmux, tb_ssh = None, tb_socket = Some socket_name\<rparr>"

definition with_ssh :: "string \<Rightarrow> string \<Rightarrow> string option \<Rightarrow> tmux_backend" where
  "with_ssh tmux host user =
     \<lparr>tb_tmux = tmux, tb_ssh = Some \<lparr>sh_host = host, sh_user = user\<rparr>, tb_socket = None\<rparr>"

definition is_remote :: "tmux_backend \<Rightarrow> bool" where
  "is_remote tb = (tb_ssh tb \<noteq> None)"

definition ssh_options :: "string list" where
  "ssh_options = [''-o'', ''BatchMode=yes'', ''-o'', ''ConnectTimeout=5'', ''-o'',
     ''StrictHostKeyChecking=accept-new'']"

definition ssh_login :: "string option \<Rightarrow> string list" where
  "ssh_login user = (case user of Some u \<Rightarrow> [''-l'', u] | None \<Rightarrow> [])"

text \<open>The program and the arguments of a control command; \<open>sock_env\<close> is the value of
  \<open>JANUS_TMUX_SOCKET\<close>.\<close>

definition tmux_cmd :: "string option \<Rightarrow> tmux_backend \<Rightarrow> string list \<Rightarrow> string \<times> string list" where
  "tmux_cmd sock_env tb args =
     (let socket_name = (case tb_socket tb of Some s \<Rightarrow> s
            | None \<Rightarrow> (case sock_env of Some s \<Rightarrow> s | None \<Rightarrow> TMUX_SOCKET)) in
      case tb_ssh tb of
        None \<Rightarrow> (tb_tmux tb, [''-L'', socket_name] @ args)
      | Some ssh \<Rightarrow> (''ssh'', ssh_options @ ssh_login (sh_user ssh) @ [sh_host ssh, ''tmux''] @
           [''-L'', socket_name] @ args))"

definition tmux_run :: "'w runner \<Rightarrow> string option \<Rightarrow> tmux_backend \<Rightarrow> string list \<Rightarrow>
    (string, 'w, cmd_output) io" where
  "tmux_run exec sock_env tb args =
     (if tb_tmux tb = [] \<and> tb_ssh tb = None then bail TmuxNotFound
      else
        with_context
          (case tb_ssh tb of
             Some ssh \<Rightarrow> ''spawn ssh '' @ sh_host ssh @ '' tmux''
           | None \<Rightarrow> ''spawn tmux ('' @ tb_tmux tb @ '')'')
          (exec (fst (tmux_cmd sock_env tb args)) (snd (tmux_cmd sock_env tb args))))"

definition lossy_stderr :: "cmd_output \<Rightarrow> string" where
  "lossy_stderr out = trim (from_utf8_lossy (co_stderr out))"

text \<open>A control command whose failure is an error.\<close>

definition run_ok :: "'w runner \<Rightarrow> string option \<Rightarrow> tmux_backend \<Rightarrow> string list \<Rightarrow>
    (string, 'w, cmd_output) io" where
  "run_ok exec sock_env tb args =
     bindE (tmux_run exec sock_env tb args) (\<lambda>out.
       if co_success out then ret out else bail (Command (lossy_stderr out)))"

definition new_session_args :: "session_id \<Rightarrow> string option \<Rightarrow> string list" where
  "new_session_args i cwd =
     [''new-session'', ''-d'', ''-s'', sid_str i] @ (case cwd of Some d \<Rightarrow> [''-c'', d] | None \<Rightarrow> []) @
     [''sleep 3600'']"

definition remain_args :: "session_id \<Rightarrow> string list" where
  "remain_args i = [''set-option'', ''-t'', sid_str i, ''remain-on-exit'', ''on'']"

definition respawn_args :: "session_id \<Rightarrow> string \<Rightarrow> string list" where
  "respawn_args i command = [''respawn-pane'', ''-t'', sid_str i, ''-k'', command]"

definition tm_create_session :: "'w runner \<Rightarrow> string option \<Rightarrow> tmux_backend \<Rightarrow> session_id \<Rightarrow>
    string \<Rightarrow> string option \<Rightarrow> (string, 'w, unit) io" where
  "tm_create_session exec sock_env tb i command cwd =
     bindE (run_ok exec sock_env tb (new_session_args i cwd)) (\<lambda>_.
     bindE (run_ok exec sock_env tb (remain_args i)) (\<lambda>_.
     bindE (run_ok exec sock_env tb (respawn_args i command)) (\<lambda>_. ret ())))"

definition tm_has_session :: "'w runner \<Rightarrow> string option \<Rightarrow> tmux_backend \<Rightarrow> session_id \<Rightarrow>
    (string, 'w, bool) io" where
  "tm_has_session exec sock_env tb i =
     bindE (tmux_run exec sock_env tb [''has-session'', ''-t'', sid_str i]) (\<lambda>out. ret (co_success out))"

definition tm_attach :: "'w runner \<Rightarrow> string option \<Rightarrow> tmux_backend \<Rightarrow> session_id \<Rightarrow>
    (string, 'w, unit) io" where
  "tm_attach exec sock_env tb i =
     bindE (tm_has_session exec sock_env tb i) (\<lambda>alive.
       if \<not> alive then bail (NotFound (sid_str i))
       else
         let cmd = tmux_cmd sock_env tb [''attach-session'', ''-t'', sid_str i] in
         bindE (with_context ''spawn tmux attach'' (exec (fst cmd) (snd cmd))) (\<lambda>status.
           if co_success status then ret ()
           else bail (Command (''attach exited '' @ co_status status))))"

definition tm_kill_session :: "'w runner \<Rightarrow> string option \<Rightarrow> tmux_backend \<Rightarrow> session_id \<Rightarrow>
    (string, 'w, unit) io" where
  "tm_kill_session exec sock_env tb i =
     bindE (tmux_run exec sock_env tb [''kill-session'', ''-t'', sid_str i]) (\<lambda>_. ret ())"

definition tm_list_sessions :: "'w runner \<Rightarrow> string option \<Rightarrow> tmux_backend \<Rightarrow>
    (string, 'w, string list) io" where
  "tm_list_sessions exec sock_env tb =
     bindE (tmux_run exec sock_env tb [''list-sessions'', ''-F'', ''#{session_name}'']) (\<lambda>out.
       if co_success out
       then ret (filter (\<lambda>l. l \<noteq> []) (lines (from_utf8_lossy (co_stdout out))))
       else ret [])"

definition tm_capture_pane :: "'w runner \<Rightarrow> string option \<Rightarrow> tmux_backend \<Rightarrow> session_id \<Rightarrow>
    (string, 'w, string) io" where
  "tm_capture_pane exec sock_env tb i =
     bindE (run_ok exec sock_env tb [''capture-pane'', ''-p'', ''-t'', sid_str i]) (\<lambda>out.
       ret (from_utf8_lossy (co_stdout out)))"

definition parse_pane_status :: "string \<Rightarrow> exit_code option" where
  "parse_pane_status s =
     (let (dead, status) =
        (case split_once '':'' (trim s) of Some p \<Rightarrow> p | None \<Rightarrow> (trim s, [])) in
      if trim dead = ''1''
      then Some (case parse_signed 32 (trim status) of Some c \<Rightarrow> word_of_int c | None \<Rightarrow> 0)
      else None)"

definition tm_poll_exit :: "'w runner \<Rightarrow> string option \<Rightarrow> tmux_backend \<Rightarrow> session_id \<Rightarrow>
    (string, 'w, exit_code option) io" where
  "tm_poll_exit exec sock_env tb i =
     bindE (run_ok exec sock_env tb
       [''display-message'', ''-p'', ''-t'', sid_str i, ''#{pane_dead}:#{pane_dead_status}'']) (\<lambda>out.
       ret (parse_pane_status (from_utf8_lossy (co_stdout out))))"

definition tmux_ops :: "'w runner \<Rightarrow> string option \<Rightarrow> tmux_backend \<Rightarrow> 'w backend" where
  "tmux_ops exec sock_env tb =
     \<lparr>create_session = tm_create_session exec sock_env tb, attach = tm_attach exec sock_env tb,
      kill_session = tm_kill_session exec sock_env tb, has_session = tm_has_session exec sock_env tb,
      list_sessions = tm_list_sessions exec sock_env tb,
      capture_pane = tm_capture_pane exec sock_env tb, poll_exit = tm_poll_exit exec sock_env tb\<rparr>"

section \<open>The factory\<close>

text \<open>The state of the factory and of the processes behind it; a tunnel is present or could
  not be started.\<close>

record 'p tmux_world =
  tw_remote :: "(string \<times> bool) list"
  tw_procs :: 'p

definition on_procs :: "(string, 'p, 'a) io \<Rightarrow> (string, 'p tmux_world, 'a) io" where
  "on_procs m w = map_option (\<lambda>(r, p). (r, w\<lparr>tw_procs := p\<rparr>)) (m (tw_procs w))"

definition reverse_tunnel_args :: "string \<Rightarrow> string option \<Rightarrow> string \<Rightarrow> string list" where
  "reverse_tunnel_args host user local_sock =
     [''-N''] @ ssh_options @ ssh_login user @
     [''-R'', ''/tmp/mm-'' @ host @ ''.sock:'' @ local_sock, host]"

definition factory_get :: "(string \<Rightarrow> string list \<Rightarrow> (string, 'p, unit) io) \<Rightarrow> 'p runner \<Rightarrow>
    string option \<Rightarrow> string \<Rightarrow> string option \<Rightarrow> string \<Rightarrow> 'p tmux_world factory" where
  "factory_get spawn exec sock_env tmux user local_sock host =
     (let run = (\<lambda>p a. on_procs (exec p a)) in
      case host of
        None \<Rightarrow> ret (tmux_ops run sock_env (tmux_new tmux))
      | Some h \<Rightarrow>
          bindE (gets (\<lambda>w. map_of (tw_remote w) h)) (\<lambda>cached.
          bindE
            (case cached of
               Some _ \<Rightarrow> ret ()
             | None \<Rightarrow>
                 bindE (attempt (on_procs (spawn ''ssh'' (reverse_tunnel_args h user local_sock))))
                   (\<lambda>tunnel. modify (\<lambda>w. w\<lparr>tw_remote := (h, \<not> isl tunnel) # tw_remote w\<rparr>)))
            (\<lambda>_. ret (tmux_ops run sock_env (with_ssh tmux h user)))))"

text \<open>Dropping the factory kills every tunnel.\<close>

definition factory_drop :: "(string \<Rightarrow> 'p \<Rightarrow> 'p) \<Rightarrow> 'p tmux_world \<Rightarrow> 'p tmux_world" where
  "factory_drop kill_tunnel w =
     \<lparr>tw_remote = [], tw_procs = fold kill_tunnel (map fst (filter snd (tw_remote w))) (tw_procs w)\<rparr>"

section \<open>Restarting a session\<close>

definition restart_session :: "'b backend \<Rightarrow> string \<Rightarrow> string \<Rightarrow> string option \<Rightarrow>
    (string, 'b, session_id) io" where
  "restart_session bk task_uuid command cwd =
     (let i = new_for_task task_uuid in
      bindE (create_session bk i command cwd) (\<lambda>_. ret i))"

section \<open>The in-memory backend\<close>

text \<open>The set of live sessions is a list without repetition, in the order in which it is
  traversed.\<close>

record fake_backend =
  fb_exit_codes :: "exit_code list"
  fb_created :: "string list"
  fb_alive :: "string list"
  fb_pane :: string

definition fake_backend_new :: "exit_code list \<Rightarrow> fake_backend" where
  "fake_backend_new codes =
     \<lparr>fb_exit_codes = codes, fb_created = [], fb_alive = [], fb_pane = ''pane-output'' @ [newline]\<rparr>"

definition fb_create :: "session_id \<Rightarrow> string \<Rightarrow> string option \<Rightarrow> (string, fake_backend, unit) io" where
  "fb_create i command cwd =
     modify (\<lambda>b. b\<lparr>fb_created := fb_created b @ [sid_str i],
       fb_alive := List.insert (sid_str i) (fb_alive b)\<rparr>)"

definition fb_kill :: "session_id \<Rightarrow> (string, fake_backend, unit) io" where
  "fb_kill i = modify (\<lambda>b. b\<lparr>fb_alive := removeAll (sid_str i) (fb_alive b)\<rparr>)"

definition fb_poll :: "session_id \<Rightarrow> (string, fake_backend, exit_code option) io" where
  "fb_poll i b =
     Some (case fb_exit_codes b of
        [] \<Rightarrow> (Inr (Some 0), b) | c # cs \<Rightarrow> (Inr (Some c), b\<lparr>fb_exit_codes := cs\<rparr>))"

definition fake_backend_ops :: "fake_backend backend" where
  "fake_backend_ops =
     \<lparr>create_session = fb_create, attach = (\<lambda>i. ret ()), kill_session = fb_kill,
      has_session = (\<lambda>i. gets (\<lambda>b. sid_str i \<in> set (fb_alive b))), list_sessions = gets fb_alive,
      capture_pane = (\<lambda>i. gets fb_pane), poll_exit = fb_poll\<rparr>"

text \<open>The factory of the unit tests has one such backend for all hosts.\<close>

definition fake_factory :: "fake_backend factory" where
  "fake_factory host = ret fake_backend_ops"

lemmas fake_backend_defs = fake_backend_ops_def fb_create_def fb_kill_def fb_poll_def

interpretation fbk: session_backend fake_backend_ops "\<lambda>b. set (fb_alive b)"
proof
  show "keeps (\<lambda>w w'. set (fb_alive w') = set (fb_alive w)) (poll_exit fake_backend_ops i)" for i
    by (rule keepsI) (auto simp: fake_backend_defs split: list.splits)
qed (auto simp: fake_backend_defs io_simps keeps_def)

section \<open>Creating a session\<close>

text \<open>A runner that also records the commands it was given.\<close>

definition logged :: "'w runner \<Rightarrow> ('w \<times> (string \<times> string list) list) runner" where
  "logged exec p args w =
     map_option (\<lambda>(r, w'). (r, (w', snd w @ [(p, args)]))) (exec p args (fst w))"

definition create_commands :: "string option \<Rightarrow> tmux_backend \<Rightarrow> session_id \<Rightarrow> string \<Rightarrow>
    string option \<Rightarrow> (string \<times> string list) list" where
  "create_commands sock_env tb i command cwd =
     map (tmux_cmd sock_env tb) [new_session_args i cwd, remain_args i, respawn_args i command]"

lemma run_ok_logged:
  "run_ok (logged exec) s tb args w = Some (r, w') \<Longrightarrow>
     snd w' = snd w @ [tmux_cmd s tb args] \<or> snd w' = snd w \<and> (\<exists>e. r = Inl e)"
  by (auto simp: run_ok_def tmux_run_def logged_def bail_def io_simps split: if_splits)

lemma run_ok_logged_Inr:
  "run_ok (logged exec) s tb args w = Some (Inr out, w') \<Longrightarrow>
     snd w' = snd w @ [tmux_cmd s tb args] \<and> co_success out"
  by (auto simp: run_ok_def tmux_run_def logged_def bail_def io_simps split: if_splits)

text \<open>Creating a session issues its three commands in one order, each only after the one
  before it succeeded, and answers with success only after all three: the workload is never
  started in a pane that its exit would take down.\<close>

theorem create_session_order:
  assumes "create_session (tmux_ops (logged exec) sock_env tb) i command cwd (w, []) = Some (r, w', log)"
  shows "prefix log (create_commands sock_env tb i command cwd) \<and>
    (r = Inr () \<longrightarrow> log = create_commands sock_env tb i command cwd)"
proof -
  let ?run = "\<lambda>args. run_ok (logged exec) sock_env tb args"
  from assms consider
      e where "?run (new_session_args i cwd) (w, []) = Some (Inl e, w', log)" "r = Inl e"
    | out v e where "?run (new_session_args i cwd) (w, []) = Some (Inr out, v)"
        "?run (remain_args i) v = Some (Inl e, w', log)" "r = Inl e"
    | out v out' v' x where "?run (new_session_args i cwd) (w, []) = Some (Inr out, v)"
        "?run (remain_args i) v = Some (Inr out', v')"
        "?run (respawn_args i command) v' = Some (x, w', log)" "r = map_sum id (\<lambda>_. ()) x"
    by (auto simp: tmux_ops_def tm_create_session_def io_simps)
  then show ?thesis
  proof cases
    case 1
    with run_ok_logged [OF 1(1)] show ?thesis by (auto simp: create_commands_def)
  next
    case 2
    with run_ok_logged_Inr [OF 2(1)] run_ok_logged [OF 2(2)] show ?thesis
      by (auto simp: create_commands_def)
  next
    case 3
    with run_ok_logged_Inr [OF 3(1)] run_ok_logged_Inr [OF 3(2)] run_ok_logged [OF 3(3)] show ?thesis
      by (cases x) (auto simp: create_commands_def)
  qed
qed

definition sample_output :: "bool \<Rightarrow> string \<Rightarrow> cmd_output" where
  "sample_output ok out = \<lparr>co_success = ok, co_status = [], co_stdout = out, co_stderr = []\<rparr>"

text \<open>A server that refuses the option: nothing is respawned.\<close>

lemma create_session_order_witness:
  "\<exists>w' log. create_session (tmux_ops (logged (\<lambda>p a. ret (sample_output (''set-option'' \<notin> set a) [])))
        None (tmux_new ''tmux'')) (new_for_task ''t'') ''make'' None ((), [])
      = Some (Inl ''tmux command failed: '', w', log) \<and> length log = 2 \<and>
     prefix log (create_commands None (tmux_new ''tmux'') (new_for_task ''t'') ''make'' None)"
proof -
  let ?m = "create_session (tmux_ops (logged (\<lambda>p a. ret (sample_output (''set-option'' \<notin> set a) [])))
        None (tmux_new ''tmux'')) (new_for_task ''t'') ''make'' None ((), [])"
  have *: "\<exists>w' log. ?m = Some (Inl ''tmux command failed: '', w', log) \<and> length log = 2"
    by (simp add: tmux_ops_def tm_create_session_def run_ok_def tmux_run_def logged_def ret_def
        bindE_def bail_def fail_def tmux_error_string_def tmux_cmd_def tmux_new_def sample_output_def with_context_def
        new_session_args_def remain_args_def new_for_task_def SESSION_PREFIX_def lossy_stderr_def
        from_utf8_lossy.simps TMUX_SOCKET_def)
  then obtain w' log where m: "?m = Some (Inl ''tmux command failed: '', w', log)" "length log = 2"
    by blast
  from create_session_order [OF m(1)] m show ?thesis by blast
qed

section \<open>Reading the pane status\<close>

lemma parse_signed_pos: "n < 2 ^ 31 \<Longrightarrow> parse_signed 32 (dec n) = Some (int n)"
proof -
  assume n: "n < 2 ^ 31"
  obtain c cs where d: "dec n = c # cs" by (cases "dec n") auto
  with dec_digits [of n] have "c \<noteq> CHR ''-''" by (auto simp: is_digit_def)
  with d n parse_nat_dec [of n] show ?thesis by (simp add: parse_signed_def)
qed

definition i32_text :: "exit_code \<Rightarrow> string" where
  "i32_text c = (if sint c < 0 then ''-'' @ dec (nat (- sint c)) else dec (nat (sint c)))"

lemma i32_text_ends: "i32_text c \<noteq> []" "byte (hd (i32_text c)) < 128" "\<not> ws_ascii (hd (i32_text c))"
    "byte (last (i32_text c)) < 128" "\<not> ws_ascii (last (i32_text c))"
  using ws_digit [OF hd_dec] ws_digit [OF last_dec] by (auto simp: i32_text_def ws_ascii_def)

lemma sint_i32: "- (2 ^ 31) \<le> sint c \<and> sint c < 2 ^ 31" for c :: exit_code
  using sint_range_size [of c] by (simp add: word_size)

lemma parse_i32_text: "parse_signed 32 (i32_text c) = Some (sint c)"
proof (cases "sint c < 0")
  case True
  obtain d ds where d: "dec (nat (- sint c)) = d # ds" by (cases "dec (nat (- sint c))") auto
  with dec_digits [of "nat (- sint c)"] have "d \<noteq> CHR ''+''" by (auto simp: is_digit_def)
  moreover have "nat (- sint c) \<le> 2 ^ 31" using sint_i32 [of c] by (simp add: nat_le_iff)
  ultimately show ?thesis
    using True d parse_nat_dec [of "nat (- sint c)"] by (simp add: i32_text_def parse_signed_def)
next
  case False
  then have "nat (sint c) < 2 ^ 31" using sint_i32 [of c] by (simp add: nat_less_iff)
  with False show ?thesis by (simp add: i32_text_def parse_signed_pos)
qed

text \<open>Once the pane is dead, what the server prints for any exit status of 32 bits is read
  as that status; the step that is still running, whose status field is empty, is not taken
  for a finished one.\<close>

theorem pane_status_roundtrip:
  "parse_pane_status (''1:'' @ i32_text c @ [newline]) = Some c \<and>
   parse_pane_status (''0:'' @ [newline]) = None \<and> parse_pane_status [newline] = None"
proof -
  have "trim (''1:'' @ i32_text c @ [newline]) = ''1:'' @ i32_text c"
    using trim_plain(1) [of "''1:'' @ i32_text c"] i32_text_ends [of c] by (simp add: ws_ascii_def)
  moreover have "trim (i32_text c) = i32_text c" using trim_plain(2) i32_text_ends [of c] by simp
  moreover have "trim ''1'' = ''1''" using trim_plain(2) [of "''1''"] by (simp add: ws_ascii_def)
  moreover have "trim (''0:'' @ [newline]) = ''0:''"
    using trim_plain(1) [of "''0:''"] by (simp add: ws_ascii_def)
  moreover have "trim ''0'' = ''0''" using trim_plain(2) [of "''0''"] by (simp add: ws_ascii_def)
  moreover have "trim [newline] = []"
    by (simp add: trim_def trim_start.simps trim_end.simps ws_ascii_def newline_def ws_suffix_len_def)
  ultimately show ?thesis by (simp add: parse_pane_status_def parse_i32_text)
qed

section \<open>Sessions on several hosts\<close>

text \<open>What the clean-up relies on: the factory gives for every host that is up a backend that lists the
  live sessions of one server, each once, and whose killing of a live session removes it there
  and leaves every other server as it is. Hosts may share a server.\<close>

definition backend_serves :: "'b backend \<Rightarrow> 'srv \<Rightarrow> ('srv \<Rightarrow> 'b \<Rightarrow> string set) \<Rightarrow> bool" where
  "backend_serves bk srv live =
     ((\<forall>w. \<exists>names w'. list_sessions bk w = Some (Inr names, w') \<and> (\<forall>s. live s w' = live s w) \<and>
         set names = live srv w \<and> distinct names) \<and>
      (\<forall>n w. n \<in> live srv w \<longrightarrow> (\<exists>r w'. kill_session bk (SessionId n) w = Some (r, w') \<and>
         live srv w' = live srv w - {n} \<and> (\<forall>s. s \<noteq> srv \<longrightarrow> live s w' = live s w))))"

locale host_backends =
  fixes factory :: "'b factory" and server :: "string option \<Rightarrow> 'srv" and live :: "'srv \<Rightarrow> 'b \<Rightarrow> string set"
    and up :: "string option set"
  assumes get_host: "h \<in> up \<Longrightarrow> \<exists>bk w'. factory h w = Some (Inr bk, w') \<and> (\<forall>s. live s w' = live s w) \<and>
      backend_serves bk (server h) live"

text \<open>The control socket, and the backend of a host.\<close>

definition control_socket :: "string option \<Rightarrow> string" where
  "control_socket sock_env = (case sock_env of Some s \<Rightarrow> s | None \<Rightarrow> TMUX_SOCKET)"

definition host_tmux :: "string \<Rightarrow> string option \<Rightarrow> string option \<Rightarrow> tmux_backend" where
  "host_tmux tmux user h = (case h of None \<Rightarrow> tmux_new tmux | Some n \<Rightarrow> with_ssh tmux n user)"

text \<open>What \<open>tmux\<close> does, locally and at the other end of \<open>ssh\<close>: \<open>live\<close> gives the sessions of each server, named
  by its host and its socket. Listing prints their names, one on each line, and fails when there
  is none; killing a live session removes it. A tunnel changes no session. Of a host that is not
  up nothing is said.\<close>

definition tmux_serves :: "'p runner \<Rightarrow> (string \<Rightarrow> string list \<Rightarrow> (string, 'p, unit) io) \<Rightarrow> string option \<Rightarrow> string \<Rightarrow>
    string option \<Rightarrow> (string option \<times> string \<Rightarrow> 'p \<Rightarrow> string set) \<Rightarrow> string option set \<Rightarrow> bool" where
  "tmux_serves exec spawn sock_env tmux user live up =
     (let call = (\<lambda>h args. exec (fst (tmux_cmd sock_env (host_tmux tmux user h) args))
            (snd (tmux_cmd sock_env (host_tmux tmux user h) args)));
          own = (\<lambda>h. (h, control_socket sock_env)) in
      (\<forall>p args q. \<exists>r q'. spawn p args q = Some (r, q') \<and> (\<forall>s. live s q' = live s q)) \<and>
      (\<forall>h \<in> up. \<forall>q. \<exists>out q'. call h [''list-sessions'', ''-F'', ''#{session_name}''] q = Some (Inr out, q') \<and>
         (\<forall>s. live s q' = live s q) \<and>
         (if co_success out
          then set (filter (\<lambda>l. l \<noteq> []) (lines (from_utf8_lossy (co_stdout out)))) = live (own h) q \<and>
            distinct (filter (\<lambda>l. l \<noteq> []) (lines (from_utf8_lossy (co_stdout out))))
          else live (own h) q = {})) \<and>
      (\<forall>h \<in> up. \<forall>n q. n \<in> live (own h) q \<longrightarrow> (\<exists>out q'. call h [''kill-session'', ''-t'', n] q = Some (Inr out, q') \<and>
         live (own h) q' = live (own h) q - {n} \<and> (\<forall>s. s \<noteq> own h \<longrightarrow> live s q' = live s q))))"

lemma tmux_run_on_procs:
  assumes "tmux \<noteq> []" "exec (fst (tmux_cmd sock_env (host_tmux tmux user h) args))
      (snd (tmux_cmd sock_env (host_tmux tmux user h) args)) (tw_procs w) = Some (Inr out, q')"
  shows "tmux_run (\<lambda>p a. on_procs (exec p a)) sock_env (host_tmux tmux user h) args w =
      Some (Inr out, w\<lparr>tw_procs := q'\<rparr>)"
  using assms by (auto simp: tmux_run_def host_tmux_def tmux_new_def with_ssh_def with_context_def on_procs_def
      split: option.split)

lemma tmux_backend_serves:
  assumes "tmux_serves exec spawn sock_env tmux user live up" "tmux \<noteq> []" "h \<in> up"
  shows "backend_serves (tmux_ops (\<lambda>p a. on_procs (exec p a)) sock_env (host_tmux tmux user h))
     (h, control_socket sock_env) (\<lambda>srv w. live srv (tw_procs w))"
proof -
  let ?run = "tmux_run (\<lambda>p a. on_procs (exec p a)) sock_env (host_tmux tmux user h)"
  let ?own = "(h, control_socket sock_env)"
  let ?names = "\<lambda>out. filter (\<lambda>l. l \<noteq> []) (lines (from_utf8_lossy (co_stdout out)))"
  note laws = assms(1) [unfolded tmux_serves_def Let_def]
  note run = tmux_run_on_procs [OF assms(2), of exec sock_env user h]
  have listed: "\<exists>out q'. ?run [''list-sessions'', ''-F'', ''#{session_name}''] w = Some (Inr out, w\<lparr>tw_procs := q'\<rparr>) \<and>
      (\<forall>s. live s q' = live s (tw_procs w)) \<and>
      (if co_success out then set (?names out) = live ?own (tw_procs w) \<and> distinct (?names out)
       else live ?own (tw_procs w) = {})" for w
    using laws [THEN conjunct2, THEN conjunct1, THEN bspec, OF assms(3), THEN spec, of "tw_procs w"]
    by (elim exE conjE) (intro exI conjI, erule run)
  have killed: "\<exists>out q'. ?run [''kill-session'', ''-t'', n] w = Some (Inr out, w\<lparr>tw_procs := q'\<rparr>) \<and>
      live ?own q' = live ?own (tw_procs w) - {n} \<and> (\<forall>s. s \<noteq> ?own \<longrightarrow> live s q' = live s (tw_procs w))"
    if "n \<in> live ?own (tw_procs w)" for n w
    using laws [THEN conjunct2, THEN conjunct2, THEN bspec, OF assms(3), THEN spec, THEN spec, THEN mp, OF that]
    by (elim exE conjE) (intro exI conjI, erule run)
  show ?thesis
    unfolding backend_serves_def
  proof (intro conjI allI impI)
    fix w :: "'a tmux_world"
    obtain out q' where o: "?run [''list-sessions'', ''-F'', ''#{session_name}''] w = Some (Inr out, w\<lparr>tw_procs := q'\<rparr>)"
      "\<forall>s. live s q' = live s (tw_procs w)"
      "if co_success out then set (?names out) = live ?own (tw_procs w) \<and> distinct (?names out)
       else live ?own (tw_procs w) = {}" using listed by blast
    show "\<exists>names w'. list_sessions (tmux_ops (\<lambda>p a. on_procs (exec p a)) sock_env (host_tmux tmux user h)) w =
        Some (Inr names, w') \<and> (\<forall>s. live s (tw_procs w') = live s (tw_procs w)) \<and>
        set names = live ?own (tw_procs w) \<and> distinct names"
      using o by (cases "co_success out")
        (simp_all add: tmux_ops_def tm_list_sessions_def bindE_def ret_def)
  next
    fix n and w :: "'a tmux_world"
    assume n: "n \<in> live ?own (tw_procs w)"
    show "\<exists>r w'. kill_session (tmux_ops (\<lambda>p a. on_procs (exec p a)) sock_env (host_tmux tmux user h)) (SessionId n) w =
        Some (r, w') \<and> live ?own (tw_procs w') = live ?own (tw_procs w) - {n} \<and>
        (\<forall>s. s \<noteq> ?own \<longrightarrow> live s (tw_procs w') = live s (tw_procs w))"
      using killed [OF n] by (auto simp: tmux_ops_def tm_kill_session_def bindE_def ret_def)
  qed
qed

text \<open>The factory of the daemon, on such servers, keeps the contract: each host has a server of its own.\<close>

lemma tmux_hosts:
  assumes "tmux_serves exec spawn sock_env tmux user live up" "tmux \<noteq> []"
  shows "host_backends (factory_get spawn exec sock_env tmux user local_sock) (\<lambda>h. (h, control_socket sock_env))
     (\<lambda>srv w. live srv (tw_procs w)) up"
proof
  fix h and w :: "'a tmux_world"
  assume h: "h \<in> up"
  have "\<exists>w'. factory_get spawn exec sock_env tmux user local_sock h w =
      Some (Inr (tmux_ops (\<lambda>p a. on_procs (exec p a)) sock_env (host_tmux tmux user h)), w') \<and>
      (\<forall>s. live s (tw_procs w') = live s (tw_procs w))"
  proof (cases h)
    case None
    then show ?thesis by (simp add: factory_get_def host_tmux_def ret_def)
  next
    case (Some n)
    obtain r q' where spawned: "spawn ''ssh'' (reverse_tunnel_args n user local_sock) (tw_procs w) = Some (r, q')"
      "\<forall>s. live s q' = live s (tw_procs w)"
      using assms(1) [unfolded tmux_serves_def Let_def, THEN conjunct1] by metis
    then show ?thesis
      by (cases "map_of (tw_remote w) n")
         (simp_all add: Some factory_get_def host_tmux_def Let_def bindE_def gets_def ret_def attempt_def
           on_procs_def modify_def)
  qed
  with tmux_backend_serves [OF assms h]
  show "\<exists>bk w'. factory_get spawn exec sock_env tmux user local_sock h w = Some (Inr bk, w') \<and>
      (\<forall>s. live s (tw_procs w') = live s (tw_procs w)) \<and>
      backend_serves bk (h, control_socket sock_env) (\<lambda>srv w. live srv (tw_procs w))" by blast
qed

text \<open>A program that behaves like that: the state lists the servers on which a certain session is alive.\<close>

definition sim_call :: "string \<Rightarrow> string list \<Rightarrow> (string option \<times> string) \<times> string list" where
  "sim_call p args =
     (if p = ''ssh'' then ((Some (args ! 6), args ! 9), drop 10 args) else ((None, args ! 1), drop 2 args))"

definition sim_tmux :: "string \<Rightarrow> (string option \<times> string) list runner" where
  "sim_tmux name p args q =
     (let (srv, cmd) = sim_call p args in
      if cmd = [''kill-session'', ''-t'', name] then ret (sample_output True []) (filter (\<lambda>s. s \<noteq> srv) q)
      else if srv \<in> set q then ret (sample_output True (name @ [newline])) q
      else ret (sample_output False []) q)"

definition sim_live :: "string \<Rightarrow> string option \<times> string \<Rightarrow> (string option \<times> string) list \<Rightarrow> string set" where
  "sim_live name srv q = (if srv \<in> set q then {name} else {})"

lemma sim_call_host: "sim_call (fst (tmux_cmd sock_env (host_tmux ''tmux'' None h) args))
    (snd (tmux_cmd sock_env (host_tmux ''tmux'' None h) args)) = ((h, control_socket sock_env), args)"
  by (cases h) (simp_all add: sim_call_def tmux_cmd_def host_tmux_def tmux_new_def with_ssh_def control_socket_def
      ssh_options_def ssh_login_def Let_def)

lemma sim_serves:
  assumes "lines (from_utf8_lossy (name @ [newline])) = [name]" "name \<noteq> []"
  shows "tmux_serves (sim_tmux name) (\<lambda>_ _. ret ()) sock_env ''tmux'' None (sim_live name) UNIV"
  using assms
  by (auto simp: tmux_serves_def Let_def sim_tmux_def sim_call_host sim_live_def sample_output_def ret_def
      split: if_splits)

definition sim_name :: string where
  "sim_name = sid_str (new_for_task ''00000000000000000000000000000001-0'')"

lemma sim_name_lines: "lines (from_utf8_lossy (sim_name @ [newline])) = [sim_name]" "sim_name \<noteq> []"
  by code_simp+

interpretation sim: host_backends "factory_get (\<lambda>_ _. ret ()) (sim_tmux sim_name) sock_env ''tmux'' None local_sock"
    "\<lambda>h. (h, control_socket sock_env)" "\<lambda>srv w. sim_live sim_name srv (tw_procs w)" UNIV
  for sock_env local_sock
  by (rule tmux_hosts [OF sim_serves [OF sim_name_lines]]) simp

end
