(* ===== verification/Harvest.thy ===== *)
theory Harvest
  imports Tmux
begin

text \<open>
  The harvest pipeline, \<open>src/janus/src/harvest.rs\<close>: snapshots of a working tree under a git
  reference, sandbox worktrees, and the way back. Running \<open>git\<close> in a directory and the few
  file system calls are a record of parameters over a state of type \<open>'g\<close>; the model says
  which commands are issued and what is made of their output. \<open>None\<close>, in the list of an
  output, is a process that could not be started.
\<close>

section \<open>The machine\<close>

record 'g machine =
  m_git :: "string \<Rightarrow> string list \<Rightarrow> (string, 'g, cmd_output) io"
  m_exists :: "string \<Rightarrow> 'g \<Rightarrow> bool"
  m_remove_dir_all :: "string \<Rightarrow> (string, 'g, unit) io"
  m_create_dir_all :: "string \<Rightarrow> (string, 'g, unit) io"
  m_write :: "string \<Rightarrow> string \<Rightarrow> (string, 'g, unit) io"
  m_now :: "'g \<Rightarrow> string"
  m_dev :: "'g \<Rightarrow> string list option"

text \<open>The trimmed output of a command that succeeded, else a default.\<close>

definition stdout_or :: "string \<Rightarrow> string + cmd_output \<Rightarrow> string" where
  "stdout_or d r =
     (case r of
        Inr out \<Rightarrow> if co_success out then trim (from_utf8_lossy (co_stdout out)) else d
      | Inl _ \<Rightarrow> d)"

section \<open>Snapshots\<close>

definition snapshot_to_ref :: "'g machine \<Rightarrow> string \<Rightarrow> string \<Rightarrow> string \<Rightarrow> (string, 'g, string) io" where
  "snapshot_to_ref m root ref_name commit_msg =
     bindE (attempt (m_git m root [''add'', ''-A''])) (\<lambda>_.
     bindE (attempt (m_git m root [''write-tree''])) (\<lambda>t.
     let tree_sha = stdout_or [] t in
     bindE (if tree_sha \<noteq> []
            then bindE (attempt (m_git m root
                   [''commit-tree'', tree_sha, ''-p'', ''HEAD'', ''-m'', commit_msg]))
                   (\<lambda>c. ret (stdout_or [] c))
            else ret []) (\<lambda>commit_sha.
     bindE (attempt (m_git m root [''reset''])) (\<lambda>_.
     let target_ref = (if commit_sha \<noteq> [] then commit_sha else ''HEAD'') in
     bindE (m_git m root [''update-ref'', ref_name, target_ref]) (\<lambda>out.
       if \<not> co_success out
       then fail (''Failed to update ref '' @ ref_name @ '': '' @ from_utf8_lossy (co_stderr out))
       else ret target_ref)))))"

definition harvest_sandbox_output :: "'g machine \<Rightarrow> string \<Rightarrow> uuid \<Rightarrow> string \<Rightarrow> (string, 'g, string) io" where
  "harvest_sandbox_output m root task_id step_name =
     (let ref_name = ''refs/sandbox/'' @ uuid_simple task_id @ ''-'' @ step_name;
          msg = ''metamach harvest snapshot for step '' @ [CHR 0x27] @ step_name @ [CHR 0x27] in
      bindE (snapshot_to_ref m root ref_name msg) (\<lambda>_. ret ref_name))"

definition trimmed_lines :: "string \<Rightarrow> string list" where
  "trimmed_lines s = filter (\<lambda>l. l \<noteq> []) (map trim (lines s))"

definition apply_harvest_ref_by_name :: "'g machine \<Rightarrow> string \<Rightarrow> string \<Rightarrow> (string, 'g, bool) io" where
  "apply_harvest_ref_by_name m root ref_name =
     bindE (m_git m root [''checkout'', ref_name, ''--'', ''.'']) (\<lambda>out.
     bindE (attempt (m_git m root [''ls-tree'', ''-r'', ''--name-only'', ref_name])) (\<lambda>ls_out.
     bindE
       (case ls_out of
          Inr ls \<Rightarrow>
            if co_success ls then
              let files = trimmed_lines (if valid_utf8 (co_stdout ls) then co_stdout ls else []) in
              if files \<noteq> []
              then bindE (attempt (m_git m root ([''checkout'', ref_name, ''--''] @ files))) (\<lambda>_. ret ())
              else ret ()
            else ret ()
        | Inl _ \<Rightarrow> ret ()) (\<lambda>_.
     if \<not> co_success out
     then fail (''Failed to apply harvest ref '' @ ref_name @ '': '' @ from_utf8_lossy (co_stderr out))
     else ret True)))"

definition apply_harvest_ref :: "'g machine \<Rightarrow> string \<Rightarrow> uuid \<Rightarrow> string \<Rightarrow> (string, 'g, unit) io" where
  "apply_harvest_ref m root task_id step_name =
     bindE (apply_harvest_ref_by_name m root
       (''refs/sandbox/'' @ uuid_simple task_id @ ''-'' @ step_name)) (\<lambda>_. ret ())"

definition list_harvest_refs :: "'g machine \<Rightarrow> string \<Rightarrow> (string, 'g, string list) io" where
  "list_harvest_refs m root =
     bindE (m_git m root [''for-each-ref'', ''--format=%(refname)'', ''refs/sandbox/*'']) (\<lambda>out.
       if \<not> co_success out then ret [] else ret (trimmed_lines (from_utf8_lossy (co_stdout out))))"

section \<open>Sandbox worktrees\<close>

definition sandbox_branch :: "uuid \<Rightarrow> string \<Rightarrow> string" where
  "sandbox_branch task_id step_name = ''sandbox-'' @ uuid_simple task_id @ ''-'' @ step_name"

definition remove_if_exists :: "'g machine \<Rightarrow> string \<Rightarrow> (string, 'g, unit) io" where
  "remove_if_exists m dir =
     bindE (gets (m_exists m dir)) (\<lambda>e.
       if e then bindE (attempt (m_remove_dir_all m dir)) (\<lambda>_. ret ()) else ret ())"

definition create_sandbox_worktree :: "'g machine \<Rightarrow> string \<Rightarrow> string \<Rightarrow> uuid \<Rightarrow> string \<Rightarrow>
    (string, 'g, unit) io" where
  "create_sandbox_worktree m root worktree_dir task_id step_name =
     bindE (remove_if_exists m worktree_dir) (\<lambda>_.
     bindE (m_git m root [''worktree'', ''add'', ''-b'', sandbox_branch task_id step_name,
                          worktree_dir, ''HEAD'']) (\<lambda>out.
       if \<not> co_success out then
         bindE (m_git m root [''worktree'', ''add'', ''--detach'', worktree_dir, ''HEAD'']) (\<lambda>out2.
           if \<not> co_success out2
           then fail (''Failed to create sandbox worktree at '' @ worktree_dir @ '': '' @
                      from_utf8_lossy (co_stderr out2))
           else ret ())
       else ret ()))"

definition cleanup_sandbox_worktree :: "'g machine \<Rightarrow> string \<Rightarrow> string \<Rightarrow> uuid \<Rightarrow> string \<Rightarrow>
    (string, 'g, unit) io" where
  "cleanup_sandbox_worktree m root worktree_dir task_id step_name =
     bindE (attempt (m_git m root [''worktree'', ''remove'', ''--force'', worktree_dir])) (\<lambda>_.
     bindE (attempt (m_git m root [''branch'', ''-D'', sandbox_branch task_id step_name])) (\<lambda>_.
     remove_if_exists m worktree_dir))"

end
