(* ===== verification/Paths.thy ===== *)
theory Paths
  imports Prelude
begin

text \<open>
  Where the program keeps its state and finds its configuration, \<open>src/janus/src/paths.rs\<close>.
  The environment is a function from variable names to values, the file system a predicate on
  paths. That the state directory is also created is an effect on the file system that is
  left out; its failure is ignored by the code.
\<close>

type_synonym env = "string \<Rightarrow> string option"

definition STATE_SUBPATH :: string where
  "STATE_SUBPATH = ''.local/state/herdr/plugins/metamach.janus''"

text \<open>\<open>str::trim_matches\<close> of a single character, and a variable that is set and not empty.\<close>

definition trim_matches :: "char \<Rightarrow> string \<Rightarrow> string" where
  "trim_matches c s = rev (dropWhile (\<lambda>d. d = c) (rev (dropWhile (\<lambda>d. d = c) s)))"

definition nonempty_var :: "env \<Rightarrow> string \<Rightarrow> string option" where
  "nonempty_var env v = (case env v of Some s \<Rightarrow> if s = [] then None else Some s | None \<Rightarrow> None)"

definition unquoted :: "string \<Rightarrow> string" where
  "unquoted s = trim_matches (CHR 0x22) (trim_matches (CHR 0x27) s)"

definition home_dir :: "env \<Rightarrow> string" where
  "home_dir env = (case env ''HOME'' of Some h \<Rightarrow> h | None \<Rightarrow> ''.'')"

definition state_dir :: "env \<Rightarrow> string" where
  "state_dir env =
     (case nonempty_var env ''HERDR_PLUGIN_STATE_DIR'' of
        Some s \<Rightarrow> unquoted s | None \<Rightarrow> path_join (home_dir env) STATE_SUBPATH)"

definition sock_path :: "env \<Rightarrow> string" where
  "sock_path env =
     (case nonempty_var env ''JANUS_SOCK_PATH'' of
        Some p \<Rightarrow> unquoted p | None \<Rightarrow> path_join (state_dir env) ''janus.sock'')"

definition pid_path :: "env \<Rightarrow> string" where
  "pid_path env = path_join (state_dir env) ''janus.pid''"

definition log_path :: "env \<Rightarrow> string" where
  "log_path env = path_join (state_dir env) ''janus.log''"

definition fallback_path :: "env \<Rightarrow> string" where
  "fallback_path env = path_join (state_dir env) ''fallback.db''"

definition pg_socket_dir :: "env \<Rightarrow> string" where
  "pg_socket_dir env = path_join (state_dir env) ''pg_socket''"

definition config_dir :: "env \<Rightarrow> string" where
  "config_dir env =
     (case nonempty_var env ''HERDR_PLUGIN_CONFIG_DIR'' of
        Some s \<Rightarrow> s
      | None \<Rightarrow> path_join (home_dir env) ''.config/herdr/plugins/config/metamach.janus'')"

definition agents_toml_path :: "env \<Rightarrow> string" where
  "agents_toml_path env =
     (case nonempty_var env ''JANUS_AGENTS_TOML'' of
        Some p \<Rightarrow> p | None \<Rightarrow> path_join (config_dir env) ''agents.toml'')"

text \<open>\<open>Path::parent\<close> of a path without trailing separators or dots, as \<open>current_dir\<close>
  returns it.\<close>

definition path_parent :: "string \<Rightarrow> string option" where
  "path_parent p =
     (let d = rev (dropWhile (\<lambda>c. c \<noteq> CHR ''/'') (rev p)) in
      if p = [] \<or> p = ''/'' then None
      else if d = ''/'' then Some ''/''
      else Some (if d = [] then [] else butlast d))"

definition repo_root :: "env \<Rightarrow> string option \<Rightarrow> (string \<Rightarrow> bool) \<Rightarrow> string" where
  "repo_root env current_dir exists =
     (case nonempty_var env ''HERDR_PLUGIN_ROOT'' of
        Some s \<Rightarrow> s
      | None \<Rightarrow>
          let cur = (case current_dir of Some d \<Rightarrow> d | None \<Rightarrow> ''.'') in
          if exists (path_join cur ''templates'') then cur
          else (case path_parent cur of
                  Some p \<Rightarrow> if exists (path_join p ''templates'') then p else cur
                | None \<Rightarrow> cur))"

definition project_agents_toml :: "string \<Rightarrow> (string \<Rightarrow> bool) \<Rightarrow> string option" where
  "project_agents_toml root exists =
     (let p = path_join root ''.janus/agents/agents.toml'' in if exists p then Some p else None)"

definition agents_toml_paths :: "env \<Rightarrow> string \<Rightarrow> (string \<Rightarrow> bool) \<Rightarrow> string list" where
  "agents_toml_paths env root exists =
     (case nonempty_var env ''JANUS_AGENTS_TOML'' of
        Some p \<Rightarrow> [p]
      | None \<Rightarrow>
          (case project_agents_toml root exists of Some p \<Rightarrow> [p] | None \<Rightarrow> []) @
          [path_join (config_dir env) ''agents.toml''])"

end
