(* ===== verification/Workflow_Engine.thy ===== *)
theory Workflow_Engine
  imports Overlay Envelope Pty_Filter Harvest Paths
begin

text \<open>
  The workflow engine, \<open>src/janus/src/workflow/mod.rs\<close>: dispatch, the claim and retry loop,
  the step loop with its sessions, polls, correction attempts, checkpoints and guards, and
  the resume point after a crash.

  The world consists of the durable engine, the database layer, the session backend and the
  machine (git, files, clock). What runs beside the engine - the daemon's other tasks, which
  suspend steps and emit verdicts, and the programs in the panes - is the parameter
  \<open>dn_others\<close>, applied with the time that passes at every sleep and with 0 at every other
  await point. The two unbounded loops, polling a pane and claiming runs, take a bound on
  their rounds; \<open>None\<close> says that the bound was reached, or that the code panicked.
\<close>

section \<open>The world\<close>

record ('e, 'b, 'g) world =
  wl_engine :: 'e
  wl_db :: absurd_db
  wl_backend :: 'b
  wl_machine :: 'g

type_synonym ('e, 'b, 'g, 'a) act = "(string, ('e, 'b, 'g) world, 'a) io"

record ('e, 'b, 'g) daemon =
  dn_engine :: "'e engine"
  dn_factory :: "'b factory"
  dn_socket_backend :: "string \<Rightarrow> 'b backend"
  dn_machine :: "'g machine"
  dn_env :: env
  dn_parse_uuid :: "string \<Rightarrow> uuid option"
  dn_root :: string
  dn_janush :: string
  dn_others :: "nat \<Rightarrow> ('e, 'b, 'g) world \<Rightarrow> ('e, 'b, 'g) world"

text \<open>What \<open>run_workflow\<close> is called for.\<close>

record job =
  jb_recipe :: validated_recipe
  jb_workflow :: string
  jb_queue :: string
  jb_task :: uuid

definition others :: "('e, 'b, 'g) daemon \<Rightarrow> nat \<Rightarrow> ('e, 'b, 'g, unit) act" where
  "others d ms = modify (dn_others d ms)"

definition lift_engine :: "(string, 'e, 'a) io \<Rightarrow> ('e, 'b, 'g, 'a) act" where
  "lift_engine m w = map_option (\<lambda>(r, e). (r, w\<lparr>wl_engine := e\<rparr>)) (m (wl_engine w))"

definition lift_db :: "'a db_op \<Rightarrow> ('e, 'b, 'g, 'a) act" where
  "lift_db m w = map_option (\<lambda>(r, x). (r, w\<lparr>wl_db := x\<rparr>)) (m (wl_db w))"

definition on_backend :: "(string, 'b, 'a) io \<Rightarrow> ('e, 'b, 'g, 'a) act" where
  "on_backend m w = map_option (\<lambda>(r, b). (r, w\<lparr>wl_backend := b\<rparr>)) (m (wl_backend w))"

definition on_machine :: "(string, 'g, 'a) io \<Rightarrow> ('e, 'b, 'g, 'a) act" where
  "on_machine m w = map_option (\<lambda>(r, g). (r, w\<lparr>wl_machine := g\<rparr>)) (m (wl_machine w))"

definition on_engine :: "('e, 'b, 'g) daemon \<Rightarrow> (string, 'e, 'a) io \<Rightarrow> ('e, 'b, 'g, 'a) act" where
  "on_engine d m = bindE (others d 0) (\<lambda>_. lift_engine m)"

definition on_db :: "('e, 'b, 'g) daemon \<Rightarrow> 'a db_op \<Rightarrow> ('e, 'b, 'g, 'a) act" where
  "on_db d m = bindE (others d 0) (\<lambda>_. lift_db m)"

definition panic :: "('e, 'b, 'g, 'a) act" where
  "panic w = None"

text \<open>A discarded result.\<close>

definition ignore :: "('e, 'w, 'a) io \<Rightarrow> ('e, 'w, unit) io" where
  "ignore m = bindE (attempt m) (\<lambda>_. ret ())"

lemma ignore_io: "ignore m w = Some (r, w') \<longleftrightarrow> r = Inr () \<and> (\<exists>x. m w = Some (x, w'))"
  by (auto simp: ignore_def io_simps)

text \<open>A guard that is dropped on every way out.\<close>

definition finally_do :: "('e, 'w, 'a) io \<Rightarrow> ('e, 'w, unit) io \<Rightarrow> ('e, 'w, 'a) io" where
  "finally_do m c = bindE (attempt m) (\<lambda>r. bindE (ignore c) (\<lambda>_.
     case r of Inl e \<Rightarrow> fail e | Inr x \<Rightarrow> ret x))"

section \<open>Constants and outcomes\<close>

definition WORKER_ID :: string where
  "WORKER_ID = ''janus-daemon''"

definition POLL_INTERVAL :: nat where
  "POLL_INTERVAL = 200"

definition LEASE_EXTEND_INTERVAL :: nat where
  "LEASE_EXTEND_INTERVAL = 10000"

definition LEASE_EXTEND_BY :: int where
  "LEASE_EXTEND_BY = 30"

definition RETRY_POLL_INTERVAL :: nat where
  "RETRY_POLL_INTERVAL = 1000"

datatype step_outcome =
    Done
  | Failed
  | Step_suspended nat string
  | Stale_head string
  | Quota_exhausted nat

datatype resume_action = Run | Await_hitl | Fail_hitl

datatype hitl_await_result = Hitl_suspended | Hitl_approved | Hitl_rejected_or_timeout

section \<open>Dispatch\<close>

definition queue_name :: "string \<Rightarrow> string \<Rightarrow> string" where
  "queue_name blueprint workflow_name = sanitize_chars blueprint @ ''_'' @ sanitize_chars workflow_name"

definition step_to_value :: "workflow_step \<Rightarrow> json" where
  "step_to_value s =
     JObj [(''name'', JStr (ws_name s)), (''agent'', JStr (ws_agent s)),
       (''command'', json_opt JStr (ws_command s)), (''host'', json_opt JStr (ws_host s)),
       (''toolset'', json_opt json_strings (ws_toolset s)),
       (''max_correction_attempts'', json_opt (\<lambda>n. JInt (uint n)) (ws_max_correction_attempts s)),
       (''isolation'', json_opt JStr (ws_isolation s)),
       (''best_of_n'', json_opt (\<lambda>n. JInt (uint n)) (ws_best_of_n s)),
       (''writes'', json_opt json_strings (ws_writes s))]"

definition spawn_workflow :: "('e, 'b, 'g) daemon \<Rightarrow> validated_recipe \<Rightarrow> string \<Rightarrow> ('e, 'b, 'g, uuid) act" where
  "spawn_workflow d recipe workflow_name =
     (let queue = queue_name (vr_name recipe) workflow_name;
          task_name = vr_name recipe @ ''.'' @ workflow_name;
          payload = JArr (map step_to_value (wf_steps (vr_workflow recipe))) in
      bindE (on_engine d (create_queue (dn_engine d) queue)) (\<lambda>_.
      on_engine d (spawn_task (dn_engine d) queue task_name payload)))"

section \<open>The step's command line\<close>

definition quote_char :: "char \<Rightarrow> string" where
  "quote_char c = (if c = CHR 0x27 then [CHR 0x27, CHR 0x5C, CHR 0x27, CHR 0x27] else [c])"

definition shell_quote :: "string \<Rightarrow> string" where
  "shell_quote s = [CHR 0x27] @ concat (map quote_char s) @ [CHR 0x27]"

definition env_tty_devices :: "'g machine \<Rightarrow> 'g \<Rightarrow> string" where
  "env_tty_devices m g =
     join '','' (concat (map (\<lambda>p. case m_dev m g of
        Some names \<Rightarrow> filter (prefix p) names | None \<Rightarrow> []) [''ttyUSB'', ''ttyACM'', ''ttyS'']))"

definition step_command :: "env \<Rightarrow> string \<Rightarrow> string \<Rightarrow> workflow_step \<Rightarrow> job \<Rightarrow> string \<Rightarrow>
    string option \<Rightarrow> string option \<Rightarrow> string" where
  "step_command env timestamp tty_devices step j janush host correction_context =
     (let command = (case ws_command step of Some c \<Rightarrow> c | None \<Rightarrow> ''true'');
          sock_env = (case host of
             None \<Rightarrow> ''JANUS_SOCK_PATH='' @ shell_quote (sock_path env) @
               '' HERDR_PLUGIN_STATE_DIR='' @ shell_quote (state_dir env)
           | Some h \<Rightarrow> ''JANUS_SOCK_PATH=/tmp/mm-'' @ h @ ''.sock'');
          corr_env = (case correction_context of
             Some ctx \<Rightarrow> '' METAMACH_CORRECTION_CONTEXT='' @ shell_quote ctx | None \<Rightarrow> []) in
      ''env '' @ sock_env @ corr_env @ '' JANUS_AGENT='' @ shell_quote (ws_agent step) @
      '' JANUS_BLUEPRINT='' @ shell_quote (vr_name (jb_recipe j)) @
      '' JANUS_TASK_ID='' @ uuid_string (jb_task j) @
      '' JANUS_STEP='' @ shell_quote (ws_name step) @
      '' JANUS_WORKFLOW='' @ shell_quote (jb_workflow j) @
      '' JANUS_ENV_TIMESTAMP='' @ shell_quote timestamp @
      '' JANUS_ENV_TTY_DEVICES='' @ shell_quote tty_devices @
      '' '' @ shell_quote janush @ '' -c '' @ shell_quote command)"

section \<open>Small operations\<close>

definition git_head :: "'g machine \<Rightarrow> string \<Rightarrow> (string, 'g, string) io" where
  "git_head m root =
     bindE (attempt (m_git m root [''rev-parse'', ''HEAD''])) (\<lambda>out. ret
       (case out of
          Inr o' \<Rightarrow>
            if co_success o' then
              let h = trim (from_utf8_lossy (co_stdout o')) in
              if length h = 40 \<and> list_all is_ascii_hexdigit h then h else NULL_SHA
            else NULL_SHA
        | Inl _ \<Rightarrow> NULL_SHA))"

text \<open>\<open>to_lowercase\<close> changes other characters than the ASCII ones too, but no result of such a
  change is part of a match.\<close>

definition is_quota_exhausted :: "string \<Rightarrow> bool" where
  "is_quota_exhausted stdout =
     (let lower = map to_ascii_lower stdout in
      contains ''429'' lower \<or> contains ''too many requests'' lower \<or>
      contains ''rate limit'' lower \<or> contains ''quota exceeded'' lower \<or>
      contains ''exceeded your current quota'' lower)"

definition quota_sleep_seconds :: "env \<Rightarrow> nat" where
  "quota_sleep_seconds env =
     (case Option.bind (env ''JANUS_QUOTA_SLEEP_SECONDS'') parse_u64 of
        Some v \<Rightarrow> if 0 < v \<and> v \<le> 86400 then v else 300
      | None \<Rightarrow> 300)"

definition write_raw_log :: "'g machine \<Rightarrow> uuid \<Rightarrow> string \<Rightarrow> string \<Rightarrow> (string, 'g, unit) io" where
  "write_raw_log m task_id step_name raw =
     (let dir = ''/tmp/metamach/logs'' in
      bindE (m_create_dir_all m dir) (\<lambda>_.
      m_write m (path_join dir (uuid_simple task_id @ ''_'' @ step_name @ ''.raw'')) raw))"

section \<open>The writes guard\<close>

text \<open>The path of a status line; \<open>None\<close> is the panic of a slice off a character boundary.\<close>

definition status_path :: "string \<Rightarrow> string option" where
  "status_path line =
     (if is_char_boundary line 3
      then Some (case split_once '' -> '' (drop 3 line) of
             Some (old_path, new_path) \<Rightarrow> trim new_path | None \<Rightarrow> trim (drop 3 line))
      else None)"

definition write_allowed :: "string list \<Rightarrow> string \<Rightarrow> bool" where
  "write_allowed allowed file_path =
     list_ex (\<lambda>pattern.
       if suffix ''/'' pattern then prefix pattern file_path
       else file_path = pattern \<or> prefix (pattern @ ''/'') file_path) allowed"

definition unauthorized_paths :: "string list \<Rightarrow> string \<Rightarrow> string list option" where
  "unauthorized_paths allowed output =
     map_option (filter (\<lambda>p. \<not> write_allowed allowed p))
       (those (map status_path (filter (\<lambda>l. 4 \<le> length l) (lines output))))"

definition verify_post_execution_writes :: "'g machine \<Rightarrow> string \<Rightarrow> uuid \<Rightarrow> string \<Rightarrow>
    string list option \<Rightarrow> (string, 'g, bool) io" where
  "verify_post_execution_writes m root task_id step_name allowed_writes =
     (case allowed_writes of
        None \<Rightarrow> ret True
      | Some allowed \<Rightarrow>
          if allowed = [] then ret True
          else
            bindE (attempt (m_git m root [''status'', ''--porcelain''])) (\<lambda>out.
              case out of
                Inl _ \<Rightarrow> ret True
              | Inr o' \<Rightarrow>
                  if \<not> co_success o' then ret True
                  else
                    (case unauthorized_paths allowed (from_utf8_lossy (co_stdout o')) of
                       None \<Rightarrow> (\<lambda>_. None)
                     | Some [] \<Rightarrow> ret True
                     | Some (_ # _) \<Rightarrow>
                         bindE (attempt (snapshot_to_ref m root
                           (''refs/metamach/rollback/'' @ uuid_simple task_id @ ''-'' @ step_name)
                           (''metamach recovery snapshot for step '' @ [CHR 0x27] @ step_name @ [CHR 0x27])))
                         (\<lambda>_. ret False))))"

section \<open>Polling a pane\<close>

text \<open>The elapsed time since the last renewal of the lease is in milliseconds.\<close>

fun poll_exit_with_lease :: "('e, 'b, 'g) daemon \<Rightarrow> 'b backend \<Rightarrow> string \<Rightarrow> uuid \<Rightarrow> session_id \<Rightarrow>
    nat \<Rightarrow> nat \<Rightarrow> ('e, 'b, 'g, exit_code) act" where
  "poll_exit_with_lease d bk queue run_id session 0 since_extend = panic"
| "poll_exit_with_lease d bk queue run_id session (Suc rounds) since_extend =
     bindE (on_backend (poll_exit bk session)) (\<lambda>r.
       case r of
         Some code \<Rightarrow> ret code
       | None \<Rightarrow>
           bindE (others d POLL_INTERVAL) (\<lambda>_.
             if LEASE_EXTEND_INTERVAL \<le> since_extend + POLL_INTERVAL then
               bindE (on_engine d (extend_claim (dn_engine d) queue run_id LEASE_EXTEND_BY)) (\<lambda>_.
                 poll_exit_with_lease d bk queue run_id session rounds 0)
             else
               poll_exit_with_lease d bk queue run_id session rounds (since_extend + POLL_INTERVAL)))"

section \<open>One attempt at a step\<close>

definition step_host :: "validated_recipe \<Rightarrow> workflow_step \<Rightarrow> string option" where
  "step_host recipe step = (case ws_host step of Some h \<Rightarrow> Some h | None \<Rightarrow> vr_remote_host recipe)"

definition is_sandbox :: "workflow_step \<Rightarrow> bool" where
  "is_sandbox step = (ws_isolation step = Some ''sandbox'')"

text \<open>What a step's attempts share.\<close>

record 'b step_run =
  sr_run :: uuid
  sr_sha :: string
  sr_idx :: nat
  sr_step :: workflow_step
  sr_backend :: "'b backend"
  sr_cwd :: string
  sr_snapshot :: json

datatype attempt_result =
    Completed
  | Returned step_outcome
  | Nonzero exit_code "string option"

definition attempt_session :: "uuid \<Rightarrow> nat \<Rightarrow> nat \<Rightarrow> session_id" where
  "attempt_session task_id idx attempt_no =
     new_for_task (uuid_simple task_id @ ''-'' @ dec idx @
       (if attempt_no = 1 then [] else ''-corr-'' @ dec (attempt_no - 1)))"

definition finalize :: "('e, 'b, 'g) daemon \<Rightarrow> job \<Rightarrow> workflow_step \<Rightarrow> string \<Rightarrow> exit_code option \<Rightarrow>
    string option \<Rightarrow> ('e, 'b, 'g, unit) act" where
  "finalize d j step status code tail =
     on_db d (finalize_step (vr_name (jb_recipe j)) (jb_task j) (ws_name step) status code tail)"

definition current_status :: "('e, 'b, 'g) daemon \<Rightarrow> job \<Rightarrow> workflow_step \<Rightarrow> ('e, 'b, 'g, string option) act" where
  "current_status d j step =
     on_db d (step_status_of (vr_name (jb_recipe j)) (jb_task j) (ws_name step))"

definition start_step :: "('e, 'b, 'g) daemon \<Rightarrow> job \<Rightarrow> workflow_step \<Rightarrow> string \<Rightarrow> session_id \<Rightarrow> json \<Rightarrow>
    ('e, 'b, 'g, unit) act" where
  "start_step d j step target_sha session snapshot =
     bindE (on_db d (upsert_step_start (vr_name (jb_recipe j)) (jb_task j) (ws_name step)
       (jb_workflow j) target_sha (sid_str session) snapshot)) (\<lambda>_.
     on_db d (set_step_running (vr_name (jb_recipe j)) (jb_task j) (ws_name step)))"

text \<open>A checkpoint that the envelope accepts is stored; the error of one that it does not is
  propagated.\<close>

definition envelope_error_string :: "envelope_error \<Rightarrow> string" where
  "envelope_error_string e =
     (case e of
        Validation m \<Rightarrow> ''Validation failed: '' @ m
      | Missing_field f \<Rightarrow> ''Missing required field: '' @ f
      | Serialization m \<Rightarrow> ''Serialization error: '' @ m)"

definition write_checkpoint :: "('e, 'b, 'g) daemon \<Rightarrow> job \<Rightarrow> uuid \<Rightarrow> workflow_step \<Rightarrow>
    checkpoint_envelope \<Rightarrow> ('e, 'b, 'g, unit) act" where
  "write_checkpoint d j run_id step e =
     (case to_checkpoint_value e of
        Inl err \<Rightarrow> fail (envelope_error_string err)
      | Inr v \<Rightarrow> on_engine d (set_checkpoint (dn_engine d) (jb_queue j) (jb_task j) (ws_name step) v run_id))"

text \<open>What follows an exit with code 0: the pinned revision, the writes guard, the harvest of a
  sandbox, the checkpoint and the overlay.\<close>

definition exit_zero :: "('e, 'b, 'g) daemon \<Rightarrow> job \<Rightarrow> 'b step_run \<Rightarrow> exit_code \<Rightarrow> string option \<Rightarrow>
    ('e, 'b, 'g, attempt_result) act" where
  "exit_zero d j s code tail =
     (let step = sr_step s; m = dn_machine d in
      bindE (if sr_sha s \<noteq> NULL_SHA then on_machine (git_head m (dn_root d)) else ret (sr_sha s)) (\<lambda>current.
      if current \<noteq> sr_sha s then
        bindE (finalize d j step ''SUSPENDED'' (Some code) tail) (\<lambda>_.
          ret (Returned (Stale_head (ws_name step))))
      else
        bindE (case ws_writes step of
                 Some writes \<Rightarrow> on_machine (verify_post_execution_writes m (sr_cwd s) (jb_task j)
                   (ws_name step) (Some writes))
               | None \<Rightarrow> ret True) (\<lambda>write_ok.
        if \<not> write_ok then
          bindE (finalize d j step ''SUSPENDED'' (Some code) (Some (''Post-execution writes guard violated: '' @
            ''unauthorized file modifications snapshotted to recovery ref''))) (\<lambda>_.
            ret (Returned (Step_suspended (sr_idx s) (ws_name step))))
        else
          bindE (if is_sandbox step
                 then ignore (on_machine (harvest_sandbox_output m (dn_root d) (jb_task j) (ws_name step)))
                 else ret ()) (\<lambda>_.
          bindE (write_checkpoint d j (sr_run s) step
            (envelope_new (jb_task j) (ws_name step) ''COMPLETED'' (Some 0) None
              (JObj [(''exit'', JInt 0)]))) (\<lambda>_.
          bindE (finalize d j step ''COMPLETED'' (Some 0) tail) (\<lambda>_. ret Completed))))))"

text \<open>What follows the end of the session: \<open>exit\<close> is what polling returned.\<close>

definition after_session :: "('e, 'b, 'g) daemon \<Rightarrow> job \<Rightarrow> 'b step_run \<Rightarrow> string + exit_code \<Rightarrow>
    string option \<Rightarrow> ('e, 'b, 'g, attempt_result) act" where
  "after_session d j s exit tail =
     (let step = sr_step s; suspended = ret (Returned (Step_suspended (sr_idx s) (ws_name step))) in
      case exit of
        Inl e \<Rightarrow>
          bindE (current_status d j step) (\<lambda>status.
            if status = Some ''STOPPED'' then suspended
            else
              bindE (finalize d j step ''FAILED'' (Some (- 1)) (Some (''step poll failed: '' @ e))) (\<lambda>_.
                ret (Returned Failed)))
      | Inr code \<Rightarrow>
          bindE (current_status d j step) (\<lambda>status.
            if status = Some ''SUSPENDED'' \<or> status = Some ''STOPPED'' then
              bindE (finalize d j step (the status) None tail) (\<lambda>_. suspended)
            else if code = 0 then exit_zero d j s code tail
            else
              (case tail of
                 Some t \<Rightarrow>
                   if is_quota_exhausted t
                   then ret (Returned (Quota_exhausted (quota_sleep_seconds (dn_env d))))
                   else ret (Nonzero code tail)
               | None \<Rightarrow> ret (Nonzero code tail))))"

definition run_session :: "('e, 'b, 'g) daemon \<Rightarrow> job \<Rightarrow> 'b step_run \<Rightarrow> nat \<Rightarrow> session_id \<Rightarrow>
    ('e, 'b, 'g, attempt_result) act" where
  "run_session d j s rounds session =
     (let step = sr_step s; bk = sr_backend s in
      bindE (attempt (poll_exit_with_lease d bk (jb_queue j) (sr_run s) session rounds 0)) (\<lambda>exit.
      bindE (attempt (on_backend (capture_pane bk session))) (\<lambda>raw.
      bindE (case raw of
               Inr text_out \<Rightarrow> ignore (on_machine (write_raw_log (dn_machine d) (jb_task j) (ws_name step) text_out))
             | Inl _ \<Rightarrow> ret ()) (\<lambda>_.
      bindE (ignore (on_backend (kill_session bk session))) (\<lambda>_.
      after_session d j s exit
        (case raw of Inr text_out \<Rightarrow> Some (truncate_16k (clean_pty_output text_out)) | Inl _ \<Rightarrow> None))))))"

definition step_attempt :: "('e, 'b, 'g) daemon \<Rightarrow> job \<Rightarrow> 'b step_run \<Rightarrow> nat \<Rightarrow> nat \<Rightarrow> string option \<Rightarrow>
    ('e, 'b, 'g, attempt_result) act" where
  "step_attempt d j s rounds attempt_no correction_context =
     (let step = sr_step s; bk = sr_backend s; session = attempt_session (jb_task j) (sr_idx s) attempt_no in
      bindE (start_step d j step (sr_sha s) session (sr_snapshot s)) (\<lambda>_.
      bindE (gets (\<lambda>w. step_command (dn_env d) (m_now (dn_machine d) (wl_machine w))
               (env_tty_devices (dn_machine d) (wl_machine w)) step j (dn_janush d)
               (step_host (jb_recipe j) step) correction_context)) (\<lambda>cmd.
      bindE (ignore (on_backend (kill_session bk session))) (\<lambda>_.
      bindE (attempt (on_backend (create_session bk session cmd (Some (sr_cwd s))))) (\<lambda>created.
        case created of
          Inl e \<Rightarrow>
            bindE (finalize d j step ''FAILED'' (Some (- 1)) (Some (''create_session failed: '' @ e))) (\<lambda>_.
              ret (Returned Failed))
        | Inr _ \<Rightarrow> run_session d j s rounds session)))))"

section \<open>Steps\<close>

definition max_attempts :: "workflow_step \<Rightarrow> nat" where
  "max_attempts step = (case ws_max_correction_attempts step of Some n \<Rightarrow> unat n | None \<Rightarrow> 3)"

definition correction_text :: "nat \<Rightarrow> workflow_step \<Rightarrow> exit_code \<Rightarrow> string option \<Rightarrow> string" where
  "correction_text attempt_no step code tail =
     ''Attempt '' @ dec attempt_no @ ''/'' @ dec (max_attempts step) @ '': Step '' @ [CHR 0x27] @
     ws_name step @ [CHR 0x27] @ '' failed with exit code '' @ i32_text code @ '': '' @
     (case tail of Some t \<Rightarrow> t | None \<Rightarrow> ''Non-zero exit code'')"

text \<open>The attempts at a step with a command: \<open>None\<close> is the normal end, \<open>Some\<close> an early return
  from the step loop. The counter stays below the maximum, so that it does not wrap.\<close>

function correction_loop :: "('e, 'b, 'g) daemon \<Rightarrow> job \<Rightarrow> 'b step_run \<Rightarrow> nat \<Rightarrow> nat \<Rightarrow> string option \<Rightarrow>
    ('e, 'b, 'g, step_outcome option) act" where
  "correction_loop d j s rounds attempt_no correction_context =
     bindE (step_attempt d j s rounds attempt_no correction_context) (\<lambda>r.
       case r of
         Completed \<Rightarrow> ret None
       | Returned outcome \<Rightarrow> ret (Some outcome)
       | Nonzero code tail \<Rightarrow>
           if attempt_no < max_attempts (sr_step s) then
             correction_loop d j s rounds (attempt_no + 1)
               (Some (correction_text attempt_no (sr_step s) code tail))
           else
             bindE (finalize d j (sr_step s) ''FAILED'' (Some code) tail) (\<lambda>_. ret (Some Failed)))"
  by pat_completeness auto
termination
  by (relation "measure (\<lambda>(d, j, s, rounds, attempt_no, ctx). max_attempts (sr_step s) - attempt_no)") auto

declare correction_loop.simps [simp del]

text \<open>A step without a command is completed at once.\<close>

definition manual_step :: "('e, 'b, 'g) daemon \<Rightarrow> job \<Rightarrow> 'b step_run \<Rightarrow> ('e, 'b, 'g, unit) act" where
  "manual_step d j s =
     (let step = sr_step s; session = attempt_session (jb_task j) (sr_idx s) 1 in
      bindE (start_step d j step (sr_sha s) session (sr_snapshot s)) (\<lambda>_.
      bindE (write_checkpoint d j (sr_run s) step
        (with_noop True (envelope_new (jb_task j) (ws_name step) ''COMPLETED'' (Some 0) None (JObj [])))) (\<lambda>_.
      finalize d j step ''COMPLETED'' (Some 0) None)))"

definition sandbox_dir :: "string \<Rightarrow> uuid \<Rightarrow> string \<Rightarrow> string" where
  "sandbox_dir root task_id step_name =
     path_join root (''.janus/sandboxes/'' @ uuid_simple task_id @ ''-'' @ step_name)"

text \<open>The worktree of a sandboxed step: where the step runs, and whether the guard removes it.\<close>

definition enter_sandbox :: "('e, 'b, 'g) daemon \<Rightarrow> job \<Rightarrow> workflow_step \<Rightarrow> ('e, 'b, 'g, string option) act" where
  "enter_sandbox d j step =
     (if is_sandbox step then
        let dir = sandbox_dir (dn_root d) (jb_task j) (ws_name step) in
        bindE (attempt (on_machine (create_sandbox_worktree (dn_machine d) (dn_root d) dir
          (jb_task j) (ws_name step)))) (\<lambda>r. ret (case r of Inr _ \<Rightarrow> Some dir | Inl _ \<Rightarrow> None))
      else ret None)"

definition leave_sandbox :: "('e, 'b, 'g) daemon \<Rightarrow> job \<Rightarrow> workflow_step \<Rightarrow> string option \<Rightarrow>
    ('e, 'b, 'g, unit) act" where
  "leave_sandbox d j step worktree_dir =
     (case worktree_dir of
        Some dir \<Rightarrow> ignore (on_machine (cleanup_sandbox_worktree (dn_machine d) (dn_root d) dir
          (jb_task j) (ws_name step)))
      | None \<Rightarrow> ret ())"

definition env_snapshot :: "'g machine \<Rightarrow> 'g \<Rightarrow> json" where
  "env_snapshot m g =
     JObj [(''timestamp'', JStr (m_now m g)), (''tty_devices'', JStr (env_tty_devices m g))]"

definition run_step :: "('e, 'b, 'g) daemon \<Rightarrow> job \<Rightarrow> uuid \<Rightarrow> string \<Rightarrow> nat \<Rightarrow> nat \<Rightarrow> workflow_step \<Rightarrow>
    ('e, 'b, 'g, step_outcome option) act" where
  "run_step d j run_id target_sha rounds idx step =
     bindE (on_backend (dn_factory d (step_host (jb_recipe j) step))) (\<lambda>backend.
     bindE (enter_sandbox d j step) (\<lambda>worktree_dir.
     finally_do
       (bindE (gets (\<lambda>w. env_snapshot (dn_machine d) (wl_machine w))) (\<lambda>snapshot.
        let s = \<lparr>sr_run = run_id, sr_sha = target_sha, sr_idx = idx, sr_step = step,
              sr_backend = (if is_sandbox step
                then dn_socket_backend d (''metamach-sandbox-'' @ uuid_simple (jb_task j)) else backend),
              sr_cwd = (case worktree_dir of Some dir \<Rightarrow> dir | None \<Rightarrow> dn_root d),
              sr_snapshot = snapshot\<rparr> in
        case ws_command step of
          Some _ \<Rightarrow> correction_loop d j s rounds 1 None
        | None \<Rightarrow> bindE (manual_step d j s) (\<lambda>_. ret None)))
       (leave_sandbox d j step worktree_dir)))"

fun run_step_list :: "('e, 'b, 'g) daemon \<Rightarrow> job \<Rightarrow> uuid \<Rightarrow> string \<Rightarrow> nat \<Rightarrow> (nat \<times> workflow_step) list \<Rightarrow>
    ('e, 'b, 'g, step_outcome) act" where
  "run_step_list d j run_id target_sha rounds [] = ret Done"
| "run_step_list d j run_id target_sha rounds ((idx, step) # rest) =
     bindE (run_step d j run_id target_sha rounds idx step) (\<lambda>r.
       case r of
         Some outcome \<Rightarrow> ret outcome
       | None \<Rightarrow> run_step_list d j run_id target_sha rounds rest)"

definition steps_from :: "job \<Rightarrow> nat \<Rightarrow> (nat \<times> workflow_step) list" where
  "steps_from j start_idx = drop start_idx (enumerate 0 (wf_steps (vr_workflow (jb_recipe j))))"

definition run_steps :: "('e, 'b, 'g) daemon \<Rightarrow> job \<Rightarrow> uuid \<Rightarrow> string \<Rightarrow> nat \<Rightarrow> nat \<Rightarrow>
    ('e, 'b, 'g, step_outcome) act" where
  "run_steps d j run_id target_sha rounds start_idx =
     run_step_list d j run_id target_sha rounds (steps_from j start_idx)"

section \<open>Claims\<close>

definition add_host :: "string option \<Rightarrow> string option list \<Rightarrow> string option list" where
  "add_host h hosts = (if h \<in> set hosts then hosts else hosts @ [h])"

definition workflow_hosts :: "validated_recipe \<Rightarrow> string option list" where
  "workflow_hosts recipe =
     fold (\<lambda>step. add_host (step_host recipe step)) (wf_steps (vr_workflow recipe)) [None]"

fun kill_matching :: "'b backend \<Rightarrow> string \<Rightarrow> string list \<Rightarrow> (string, 'b, unit) io" where
  "kill_matching bk pre [] = ret ()"
| "kill_matching bk pre (name # names) =
     bindE (if prefix pre name then ignore (kill_session bk (SessionId name)) else ret ()) (\<lambda>_.
       kill_matching bk pre names)"

fun kill_on_hosts :: "'b factory \<Rightarrow> string \<Rightarrow> string option list \<Rightarrow> (string, 'b, unit) io" where
  "kill_on_hosts factory pre [] = ret ()"
| "kill_on_hosts factory pre (host # hosts) =
     bindE (factory host) (\<lambda>backend.
     bindE (list_sessions backend) (\<lambda>names.
     bindE (kill_matching backend pre names) (\<lambda>_. kill_on_hosts factory pre hosts)))"

definition task_prefix :: "uuid \<Rightarrow> string" where
  "task_prefix task_id = SESSION_PREFIX @ uuid_simple task_id @ ''-''"

definition kill_stale_sessions :: "'b factory \<Rightarrow> validated_recipe \<Rightarrow> uuid \<Rightarrow> (string, 'b, unit) io" where
  "kill_stale_sessions factory recipe task_id =
     kill_on_hosts factory (task_prefix task_id) (workflow_hosts recipe)"

definition task_non_terminal :: "'e engine \<Rightarrow> string \<Rightarrow> uuid \<Rightarrow> (string, 'e, bool) io" where
  "task_non_terminal eng queue task_id =
     bindE (non_terminal_tasks eng queue) (\<lambda>ts. ret (list_ex (\<lambda>t. ti_task_id t = task_id) ts))"

text \<open>\<open>position(..).unwrap_or(0)\<close>.\<close>

definition step_position :: "validated_recipe \<Rightarrow> string \<Rightarrow> nat" where
  "step_position recipe name =
     (let names = map ws_name (wf_steps (vr_workflow recipe)) in
      if name \<in> set names then length (takeWhile (\<lambda>n. n \<noteq> name) names) else 0)"

definition resume_of :: "(string \<Rightarrow> uuid option) \<Rightarrow> uuid \<Rightarrow> validated_recipe \<Rightarrow> (string \<times> json) option \<Rightarrow>
    nat \<times> resume_action" where
  "resume_of parse_uuid task_id recipe checkpoint =
     (case checkpoint of
        None \<Rightarrow> (0, Run)
      | Some (step_name, state) \<Rightarrow>
          let e = parse_checkpoint parse_uuid state task_id;
              target = (if ce_step_name e \<noteq> [] then ce_step_name e else step_name);
              idx = step_position recipe target in
          if ce_status e = ''COMPLETED'' then (idx + 1, Run)
          else if ce_hitl_verdict e = Some ''APPROVED'' \<or> ce_hitl_verdict e = Some ''OVERRIDDEN''
            then (idx, Run)
          else if ce_hitl_verdict e = Some ''REJECTED'' then (idx, Fail_hitl)
          else (idx, Await_hitl))"

definition resume_point :: "'e engine \<Rightarrow> (string \<Rightarrow> uuid option) \<Rightarrow> string \<Rightarrow> uuid \<Rightarrow> validated_recipe \<Rightarrow>
    (string, 'e, nat \<times> resume_action) io" where
  "resume_point eng parse_uuid queue task_id recipe =
     bindE (get_last_checkpoint eng queue task_id) (\<lambda>c. ret (resume_of parse_uuid task_id recipe c))"

section \<open>Human verdicts\<close>

definition hitl_event :: "uuid \<Rightarrow> string" where
  "hitl_event task_id = ''hitl.verdict:'' @ uuid_string task_id"

definition verdict_of_payload :: "json \<Rightarrow> hitl_await_result" where
  "verdict_of_payload payload =
     (if get_str ''hitl_verdict'' payload \<in> {Some ''APPROVED'', Some ''OVERRIDDEN''}
      then Hitl_approved else Hitl_rejected_or_timeout)"

definition hitl_await :: "'e engine \<Rightarrow> env \<Rightarrow> string \<Rightarrow> uuid \<Rightarrow> uuid \<Rightarrow> string \<Rightarrow>
    (string, 'e, hitl_await_result) io" where
  "hitl_await eng env queue task_id run_id step_name =
     bindE (await_event eng queue task_id run_id step_name (hitl_event task_id)
       (Some (hitl_timeout_secs (env ''JANUS_HITL_TIMEOUT_SECS'')))) (\<lambda>r.
       ret (case r of Suspended \<Rightarrow> Hitl_suspended | Resolved payload \<Rightarrow> verdict_of_payload payload))"

definition run_state :: "uuid \<Rightarrow> json" where
  "run_state task_id = JObj [(''task_id'', JStr (uuid_string task_id))]"

definition fail_reason :: "uuid \<Rightarrow> string \<Rightarrow> json" where
  "fail_reason task_id reason =
     JObj [(''task_id'', JStr (uuid_string task_id)), (''reason'', JStr reason)]"

definition complete_task :: "('e, 'b, 'g) daemon \<Rightarrow> job \<Rightarrow> uuid \<Rightarrow> ('e, 'b, 'g, unit) act" where
  "complete_task d j run_id =
     on_engine d (complete_run (dn_engine d) (jb_queue j) run_id (run_state (jb_task j)))"

definition fail_task :: "('e, 'b, 'g) daemon \<Rightarrow> job \<Rightarrow> uuid \<Rightarrow> string \<Rightarrow> ('e, 'b, 'g, unit) act" where
  "fail_task d j run_id reason =
     on_engine d (fail_run (dn_engine d) (jb_queue j) run_id (fail_reason (jb_task j) reason))"

definition hitl_await_and_rerun :: "('e, 'b, 'g) daemon \<Rightarrow> job \<Rightarrow> uuid \<Rightarrow> string \<Rightarrow> nat \<Rightarrow> nat \<Rightarrow> string \<Rightarrow>
    ('e, 'b, 'g, uuid option) act" where
  "hitl_await_and_rerun d j run_id target_sha rounds step_idx step_name =
     bindE (on_engine d (hitl_await (dn_engine d) (dn_env d) (jb_queue j) (jb_task j) run_id step_name)) (\<lambda>v.
       case v of
         Hitl_suspended \<Rightarrow> ret None
       | Hitl_approved \<Rightarrow>
           bindE (run_steps d j run_id target_sha rounds step_idx) (\<lambda>outcome.
             case outcome of
               Done \<Rightarrow> bindE (complete_task d j run_id) (\<lambda>_. ret (Some (jb_task j)))
             | Step_suspended _ _ \<Rightarrow> ret None
             | _ \<Rightarrow> bindE (fail_task d j run_id ''step_failed'') (\<lambda>_. ret None))
       | Hitl_rejected_or_timeout \<Rightarrow>
           bindE (fail_task d j run_id ''hitl_rejected'') (\<lambda>_. ret (Some (jb_task j))))"

section \<open>The claim loop\<close>

text \<open>What a claimed run does, from its resume point; \<open>Some\<close> is the return of \<open>run_workflow\<close>.\<close>

definition run_action :: "('e, 'b, 'g) daemon \<Rightarrow> job \<Rightarrow> uuid \<Rightarrow> string \<Rightarrow> nat \<Rightarrow> nat \<Rightarrow>
    ('e, 'b, 'g, uuid option) act" where
  "run_action d j run_id target_sha rounds start_idx =
     bindE (run_steps d j run_id target_sha rounds start_idx) (\<lambda>outcome.
       case outcome of
         Done \<Rightarrow> bindE (complete_task d j run_id) (\<lambda>_. ret (Some (jb_task j)))
       | Failed \<Rightarrow> bindE (fail_task d j run_id ''step_failed'') (\<lambda>_. ret None)
       | Quota_exhausted seconds \<Rightarrow>
           bindE (others d (1000 * seconds)) (\<lambda>_.
           bindE (fail_task d j run_id ''quota_exhausted'') (\<lambda>_. ret None))
       | Stale_head step_name \<Rightarrow> bindE (fail_task d j run_id ''stale_head'') (\<lambda>_. ret None)
       | Step_suspended step_idx step_name \<Rightarrow>
           hitl_await_and_rerun d j run_id target_sha rounds step_idx step_name)"

definition claimed_round :: "('e, 'b, 'g) daemon \<Rightarrow> job \<Rightarrow> nat \<Rightarrow> claimed_task \<Rightarrow>
    ('e, 'b, 'g, uuid option) act" where
  "claimed_round d j rounds claimed =
     (let run_id = ct_run_id claimed; task_id = jb_task j; recipe = jb_recipe j in
      if ct_task_id claimed \<noteq> task_id then
        fail (''claimed task_id '' @ uuid_string (ct_task_id claimed) @ '' != expected task_id '' @
          uuid_string task_id)
      else
        bindE (on_engine d (resume_point (dn_engine d) (dn_parse_uuid d) (jb_queue j) task_id recipe)) (\<lambda>p.
        bindE (on_machine (git_head (dn_machine d) (dn_root d))) (\<lambda>target_sha.
          case snd p of
            Fail_hitl \<Rightarrow> bindE (fail_task d j run_id ''hitl_rejected'') (\<lambda>_. ret (Some task_id))
          | Await_hitl \<Rightarrow>
              (if fst p < length (wf_steps (vr_workflow recipe))
               then hitl_await_and_rerun d j run_id target_sha rounds (fst p)
                      (ws_name (wf_steps (vr_workflow recipe) ! fst p))
               else panic)
          | Run \<Rightarrow> run_action d j run_id target_sha rounds (fst p))))"

definition workflow_round :: "('e, 'b, 'g) daemon \<Rightarrow> job \<Rightarrow> nat \<Rightarrow> ('e, 'b, 'g, uuid option) act" where
  "workflow_round d j rounds =
     bindE (on_backend (kill_stale_sessions (dn_factory d) (jb_recipe j) (jb_task j))) (\<lambda>_.
     bindE (on_engine d (claim_task (dn_engine d) (jb_queue j) WORKER_ID)) (\<lambda>c.
       case c of
         None \<Rightarrow>
           bindE (on_engine d (task_non_terminal (dn_engine d) (jb_queue j) (jb_task j))) (\<lambda>live.
             if \<not> live then ret (Some (jb_task j))
             else bindE (others d RETRY_POLL_INTERVAL) (\<lambda>_. ret None))
       | Some claimed \<Rightarrow> claimed_round d j rounds claimed))"

fun workflow_loop :: "('e, 'b, 'g) daemon \<Rightarrow> job \<Rightarrow> nat \<Rightarrow> nat \<Rightarrow> ('e, 'b, 'g, uuid) act" where
  "workflow_loop d j rounds 0 = panic"
| "workflow_loop d j rounds (Suc claims) =
     bindE (workflow_round d j rounds) (\<lambda>r.
       case r of Some task_id \<Rightarrow> ret task_id | None \<Rightarrow> workflow_loop d j rounds claims)"

definition run_workflow :: "('e, 'b, 'g) daemon \<Rightarrow> validated_recipe \<Rightarrow> string \<Rightarrow> uuid \<Rightarrow> nat \<Rightarrow> nat \<Rightarrow>
    ('e, 'b, 'g, uuid) act" where
  "run_workflow d recipe workflow_name task_id rounds claims =
     workflow_loop d \<lparr>jb_recipe = recipe, jb_workflow = workflow_name,
       jb_queue = queue_name (vr_name recipe) workflow_name, jb_task = task_id\<rparr> rounds claims"

end
