(* ===== verification/Workflow_Laws.thy ===== *)
theory Workflow_Laws
  imports Workflow_Engine
begin

text \<open>
  What the workflow engine of \<open>Workflow_Engine\<close> guarantees: the quoting of the command line, the
  checkpoints that a pass over the steps leaves and the resume point they give, the number of
  sessions of a step, which sessions a new claim kills on which hosts, the writes guard, what steps
  of one name do to a retry, the renewal of the lease, that a workflow of succeeding steps completes, and how human verdicts are read.
\<close>

section \<open>The command line is one shell command\<close>

text \<open>How a POSIX shell splits a command into words, for commands of blanks, characters without
  a special meaning, single quotes and escaped characters. The second argument is the word
  that has been started.\<close>

definition sh_plain :: "char \<Rightarrow> bool" where
  "sh_plain c = (is_ascii_alphanumeric c \<or> c \<in> set ''_-./:='')"

definition sh_blank :: "char \<Rightarrow> bool" where
  "sh_blank c = (c = CHR '' '' \<or> c = CHR 0x09)"

definition started :: "string option \<Rightarrow> string" where
  "started w = (case w of Some s \<Rightarrow> s | None \<Rightarrow> [])"

fun sh_lex :: "string \<Rightarrow> string option \<Rightarrow> string list option"
  and sh_quoted :: "string \<Rightarrow> string \<Rightarrow> string list option" where
  "sh_lex [] w = Some (case w of None \<Rightarrow> [] | Some s \<Rightarrow> [s])"
| "sh_lex (c # cs) w =
     (if c = CHR 0x27 then sh_quoted cs (started w)
      else if c = CHR 0x5C then
        (case cs of d # ds \<Rightarrow> if d = newline then None else sh_lex ds (Some (started w @ [d]))
         | [] \<Rightarrow> None)
      else if sh_blank c then
        map_option (\<lambda>ws. (case w of None \<Rightarrow> [] | Some s \<Rightarrow> [s]) @ ws) (sh_lex cs None)
      else if sh_plain c then sh_lex cs (Some (started w @ [c]))
      else None)"
| "sh_quoted [] w = None"
| "sh_quoted (c # cs) w = (if c = CHR 0x27 then sh_lex cs (Some w) else sh_quoted cs (w @ [c]))"

definition sh_words :: "string \<Rightarrow> string list option" where
  "sh_words s = sh_lex s None"

named_theorems sh_simps \<open>splitting the words of a command line\<close>

lemma started_Some [simp]: "started (Some s) = s" and started_None [simp]: "started None = []"
  by (simp_all add: started_def)

lemma sh_quoted_body: "sh_quoted (concat (map quote_char s) @ CHR 0x27 # rest) w = sh_lex rest (Some (w @ s))"
  by (induction s arbitrary: w) (simp_all add: quote_char_def newline_def)

lemma sh_lex_quote [sh_simps]: "sh_lex (shell_quote s @ rest) w = sh_lex rest (Some (started w @ s))"
  by (simp add: shell_quote_def sh_quoted_body)

lemma sh_plain_simps: "sh_plain c \<Longrightarrow> c \<noteq> CHR 0x27 \<and> c \<noteq> CHR 0x5C \<and> \<not> sh_blank c"
  by (auto simp: sh_plain_def sh_blank_def is_ascii_alphanumeric_def is_digit_def)

lemma sh_lex_plain: "list_all sh_plain p \<Longrightarrow> p \<noteq> [] \<Longrightarrow>
    sh_lex (p @ rest) w = sh_lex rest (Some (started w @ p))"
proof (induction p arbitrary: w)
  case (Cons c p)
  then show ?case using sh_plain_simps [of c] by (cases p) simp_all
qed simp

lemma sh_lex_blank [sh_simps]: "sh_lex (CHR '' '' # rest) w =
    map_option (\<lambda>ws. (case w of None \<Rightarrow> [] | Some s \<Rightarrow> [s]) @ ws) (sh_lex rest None)"
  by (simp add: sh_blank_def)

text \<open>The assignments that \<open>env\<close> is given, then the proxy shell with its one argument.\<close>

definition step_words :: "env \<Rightarrow> string \<Rightarrow> string \<Rightarrow> workflow_step \<Rightarrow> job \<Rightarrow> string \<Rightarrow>
    string option \<Rightarrow> string option \<Rightarrow> string list" where
  "step_words env timestamp tty_devices step j janush host ctx =
     ''env'' #
     (case host of
        None \<Rightarrow> [''JANUS_SOCK_PATH='' @ sock_path env, ''HERDR_PLUGIN_STATE_DIR='' @ state_dir env]
      | Some h \<Rightarrow> [''JANUS_SOCK_PATH=/tmp/mm-'' @ h @ ''.sock'']) @
     (case ctx of None \<Rightarrow> [] | Some c \<Rightarrow> [''METAMACH_CORRECTION_CONTEXT='' @ c]) @
     [''JANUS_AGENT='' @ ws_agent step, ''JANUS_BLUEPRINT='' @ vr_name (jb_recipe j),
      ''JANUS_TASK_ID='' @ uuid_string (jb_task j), ''JANUS_STEP='' @ ws_name step,
      ''JANUS_WORKFLOW='' @ jb_workflow j, ''JANUS_ENV_TIMESTAMP='' @ timestamp,
      ''JANUS_ENV_TTY_DEVICES='' @ tty_devices, janush, ''-c'',
      (case ws_command step of Some c \<Rightarrow> c | None \<Rightarrow> ''true'')]"

lemma uuid_string_plain: "list_all sh_plain (uuid_string u)"
proof -
  have "sh_plain c" if "c \<in> set (uuid_simple u)" for c
    using uuid_simple_hex [OF that] by (auto simp: sh_plain_def is_ascii_alphanumeric_def is_ascii_hexdigit_def)
  then show ?thesis
    by (auto simp: list_all_iff uuid_string_def Let_def sh_plain_def dest!: in_set_takeD in_set_dropD)
qed

lemma list_all_lit: "list_all sh_plain s \<longleftrightarrow> (\<forall>c \<in> set s. sh_plain c)"
  by (rule list_all_iff)

lemma sh_assign_quote [sh_simps]:
  "list_all sh_plain p \<Longrightarrow> p \<noteq> [] \<Longrightarrow> sh_lex (p @ shell_quote s @ rest) None = sh_lex rest (Some (p @ s))"
  by (simp add: sh_lex_plain sh_lex_quote)

lemma sh_lex_uuid [sh_simps]: "sh_lex (uuid_string t @ rest) (Some w) = sh_lex rest (Some (w @ uuid_string t))"
proof -
  have "uuid_string t \<noteq> []" by (simp add: uuid_string_def Let_def)
  then show ?thesis using sh_lex_plain [OF uuid_string_plain, of t rest "Some w"] by simp
qed

lemmas sh_lex_quote_end [sh_simps] = sh_lex_quote [where rest = "[]", simplified]

lemmas sh_char_simps = sh_plain_def sh_blank_def is_ascii_alphanumeric_def is_digit_def

text \<open>C5: whatever bytes the command, the names, the paths and the correction context hold, the
  shell that runs the workload splits it into the assignments, the proxy shell, \<open>-c\<close> and the
  command as one argument: quoting is a left inverse of word splitting. The host of a remote
  step is pasted in without quotes and has to be free of special characters.\<close>

theorem step_command_words:
  assumes "\<And>h. host = Some h \<Longrightarrow> list_all sh_plain h"
  shows "sh_words (step_command env ts dev step j janush host ctx) =
    Some (step_words env ts dev step j janush host ctx)"
proof (cases host)
  case None
  then show ?thesis
    by (cases ctx)
       (simp_all add: sh_words_def step_command_def step_words_def sh_simps sh_char_simps)
next
  case (Some h)
  with assms have h: "list_all sh_plain h" by simp
  have host: "sh_lex (h @ CHR ''.'' # rest) (Some w) = sh_lex (CHR ''.'' # rest) (Some (w @ h))" for rest w
    using sh_lex_plain [OF h, of "CHR ''.'' # rest" "Some w"] by (cases "h = []") simp_all
  show ?thesis
    using Some
    by (cases ctx)
       (simp_all add: sh_words_def step_command_def step_words_def sh_simps sh_char_simps host)
qed

definition sample_job :: job where
  "sample_job = \<lparr>jb_recipe = \<lparr>vr_name = ''bp'', vr_default_workflow = ''flow'', vr_remote_host = None,
     vr_remote_user = None, vr_openwiki_scope = [], vr_config_text = [],
     vr_workflow = \<lparr>wf_name = ''flow'', wf_description = None,
       wf_steps = [sample_step ''scout'' None, sample_step ''build'' (Some ''echo ok'')]\<rparr>\<rparr>,
     jb_workflow = ''flow'', jb_queue = ''bp_flow'', jb_task = 0\<rparr>"

lemma step_command_words_witness:
  "sh_words (step_command Map.empty ''t'' [] (sample_step ''it'' (Some ''echo $HOME; rm x'')) sample_job
      ''/bin/janush'' (Some ''box-1'') None) =
   Some (step_words Map.empty ''t'' [] (sample_step ''it'' (Some ''echo $HOME; rm x'')) sample_job
      ''/bin/janush'' (Some ''box-1'') None)"
  by (rule step_command_words) (simp add: sh_char_simps)

section \<open>What a computation appends to a log\<close>

text \<open>\<open>appends L c P m\<close>: every run of \<open>m\<close> extends the log \<open>L\<close> by a prefix of \<open>c\<close>, and a result is
  related by \<open>P\<close> to the length of that prefix.\<close>

definition appends :: "('w \<Rightarrow> 'x list) \<Rightarrow> 'x list \<Rightarrow> ('a \<Rightarrow> nat \<Rightarrow> bool) \<Rightarrow> ('e, 'w, 'a) io \<Rightarrow> bool" where
  "appends L c P m = (\<forall>w r w'. m w = Some (r, w') \<longrightarrow>
     (\<exists>k \<le> length c. L w' = L w @ take k c \<and> (\<forall>x. r = Inr x \<longrightarrow> P x k)))"

definition same :: "('w \<Rightarrow> 'x) \<Rightarrow> 'w \<Rightarrow> 'w \<Rightarrow> bool" where
  "same L w w' = (L w' = L w)"

lemma same_refl [simp, keeps_intros]: "reflp (same L)" and same_trans [simp, keeps_intros]: "transp (same L)"
  by (auto simp: same_def reflp_def transp_def)

lemma appendsD: "appends L c P m \<Longrightarrow> m w = Some (r, w') \<Longrightarrow>
    \<exists>k \<le> length c. L w' = L w @ take k c \<and> (\<forall>x. r = Inr x \<longrightarrow> P x k)"
  by (auto simp: appends_def)

lemma appends_keeps: "keeps (same L) m \<Longrightarrow> (\<And>x. P x 0) \<Longrightarrow> appends L c P m"
  by (fastforce simp: appends_def keeps_def same_def)

lemma appends_ret: "P x 0 \<Longrightarrow> appends L c P (ret x)"
  by (auto simp: appends_def ret_def)

lemma appends_bind_keeps:
  assumes "keeps (same L) m" and "\<And>x. appends L c P (f x)"
  shows "appends L c P (bindE m f)"
  unfolding appends_def
proof (intro allI impI)
  fix w r w'
  assume "bindE m f w = Some (r, w')"
  then consider e where "m w = Some (Inl e, w')" "r = Inl e"
    | x v where "m w = Some (Inr x, v)" "f x v = Some (r, w')" by (auto simp: bindE_io)
  then show "\<exists>k \<le> length c. L w' = L w @ take k c \<and> (\<forall>x. r = Inr x \<longrightarrow> P x k)"
  proof cases
    case 1
    with keepsD [OF assms(1) 1(1)] show ?thesis by (auto simp: same_def)
  next
    case 2
    with keepsD [OF assms(1) 2(1)] appendsD [OF assms(2) 2(2)] show ?thesis by (simp add: same_def)
  qed
qed

lemma appends_bind_then:
  assumes "appends L c Q m" and "\<And>x. keeps (same L) (f x)"
    and "\<And>x k v y v'. Q x k \<Longrightarrow> f x v = Some (Inr y, v') \<Longrightarrow> P y k"
  shows "appends L c P (bindE m f)"
  unfolding appends_def
proof (intro allI impI)
  fix w r w'
  assume "bindE m f w = Some (r, w')"
  then consider e where "m w = Some (Inl e, w')" "r = Inl e"
    | x v where "m w = Some (Inr x, v)" "f x v = Some (r, w')" by (auto simp: bindE_io)
  then show "\<exists>k \<le> length c. L w' = L w @ take k c \<and> (\<forall>x. r = Inr x \<longrightarrow> P x k)"
  proof cases
    case 1
    with appendsD [OF assms(1) 1(1)] show ?thesis by auto
  next
    case 2
    with appendsD [OF assms(1) 2(1)] keepsD [OF assms(2) 2(2)] assms(3) show ?thesis
      by (fastforce simp: same_def)
  qed
qed

lemma keeps_ignore [keeps_intros]: "transp R \<Longrightarrow> reflp R \<Longrightarrow> keeps R m \<Longrightarrow> keeps R (ignore m)"
  unfolding ignore_def by (intro keeps_intros)

lemma keeps_panic [keeps_intros]: "keeps R panic"
  by (simp add: keeps_def panic_def)

declare ignore_io [io_simps]

lemma finally_unfold:
  "finally_do m f w = (case m w of None \<Rightarrow> None
     | Some (r, v) \<Rightarrow> map_option (\<lambda>(x, w'). (r, w')) (f v))"
proof (cases "m w")
  case (Some rv)
  obtain r v where rv: "rv = (r, v)" by (cases rv)
  show ?thesis
    using Some rv
    by (cases r; cases "f v")
       (auto simp: finally_do_def ignore_def bindE_def attempt_def ret_def fail_def)
qed (simp add: finally_do_def bindE_def attempt_def)

lemma finally_io [io_simps]:
  "finally_do m f w = Some (r, w') \<longleftrightarrow> (\<exists>v x. m w = Some (r, v) \<and> f v = Some (x, w'))"
  by (auto simp: finally_unfold split: option.splits)

lemma appends_finally:
  assumes "appends L c P m" and "keeps (same L) f"
  shows "appends L c P (finally_do m f)"
  unfolding appends_def
proof (intro allI impI)
  fix w r w'
  assume "finally_do m f w = Some (r, w')"
  then obtain v x where m: "m w = Some (r, v)" and f: "f v = Some (x, w')" by (auto simp: finally_io)
  from appendsD [OF assms(1) m] keepsD [OF assms(2) f]
  show "\<exists>k \<le> length c. L w' = L w @ take k c \<and> (\<forall>x. r = Inr x \<longrightarrow> P x k)" by (auto simp: same_def)
qed

lemma keeps_finally [keeps_intros]:
  "transp R \<Longrightarrow> reflp R \<Longrightarrow> keeps R m \<Longrightarrow> keeps R f \<Longrightarrow> keeps R (finally_do m f)"
  unfolding finally_do_def
  by (intro keeps_bindE keeps_attempt keeps_ignore) (auto intro: keeps_fail keeps_ret split: sum.split)

section \<open>What leaves the engine's state alone\<close>

lemma keeps_lift [keeps_intros]:
  "keeps (same wl_engine) (lift_db x)" "keeps (same wl_engine) (on_backend y)"
  "keeps (same wl_engine) (on_machine z)"
  by (auto simp: keeps_def same_def lift_db_def on_backend_def on_machine_def)

text \<open>An observation of the engine's state that the world beside the workflow does not change.\<close>

definition undisturbed :: "('e, 'b, 'g) daemon \<Rightarrow> ('e \<Rightarrow> 'x) \<Rightarrow> bool" where
  "undisturbed d L = (\<forall>ms w. L (wl_engine (dn_others d ms w)) = L (wl_engine w))"

abbreviation eobs :: "('e \<Rightarrow> 'x) \<Rightarrow> ('e, 'b, 'g) world \<Rightarrow> 'x" where
  "eobs L \<equiv> \<lambda>w. L (wl_engine w)"

lemma keeps_eobs [keeps_intros]:
  "keeps (same (eobs L)) (lift_db x)" "keeps (same (eobs L)) (on_backend y)"
  "keeps (same (eobs L)) (on_machine z)"
  by (auto simp: keeps_def same_def lift_db_def on_backend_def on_machine_def)

lemma keeps_others: "undisturbed d L \<Longrightarrow> keeps (same (eobs L)) (others d ms)"
  by (auto simp: keeps_def same_def others_def modify_def undisturbed_def)

lemma keeps_on_db: "undisturbed d L \<Longrightarrow> keeps (same (eobs L)) (on_db d x)"
  unfolding on_db_def by (intro keeps_bindE keeps_others keeps_eobs same_trans)

lemma keeps_on_engine: "undisturbed d L \<Longrightarrow> keeps (same L) m \<Longrightarrow> keeps (same (eobs L)) (on_engine d m)"
  unfolding on_engine_def
  by (rule keeps_bindE, rule same_trans, erule keeps_others)
     (auto simp: keeps_def same_def lift_engine_def)

lemma keeps_step_ops:
  assumes "undisturbed d L"
  shows "keeps (same (eobs L)) (finalize d j s st c t)" "keeps (same (eobs L)) (current_status d j s)"
    "keeps (same (eobs L)) (start_step d j s sha sess snap)"
  unfolding finalize_def current_status_def start_step_def
  by (intro keeps_bindE keeps_on_db same_trans assms)+

lemma keeps_poll:
  assumes "undisturbed d L" and "\<And>i. keeps (same L) (extend_claim (dn_engine d) q r i)"
  shows "keeps (same (eobs L)) (poll_exit_with_lease d bk q r sess n since)"
proof (induction n arbitrary: since)
  case 0
  then show ?case by (simp add: keeps_panic)
next
  case (Suc n)
  show ?case
    unfolding poll_exit_with_lease.simps
    by (intro keeps_bindE same_trans keeps_eobs)
       (auto intro!: keeps_bindE keeps_ret keeps_others keeps_on_engine assms Suc split: option.split)
qed

lemma keeps_sandbox:
  "keeps (same (eobs L)) (enter_sandbox d j step)" "keeps (same (eobs L)) (leave_sandbox d j step dir)"
  unfolding enter_sandbox_def leave_sandbox_def Let_def
  by (auto intro!: keeps_bindE keeps_attempt keeps_ignore keeps_eobs keeps_ret split: option.split)


section \<open>Checkpoints of a pass over the steps\<close>

text \<open>What is stored for a completed step.\<close>

definition step_checkpoint :: "uuid \<Rightarrow> workflow_step \<Rightarrow> string \<times> json" where
  "step_checkpoint t step =
     (ws_name step, envelope_to_value
       (case ws_command step of
          Some _ \<Rightarrow> envelope_new t (ws_name step) ''COMPLETED'' (Some 0) None (JObj [(''exit'', JInt 0)])
        | None \<Rightarrow> with_noop True (envelope_new t (ws_name step) ''COMPLETED'' (Some 0) None (JObj []))))"

text \<open>How the result of an attempt relates to the number of checkpoints written.\<close>

definition attempt_wrote :: "'b step_run \<Rightarrow> attempt_result \<Rightarrow> nat \<Rightarrow> bool" where
  "attempt_wrote s x k = (k = (if x = Completed then 1 else 0) \<and> x \<noteq> Returned Done \<and>
     (\<forall>i n. x = Returned (Step_suspended i n) \<longrightarrow> i = sr_idx s \<and> n = ws_name (sr_step s)))"

definition step_wrote :: "nat \<Rightarrow> workflow_step \<Rightarrow> step_outcome option \<Rightarrow> nat \<Rightarrow> bool" where
  "step_wrote idx step x k = (k = (if x = None then 1 else 0) \<and> x \<noteq> Some Done \<and>
     (\<forall>i n. x = Some (Step_suspended i n) \<longrightarrow> i = idx \<and> n = ws_name step))"

definition steps_wrote :: "(nat \<times> workflow_step) list \<Rightarrow> step_outcome \<Rightarrow> nat \<Rightarrow> bool" where
  "steps_wrote steps x k = ((x = Done \<longrightarrow> k = length steps) \<and>
     (\<forall>i n. x = Step_suspended i n \<longrightarrow> k < length steps \<and> fst (steps ! k) = i))"

lemma appends_lift_engine: "appends L c P m \<Longrightarrow> appends (eobs L) c P (lift_engine m)"
  by (fastforce simp: appends_def lift_engine_def)

lemma attempt_wrote_simps [simp]:
  "attempt_wrote s Completed k \<longleftrightarrow> k = 1" "attempt_wrote s (Nonzero c t) k \<longleftrightarrow> k = 0"
  "attempt_wrote s (Returned Failed) k \<longleftrightarrow> k = 0" "attempt_wrote s (Returned (Stale_head n)) k \<longleftrightarrow> k = 0"
  "attempt_wrote s (Returned (Quota_exhausted q)) k \<longleftrightarrow> k = 0"
  "attempt_wrote s (Returned (Step_suspended (sr_idx s) (ws_name (sr_step s)))) k \<longleftrightarrow> k = 0"
  by (auto simp: attempt_wrote_def)

lemma step_wrote_simps [simp]:
  "step_wrote i st None k \<longleftrightarrow> k = 1" "step_wrote i st (Some Failed) k \<longleftrightarrow> k = 0"
  by (auto simp: step_wrote_def)

lemma attempt_wrote_Returned: "attempt_wrote s (Returned x) k \<Longrightarrow> step_wrote (sr_idx s) (sr_step s) (Some x) k"
  by (auto simp: attempt_wrote_def step_wrote_def)

lemma appends_bind_cases:
  assumes "appends L c Q m" and "\<And>x. Q x 0 \<Longrightarrow> appends L c P (f x)"
    and "\<And>x k. 0 < k \<Longrightarrow> Q x k \<Longrightarrow> keeps (same L) (f x)"
    and "\<And>x k v y v'. 0 < k \<Longrightarrow> Q x k \<Longrightarrow> f x v = Some (Inr y, v') \<Longrightarrow> P y k"
  shows "appends L c P (bindE m f)"
  unfolding appends_def
proof (intro allI impI)
  fix w r w'
  assume "bindE m f w = Some (r, w')"
  then consider e where "m w = Some (Inl e, w')" "r = Inl e"
    | x v where "m w = Some (Inr x, v)" "f x v = Some (r, w')" by (auto simp: bindE_io)
  then show "\<exists>k \<le> length c. L w' = L w @ take k c \<and> (\<forall>x. r = Inr x \<longrightarrow> P x k)"
  proof cases
    case 1
    with appendsD [OF assms(1) 1(1)] show ?thesis by auto
  next
    case 2
    with appendsD [OF assms(1) 2(1)] obtain k where
      k: "k \<le> length c" "L v = L w @ take k c" "Q x k" by auto
    show ?thesis
    proof (cases "k = 0")
      case True
      with k assms(2) have "appends L c P (f x)" by simp
      from appendsD [OF this 2(2)] k True show ?thesis by simp
    next
      case False
      then have pos: "0 < k" by simp
      have "L w' = L v" using keepsD [OF assms(3) [OF pos k(3)] 2(2)] by (simp add: same_def)
      moreover have "\<forall>y. r = Inr y \<longrightarrow> P y k" using assms(4) [OF pos k(3)] 2(2) by blast
      ultimately show ?thesis using k by (intro exI [of _ k]) simp
    qed
  qed
qed

lemma run_step_list_Cons_io:
  "run_step_list d j r sha n ((idx, step) # steps) w = Some (x, w') \<longleftrightarrow>
     (\<exists>e. run_step d j r sha n idx step w = Some (Inl e, w') \<and> x = Inl e) \<or>
     (\<exists>y. run_step d j r sha n idx step w = Some (Inr (Some y), w') \<and> x = Inr y) \<or>
     (\<exists>v. run_step d j r sha n idx step w = Some (Inr None, v) \<and>
          run_step_list d j r sha n steps v = Some (x, w'))"
proof (cases "run_step d j r sha n idx step w")
  case (Some rv)
  obtain y v where "rv = (y, v)" by (cases rv)
  with Some show ?thesis
    by (cases y) (auto simp: bindE_def ret_def split: option.splits)
qed (simp add: bindE_def)

text \<open>The daemon runs the job on the engine of the contract.\<close>

definition runs_on :: "('e, 'b, 'g) daemon \<Rightarrow> job \<Rightarrow> 'e engine \<Rightarrow> string \<Rightarrow> uuid \<Rightarrow> bool" where
  "runs_on d j eng q t = (dn_engine d = eng \<and> jb_queue j = q \<and> jb_task j = t)"

context task_log
begin

lemma log_set: "appends L [(n, v)] (\<lambda>_ k. k = 1) (set_checkpoint eng q t n v r)"
  unfolding appends_def
proof (intro allI impI)
  fix w x w'
  assume m: "set_checkpoint eng q t n v r w = Some (x, w')"
  show "\<exists>k\<le>length [(n, v)]. L w' = L w @ take k [(n, v)] \<and> (\<forall>y. x = Inr y \<longrightarrow> k = 1)"
  proof (cases x)
    case (Inl e)
    with set_log [OF m] show ?thesis by (intro exI [of _ 0]) auto
  next
    case (Inr u)
    with set_log [OF m] show ?thesis by (intro exI [of _ 1]) auto
  qed
qed

lemma log_write:
  assumes "runs_on d j eng q t" and "undisturbed d L"
  shows "appends (eobs L) [(ws_name step, envelope_to_value e)] (\<lambda>_ k. k = 1)
     (write_checkpoint d j r step e)"
proof (cases "to_checkpoint_value e")
  case (Inl err)
  then show ?thesis by (auto simp: write_checkpoint_def appends_def fail_def)
next
  case (Inr v)
  then have "v = envelope_to_value e"
    by (auto simp: to_checkpoint_value_def split: sum.splits)
  then show ?thesis
    using assms(1) log_set [of "ws_name step" v] unfolding write_checkpoint_def Inr on_engine_def runs_on_def
    by (auto intro!: appends_bind_keeps keeps_others appends_lift_engine assms)
qed

lemma log_exit_zero:
  assumes "runs_on d j eng q t" and u: "undisturbed d L"
    and "ws_command (sr_step s) \<noteq> None" and "sr_run s = r"
  shows "appends (eobs L) [step_checkpoint (jb_task j) (sr_step s)]
     (attempt_wrote s) (exit_zero d j s code tail)"
proof -
  let ?L = "eobs L"
  let ?e = "envelope_new (jb_task j) (ws_name (sr_step s)) ''COMPLETED'' (Some 0) None (JObj [(''exit'', JInt 0)])"
  have c: "step_checkpoint (jb_task j) (sr_step s) = (ws_name (sr_step s), envelope_to_value ?e)"
    using assms(3) by (auto simp: step_checkpoint_def)
  have wrote: "appends ?L [step_checkpoint (jb_task j) (sr_step s)] (attempt_wrote s)
      (bindE (write_checkpoint d j (sr_run s) (sr_step s) ?e) (\<lambda>_.
       bindE (finalize d j (sr_step s) ''COMPLETED'' (Some 0) tail) (\<lambda>_. ret Completed)))"
    unfolding c
    unfolding assms(4)
    by (rule appends_bind_then [OF log_write [OF assms(1,2)]])
       (auto intro!: keeps_bindE keeps_step_ops u keeps_ret simp: io_simps)
  have stop: "appends ?L c (attempt_wrote s) (bindE (finalize d j step st co ta) (\<lambda>_. ret x))"
    if "attempt_wrote s x 0" for c step st co ta x
    by (intro appends_bind_keeps keeps_step_ops u appends_ret that)
  show ?thesis
    unfolding exit_zero_def Let_def
    by (intro appends_bind_keeps)
       (auto intro!: keeps_ret keeps_eobs keeps_ignore stop wrote appends_bind_keeps split: option.split)
qed

lemma log_after_session:
  assumes "runs_on d j eng q t" and u: "undisturbed d L"
    and "ws_command (sr_step s) \<noteq> None" and "sr_run s = r"
  shows "appends (eobs L) [step_checkpoint (jb_task j) (sr_step s)]
     (attempt_wrote s) (after_session d j s exit tail)"
  unfolding after_session_def Let_def
  by (auto intro!: appends_bind_keeps keeps_step_ops u appends_ret log_exit_zero assms
      split: sum.split option.split)

lemma log_step_attempt:
  assumes "runs_on d j eng q t" and u: "undisturbed d L"
    and "ws_command (sr_step s) \<noteq> None" and "sr_run s = r"
  shows "appends (eobs L) [step_checkpoint (jb_task j) (sr_step s)]
     (attempt_wrote s) (step_attempt d j s n a ctx)"
proof -
  let ?L = "eobs L"
  have ext: "keeps (same L) (extend_claim (dn_engine d) (jb_queue j) (sr_run s) i)" for i
    using extend_log [of i] assms(1,4) by (auto simp: keeps_def same_def runs_on_def)
  have run: "appends ?L [step_checkpoint (jb_task j) (sr_step s)] (attempt_wrote s) (run_session d j s n sess)" for sess
    unfolding run_session_def Let_def
    by (intro appends_bind_keeps)
       (auto intro!: keeps_attempt keeps_poll u ext keeps_eobs keeps_ignore keeps_ret log_after_session assms
         split: sum.split)
  show ?thesis
    unfolding step_attempt_def Let_def
    by (intro appends_bind_keeps)
       (auto intro!: keeps_step_ops u keeps_attempt keeps_eobs keeps_gets keeps_ignore appends_bind_keeps
         appends_ret run split: sum.split)
qed

lemma log_correction_loop:
  assumes "runs_on d j eng q t" and u: "undisturbed d L"
    and "ws_command (sr_step s) \<noteq> None" and "sr_run s = r"
  shows "appends (eobs L) [step_checkpoint (jb_task j) (sr_step s)]
     (step_wrote (sr_idx s) (sr_step s)) (correction_loop d j s n a ctx)"
  using assms
proof (induction d j s n a ctx rule: correction_loop.induct)
  case (1 d j s n a ctx)
  note u = "1.prems"(2)
  show ?case
    unfolding correction_loop.simps [of d j s n a ctx]
  proof (rule appends_bind_cases [OF log_step_attempt [OF "1.prems"]])
    fix x
    assume "attempt_wrote s x 0"
    with 1 show "appends (eobs L) [step_checkpoint (jb_task j) (sr_step s)]
      (step_wrote (sr_idx s) (sr_step s)) (case x of Completed \<Rightarrow> ret None | Returned outcome \<Rightarrow> ret (Some outcome)
        | Nonzero code tail \<Rightarrow>
            if a < max_attempts (sr_step s) then
              correction_loop d j s n (a + 1) (Some (correction_text a (sr_step s) code tail))
            else bindE (finalize d j (sr_step s) ''FAILED'' (Some code) tail) (\<lambda>_. ret (Some Failed)))"
      by (cases x)
         (auto dest: attempt_wrote_Returned intro!: appends_ret appends_bind_keeps keeps_step_ops u)
  qed (use 1 in \<open>auto simp: attempt_wrote_def step_wrote_def io_simps intro!: keeps_ret split: if_splits\<close>)
qed

lemma log_run_step:
  assumes "runs_on d j eng q t" and u: "undisturbed d L"
  shows "appends (eobs L) [step_checkpoint (jb_task j) step]
     (step_wrote idx step) (run_step d j r sha n idx step)"
proof -
  let ?L = "eobs L"
  have manual: "appends ?L [step_checkpoint (jb_task j) step] (step_wrote idx step)
      (bindE (manual_step d j s) (\<lambda>_. ret None))" if "sr_step s = step" "sr_run s = r" "ws_command step = None" for s
  proof -
    let ?e = "with_noop True (envelope_new (jb_task j) (ws_name step) ''COMPLETED'' (Some 0) None (JObj []))"
    have c: "step_checkpoint (jb_task j) step = (ws_name step, envelope_to_value ?e)"
      using that by (auto simp: step_checkpoint_def)
    have "appends ?L [step_checkpoint (jb_task j) step] (\<lambda>_ k. k = 1) (manual_step d j s)"
      unfolding manual_step_def Let_def that c
      by (rule appends_bind_keeps, intro keeps_step_ops u, rule appends_bind_then [OF log_write [OF assms]])
         (auto intro!: keeps_step_ops u)
    then show ?thesis
      by (rule appends_bind_then) (auto intro!: keeps_ret simp: io_simps step_wrote_def)
  qed
  have loop: "appends ?L [step_checkpoint (jb_task j) step] (step_wrote idx step) (correction_loop d j s n 1 None)"
    if "sr_step s = step" "sr_idx s = idx" "sr_run s = r" "ws_command step \<noteq> None" for s
    using log_correction_loop [OF assms, of s n 1 None] that by simp
  show ?thesis
    unfolding run_step_def Let_def
    by (intro appends_bind_keeps keeps_eobs keeps_sandbox appends_finally keeps_gets same_refl)
       (auto simp del: One_nat_def intro!: manual loop split: option.split)
qed

lemma log_run_step_list:
  assumes "runs_on d j eng q t" and "undisturbed d L"
  shows "appends (eobs L) (map (\<lambda>(i, s). step_checkpoint (jb_task j) s) steps)
     (steps_wrote steps) (run_step_list d j r sha n steps)"
proof (induction steps)
  case Nil
  then show ?case by (auto simp: steps_wrote_def intro!: appends_ret)
next
  case (Cons p steps)
  obtain idx step where p: "p = (idx, step)" by (cases p)
  let ?L = "eobs L"
  show ?case
    unfolding appends_def p
  proof (intro allI impI)
    fix w x w'
    assume "run_step_list d j r sha n ((idx, step) # steps) w = Some (x, w')"
    then consider e where "run_step d j r sha n idx step w = Some (Inl e, w')" "x = Inl e"
      | o' where "run_step d j r sha n idx step w = Some (Inr (Some o'), w')" "x = Inr o'"
      | v where "run_step d j r sha n idx step w = Some (Inr None, v)"
          "run_step_list d j r sha n steps v = Some (x, w')"
      unfolding run_step_list_Cons_io by blast
    then show "\<exists>k\<le>length (map (\<lambda>(i, s). step_checkpoint (jb_task j) s) ((idx, step) # steps)).
        ?L w' = ?L w @ take k (map (\<lambda>(i, s). step_checkpoint (jb_task j) s) ((idx, step) # steps)) \<and>
        (\<forall>y. x = Inr y \<longrightarrow> steps_wrote ((idx, step) # steps) y k)"
    proof cases
      case 1
      from appendsD [OF log_run_step [OF assms] 1(1)] obtain k where
        "k \<le> 1" "?L w' = ?L w @ take k [step_checkpoint (jb_task j) step]" by auto
      with 1(2) show ?thesis by (intro exI [of _ k]) (auto simp: take_Cons')
    next
      case 2
      from appendsD [OF log_run_step [OF assms] 2(1)] 2(2) show ?thesis
        by (intro exI [of _ 0]) (auto simp: step_wrote_def steps_wrote_def)
    next
      case 3
      from appendsD [OF log_run_step [OF assms] 3(1)]
      have v: "?L v = ?L w @ [step_checkpoint (jb_task j) step]" by (auto simp: step_wrote_def)
      from appendsD [OF Cons.IH 3(2)] obtain k where
        "k \<le> length steps" "?L w' = ?L v @ take k (map (\<lambda>(i, s). step_checkpoint (jb_task j) s) steps)"
        "\<forall>y. x = Inr y \<longrightarrow> steps_wrote steps y k" by auto
      with v show ?thesis by (intro exI [of _ "Suc k"]) (auto simp: steps_wrote_def)
    qed
  qed
qed

end

section \<open>A world in which every step succeeds\<close>

text \<open>The set-up of the unit tests: the in-memory engine and backend, no database, no git
  repository, and nothing beside the workflow.\<close>

definition quiet_machine :: "unit machine" where
  "quiet_machine =
     \<lparr>m_git = (\<lambda>_ _. ret (sample_output False [])), m_exists = (\<lambda>_ _. False),
      m_remove_dir_all = (\<lambda>_. ret ()), m_create_dir_all = (\<lambda>_. ret ()), m_write = (\<lambda>_ _. ret ()),
      m_now = (\<lambda>_. ''now''), m_dev = (\<lambda>_. None)\<rparr>"

definition test_daemon_on :: "unit machine \<Rightarrow> env \<Rightarrow> (string \<Rightarrow> uuid option) \<Rightarrow>
    (fake_engine, fake_backend, unit) daemon" where
  "test_daemon_on m env parse =
     \<lparr>dn_engine = fake_ops, dn_factory = fake_factory, dn_socket_backend = (\<lambda>_. fake_backend_ops),
      dn_machine = m, dn_env = env, dn_parse_uuid = parse, dn_root = ''/repo'',
      dn_janush = ''/bin/janush'', dn_others = (\<lambda>_ w. w)\<rparr>"

abbreviation test_daemon :: "env \<Rightarrow> (string \<Rightarrow> uuid option) \<Rightarrow> (fake_engine, fake_backend, unit) daemon" where
  "test_daemon \<equiv> test_daemon_on quiet_machine"

definition offline :: "string \<Rightarrow> absurd_db \<Rightarrow> bool" where
  "offline b d = (blueprint_pool b d = Some (Inr None, d))"

lemma offline_fallback [simp]: "offline b (d\<lparr>ad_fallback := e\<rparr>) = offline b d"
  by (cases d) (auto simp: offline_def blueprint_pool_def add_pool_def Let_def)

lemma offline_with_pool: "offline b d \<Longrightarrow> with_pool b f g d = g d"
  by (simp add: offline_def with_pool_unreachable)

text \<open>With no database each transition is buffered and succeeds.\<close>

lemma offline_ops [simp]:
  assumes "offline b d"
  shows "upsert_step_start b t s wn sha sess snap d =
      Some (Inr (), d\<lparr>ad_fallback := fallback_record t b s ''STARTING'' None (ad_fallback d)\<rparr>)"
    and "set_step_running b t s d =
      Some (Inr (), d\<lparr>ad_fallback := fallback_record t b s ''RUNNING'' None (ad_fallback d)\<rparr>)"
    and "finalize_step b t s st c out d =
      Some (Inr (), d\<lparr>ad_fallback := fallback_record t b s st out (ad_fallback d)\<rparr>)"
    and "step_status_of b t s d = Some (Inr None, d)"
  by (simp_all add: upsert_step_start_def set_step_running_def finalize_step_def step_status_of_def
      offline_with_pool [OF assms] record_fallback_event_def modify_def ret_def)

named_theorems run_simps \<open>running the engine in the test world\<close>

lemma test_daemon_sel [simp]:
  "dn_engine (test_daemon_on m e p) = fake_ops" "dn_factory (test_daemon_on m e p) = fake_factory"
  "dn_machine (test_daemon_on m e p) = m" "dn_env (test_daemon_on m e p) = e"
  "dn_parse_uuid (test_daemon_on m e p) = p" "dn_root (test_daemon_on m e p) = ''/repo''"
  "dn_janush (test_daemon_on m e p) = ''/bin/janush''" "dn_others (test_daemon_on m e p) = (\<lambda>_ w. w)"
  by (simp_all add: test_daemon_on_def)

lemma test_lifts [run_simps]:
  "on_db (test_daemon_on m e p) x = lift_db x" "on_engine (test_daemon_on m e p) k = lift_engine k"
  "others (test_daemon_on m e p) ms = ret ()"
  by (auto simp: on_db_def on_engine_def others_def modify_def ret_def bindE_def fun_eq_iff)

text \<open>A step that the test world can run: not sandboxed, no declared writes, with a name.\<close>

definition plain_step :: "workflow_step \<Rightarrow> bool" where
  "plain_step s = (ws_name s \<noteq> [] \<and> \<not> is_sandbox s \<and> ws_writes s = None)"

definition step_sessions :: "uuid \<Rightarrow> nat \<Rightarrow> workflow_step \<Rightarrow> string list" where
  "step_sessions t idx s = (if ws_command s = None then [] else [sid_str (attempt_session t idx 1)])"

definition add_checkpoint :: "uuid \<Rightarrow> workflow_step \<Rightarrow> fake_engine \<Rightarrow> fake_engine" where
  "add_checkpoint t s e = e\<lparr>fe_checkpoints := (fe_checkpoints e)(t := fe_checkpoints e t @ [step_checkpoint t s])\<rparr>"

lemma git_head_quiet: "git_head quiet_machine root g = Some (Inr NULL_SHA, g)"
  by (simp add: git_head_def quiet_machine_def sample_output_def attempt_def ret_def bindE_def)

lemma write_raw_quiet: "write_raw_log quiet_machine t s raw g = Some (Inr (), g)"
  by (simp add: write_raw_log_def quiet_machine_def ret_def bindE_def Let_def)

lemma write_checkpoint_test:
  assumes "ws_name s \<noteq> []"
    and "step_checkpoint (jb_task j) s = (ws_name s, envelope_to_value ev)"
    and "ce_step_name ev = ws_name s" "ce_status ev = ''COMPLETED''"
  shows "write_checkpoint (test_daemon e p) j r s ev w =
    Some (Inr (), w\<lparr>wl_engine := add_checkpoint (jb_task j) s (wl_engine w)\<rparr>)"
  using assms
  by (simp add: write_checkpoint_def to_checkpoint_value_def envelope_validate_def test_lifts
      lift_engine_def fake_defs modify_def add_checkpoint_def)

lemma unit_machine [simp]: "w\<lparr>wl_machine := ()\<rparr> = w" for w :: "('e, 'b, unit) world"
  by (cases w) simp

lemmas monad_simps = bindE_def ret_def attempt_def ignore_def gets_def lift_db_def on_backend_def
  on_machine_def

lemma exit_zero_test:
  assumes "plain_step (sr_step s)" "ws_command (sr_step s) \<noteq> None" "sr_sha s = NULL_SHA"
    and "offline (vr_name (jb_recipe j)) (wl_db w)"
  shows "\<exists>f. exit_zero (test_daemon e p) j s code tail w = Some (Inr Completed,
    w\<lparr>wl_engine := add_checkpoint (jb_task j) (sr_step s) (wl_engine w), wl_db := (wl_db w)\<lparr>ad_fallback := f\<rparr>\<rparr>)"
proof -
  let ?ev = "envelope_new (jb_task j) (ws_name (sr_step s)) ''COMPLETED'' (Some 0) None (JObj [(''exit'', JInt 0)])"
  have ck: "write_checkpoint (test_daemon e p) j r (sr_step s) ?ev v =
      Some (Inr (), v\<lparr>wl_engine := add_checkpoint (jb_task j) (sr_step s) (wl_engine v)\<rparr>)" for r v
    by (rule write_checkpoint_test) (use assms in \<open>auto simp: plain_step_def step_checkpoint_def envelope_new_def\<close>)
  show ?thesis
    using assms
    by (auto simp: exit_zero_def plain_step_def finalize_def run_simps monad_simps ck Let_def)
qed

text \<open>An attempt whose session exits with 0.\<close>

lemma step_attempt_exit:
  assumes "ws_command (sr_step s) \<noteq> None" and "sr_backend s = fake_backend_ops"
    and "fb_exit_codes (wl_backend w) = []" and "offline (vr_name (jb_recipe j)) (wl_db w)"
    and "\<And>t s raw. write_raw_log m t s raw () = Some (Inr (), ())"
  shows "\<exists>f b tail. step_attempt (test_daemon_on m e p) j s (Suc n) 1 ctx w =
      exit_zero (test_daemon_on m e p) j s 0 (Some tail)
        (w\<lparr>wl_backend := b, wl_db := (wl_db w)\<lparr>ad_fallback := f\<rparr>\<rparr>) \<and>
    fb_exit_codes b = [] \<and> fb_created b = fb_created (wl_backend w) @ step_sessions (jb_task j) (sr_idx s) (sr_step s)"
proof -
  let ?sess = "attempt_session (jb_task j) (sr_idx s) 1"
  let ?b1 = "wl_backend w\<lparr>fb_created := fb_created (wl_backend w) @ [sid_str ?sess],
     fb_alive := List.insert (sid_str ?sess) (removeAll (sid_str ?sess) (fb_alive (wl_backend w)))\<rparr>"
  let ?b2 = "?b1\<lparr>fb_alive := removeAll (sid_str ?sess) (fb_alive ?b1)\<rparr>"
  obtain f where f: "f = fallback_record (jb_task j) (vr_name (jb_recipe j)) (ws_name (sr_step s)) ''RUNNING'' None
      (fallback_record (jb_task j) (vr_name (jb_recipe j)) (ws_name (sr_step s)) ''STARTING'' None (ad_fallback (wl_db w)))"
    by blast
  have "\<exists>tail. step_attempt (test_daemon_on m e p) j s (Suc n) 1 ctx w =
      exit_zero (test_daemon_on m e p) j s 0 (Some tail)
        (w\<lparr>wl_backend := ?b2, wl_db := (wl_db w)\<lparr>ad_fallback := f\<rparr>\<rparr>)"
    using assms
    by (simp add: step_attempt_def start_step_def run_session_def after_session_def current_status_def
        run_simps monad_simps fake_backend_defs modify_def f Let_def)
       (rule exI, rule refl)
  moreover have "fb_exit_codes ?b2 = [] \<and>
      fb_created ?b2 = fb_created (wl_backend w) @ step_sessions (jb_task j) (sr_idx s) (sr_step s)"
    using assms by (simp add: step_sessions_def)
  ultimately show ?thesis by blast
qed

lemma step_attempt_test:
  assumes "plain_step (sr_step s)" "ws_command (sr_step s) \<noteq> None" "sr_sha s = NULL_SHA"
    and "sr_backend s = fake_backend_ops" and "fb_exit_codes (wl_backend w) = []"
    and "offline (vr_name (jb_recipe j)) (wl_db w)"
  shows "\<exists>f b. step_attempt (test_daemon e p) j s (Suc n) 1 ctx w = Some (Inr Completed,
      w\<lparr>wl_engine := add_checkpoint (jb_task j) (sr_step s) (wl_engine w),
        wl_db := (wl_db w)\<lparr>ad_fallback := f\<rparr>, wl_backend := b\<rparr>) \<and>
    fb_exit_codes b = [] \<and> fb_created b = fb_created (wl_backend w) @ step_sessions (jb_task j) (sr_idx s) (sr_step s)"
proof -
  obtain f b tail where a: "step_attempt (test_daemon e p) j s (Suc n) 1 ctx w =
      exit_zero (test_daemon e p) j s 0 (Some tail) (w\<lparr>wl_backend := b, wl_db := (wl_db w)\<lparr>ad_fallback := f\<rparr>\<rparr>)"
    and b: "fb_exit_codes b = []"
      "fb_created b = fb_created (wl_backend w) @ step_sessions (jb_task j) (sr_idx s) (sr_step s)"
    using step_attempt_exit [OF assms(2,4,5,6) write_raw_quiet, of e p n ctx] by blast
  let ?w = "w\<lparr>wl_backend := b, wl_db := (wl_db w)\<lparr>ad_fallback := f\<rparr>\<rparr>"
  have "offline (vr_name (jb_recipe j)) (wl_db ?w)" using assms(6) by simp
  with exit_zero_test [OF assms(1,2,3), of j ?w e p 0 "Some tail"] obtain f' where
    "exit_zero (test_daemon e p) j s 0 (Some tail) ?w = Some (Inr Completed,
       ?w\<lparr>wl_engine := add_checkpoint (jb_task j) (sr_step s) (wl_engine ?w), wl_db := (wl_db ?w)\<lparr>ad_fallback := f'\<rparr>\<rparr>)"
    by blast
  with a b show ?thesis by (intro exI [of _ f'] exI [of _ b]) simp
qed

text \<open>What a completed step changes: its checkpoint, the ring and the list of sessions.\<close>

definition ran_steps :: "job \<Rightarrow> (nat \<times> workflow_step) list \<Rightarrow> (fake_engine, fake_backend, unit) world \<Rightarrow>
    (fake_engine, fake_backend, unit) world \<Rightarrow> bool" where
  "ran_steps j steps w w' =
     (wl_engine w' = fold (\<lambda>(i, s). add_checkpoint (jb_task j) s) steps (wl_engine w) \<and>
      offline (vr_name (jb_recipe j)) (wl_db w') \<and> fb_exit_codes (wl_backend w') = [] \<and>
      fb_created (wl_backend w') =
        fb_created (wl_backend w) @ concat (map (\<lambda>(i, s). step_sessions (jb_task j) i s) steps))"

lemma run_step_test:
  assumes "plain_step step" and "fb_exit_codes (wl_backend w) = []"
    and "offline (vr_name (jb_recipe j)) (wl_db w)"
  shows "\<exists>w'. run_step (test_daemon e p) j r NULL_SHA (Suc n) idx step w = Some (Inr None, w') \<and>
    ran_steps j [(idx, step)] w w'"
proof -
  let ?s = "\<lparr>sr_run = r, sr_sha = NULL_SHA, sr_idx = idx, sr_step = step, sr_backend = fake_backend_ops,
     sr_cwd = ''/repo'', sr_snapshot = env_snapshot quiet_machine (wl_machine w)\<rparr>"
  have noguard: "\<not> is_sandbox step" using assms(1) by (simp add: plain_step_def)
  show ?thesis
  proof (cases "ws_command step")
    case (Some c)
    have run: "run_step (test_daemon e p) j r NULL_SHA (Suc n) idx step w =
        correction_loop (test_daemon e p) j ?s (Suc n) 1 None w" if "correction_loop (test_daemon e p) j ?s (Suc n) 1 None w \<noteq> None"
      using noguard Some that
      by (auto simp: run_step_def finally_unfold enter_sandbox_def leave_sandbox_def fake_factory_def
          monad_simps Let_def)
    obtain f b where one: "step_attempt (test_daemon e p) j ?s (Suc n) 1 None w = Some (Inr Completed,
        w\<lparr>wl_engine := add_checkpoint (jb_task j) step (wl_engine w),
          wl_db := (wl_db w)\<lparr>ad_fallback := f\<rparr>, wl_backend := b\<rparr>)"
      and b: "fb_exit_codes b = []"
        "fb_created b = fb_created (wl_backend w) @ step_sessions (jb_task j) idx step"
      using step_attempt_test [of ?s w j e p n None] assms Some by auto
    from one have "correction_loop (test_daemon e p) j ?s (Suc n) 1 None w = Some (Inr None,
        w\<lparr>wl_engine := add_checkpoint (jb_task j) step (wl_engine w),
          wl_db := (wl_db w)\<lparr>ad_fallback := f\<rparr>, wl_backend := b\<rparr>)"
      by (subst correction_loop.simps) (simp add: bindE_def ret_def)
    with run assms(3) b show ?thesis by (simp add: ran_steps_def)
  next
    case None
    let ?ev = "with_noop True (envelope_new (jb_task j) (ws_name step) ''COMPLETED'' (Some 0) None (JObj []))"
    have ck: "write_checkpoint (test_daemon e p) j r step ?ev v =
        Some (Inr (), v\<lparr>wl_engine := add_checkpoint (jb_task j) step (wl_engine v)\<rparr>)" for v
      by (rule write_checkpoint_test)
         (use assms None in \<open>auto simp: plain_step_def step_checkpoint_def envelope_new_def with_noop_def\<close>)
    show ?thesis
      using noguard None assms
      by (simp add: run_step_def finally_unfold enter_sandbox_def leave_sandbox_def fake_factory_def
          manual_step_def start_step_def finalize_def run_simps monad_simps Let_def ck ran_steps_def
          step_sessions_def)
  qed
qed

lemma run_steps_test:
  assumes "\<forall>(i, s) \<in> set steps. plain_step s" and "fb_exit_codes (wl_backend w) = []"
    and "offline (vr_name (jb_recipe j)) (wl_db w)"
  shows "\<exists>w'. run_step_list (test_daemon e p) j r NULL_SHA (Suc n) steps w = Some (Inr Done, w') \<and>
    ran_steps j steps w w'"
  using assms
proof (induction steps arbitrary: w)
  case Nil
  then show ?case by (simp add: ret_def ran_steps_def)
next
  case (Cons q steps)
  obtain idx step where q: "q = (idx, step)" by (cases q)
  from Cons.prems run_step_test [of step w j e p r n idx] obtain v where
    v: "run_step (test_daemon e p) j r NULL_SHA (Suc n) idx step w = Some (Inr None, v)"
      "ran_steps j [(idx, step)] w v" by (auto simp: q)
  with Cons.IH [of v] Cons.prems obtain w' where
    "run_step_list (test_daemon e p) j r NULL_SHA (Suc n) steps v = Some (Inr Done, w')" "ran_steps j steps v w'"
    by (auto simp: ran_steps_def)
  with v show ?case by (auto simp: q bindE_def ran_steps_def)
qed

section \<open>Which sessions a new claim kills\<close>

context session_backend
begin

text \<open>Sessions are only removed, and only those with the prefix; a failed kill leaves its
  session alive.\<close>

lemma kill_matching_alive:
  "kill_matching bk pre names w = Some (r, w') \<Longrightarrow>
     alive w' \<subseteq> alive w \<and> alive w - {n \<in> set names. prefix pre n} \<subseteq> alive w'"
proof (induction names arbitrary: w)
  case Nil
  then show ?case by (auto simp: io_simps)
next
  case (Cons name names)
  from Cons.prems obtain v where
    v: "(if prefix pre name then ignore (kill_session bk (SessionId name)) else ret ()) w = Some (Inr (), v)"
      "kill_matching bk pre names v = Some (r, w')"
    by (auto simp: io_simps split: if_splits)
  have "alive v \<subseteq> alive w \<and> alive w - (if prefix pre name then {name} else {}) \<subseteq> alive v"
  proof (cases "prefix pre name")
    case True
    with v(1) obtain x where k: "kill_session bk (SessionId name) w = Some (x, v)" by (auto simp: io_simps)
    show ?thesis
      using kill_alive [of "SessionId name" w _ v] kill_err [of "SessionId name" w _ v] k True
      by (cases x) auto
  qed (use v(1) in \<open>auto simp: io_simps\<close>)
  with Cons.IH [OF v(2)] show ?case by (auto split: if_splits)
qed

end








text \<open>In the test world the clean-up succeeds.\<close>

lemma kill_stale_fake: "\<exists>b'. kill_stale_sessions fake_factory recipe t b = Some (Inr (), b')"
proof -
  have "\<exists>b'. kill_matching fake_backend_ops pre names b = Some (Inr (), b')" for pre names b
    by (induction names arbitrary: b)
       (auto simp: bindE_def ret_def ignore_def attempt_def fake_backend_defs modify_def)
  then have "\<exists>b'. kill_on_hosts fake_factory pre hosts b = Some (Inr (), b')" for pre hosts b
  proof (induction hosts arbitrary: b)
    case (Cons h hosts)
    obtain b1 where "kill_matching fake_backend_ops pre (fb_alive b) b = Some (Inr (), b1)"
      using Cons.prems by blast
    moreover obtain b2 where "kill_on_hosts fake_factory pre hosts b1 = Some (Inr (), b2)" using Cons by blast
    moreover have "fake_factory h b = Some (Inr fake_backend_ops, b)" "list_sessions fake_backend_ops b = Some (Inr (fb_alive b), b)"
      by (simp_all add: fake_factory_def ret_def fake_backend_ops_def gets_def)
    ultimately show ?case by (simp add: bindE_def)
  qed (simp add: ret_def)
  then show ?thesis by (simp add: kill_stale_sessions_def)
qed

section \<open>A workflow of succeeding steps completes\<close>

lemma list_sessions_fake: "list_sessions fake_backend_ops = gets fb_alive"
  by (simp add: fake_backend_ops_def)

lemma kill_stale_fake_frame:
  assumes "kill_stale_sessions fake_factory recipe t b = Some (r, b')"
  shows "\<exists>a. b' = b\<lparr>fb_alive := a\<rparr>"
proof -
  let ?R = "\<lambda>b b' :: fake_backend. \<exists>a. b' = b\<lparr>fb_alive := a\<rparr>"
  have R: "reflp ?R" "transp ?R"
  proof -
    show "reflp ?R"
    proof (rule reflpI)
      fix x :: fake_backend
      show "?R x x" by (rule exI [of _ "fb_alive x"]) simp
    qed
    show "transp ?R" by (rule transpI) auto
  qed
  have "keeps ?R (kill_session fake_backend_ops i)" for i
    by (rule keepsI) (auto simp: fake_backend_defs modify_io)
  then have "keeps ?R (kill_matching fake_backend_ops pre names)" for pre names
    by (induction names) (auto intro!: keeps_bindE keeps_ret keeps_ignore R)
  then have "keeps ?R (kill_on_hosts fake_factory pre hosts)" for pre hosts
    by (induction hosts)
       (auto intro!: keeps_bindE keeps_ret keeps_gets R simp: fake_factory_def list_sessions_fake)
  from keepsD [OF this assms [unfolded kill_stale_sessions_def]] show ?thesis .
qed

lemma fold_add_checkpoint:
  "fold (\<lambda>(i, s). add_checkpoint t s) steps e =
     e\<lparr>fe_checkpoints := (fe_checkpoints e)(t := fe_checkpoints e t @ map (\<lambda>(i, s). step_checkpoint t s) steps)\<rparr>"
  by (induction steps arbitrary: e) (auto simp: add_checkpoint_def)

definition recipe_steps :: "validated_recipe \<Rightarrow> workflow_step list" where
  "recipe_steps recipe = wf_steps (vr_workflow recipe)"

lemma steps_from_0: "steps_from j 0 = enumerate 0 (recipe_steps (jb_recipe j))"
  by (simp add: steps_from_def recipe_steps_def)

lemma map_snd_enumerate: "map (\<lambda>(i, s). f s) (enumerate n xs) = map f xs"
  by (induction xs arbitrary: n) auto

lemma fake_sel:
  "complete_run fake_ops = fake_complete_run" "fail_run fake_ops = fake_fail_run"
  "claim_task fake_ops = fake_claim_task" "await_event fake_ops = fake_await_event"
  "emit_event fake_ops = fake_emit_event" "non_terminal_tasks fake_ops = fake_non_terminal_tasks"
  by (simp_all add: fake_ops_def)

text \<open>C4: in the world of the unit tests, with the in-memory engine and backend and no database, and
  from a fresh engine, for any workflow whose steps succeed, dispatch returns the new task, one claim is enough for the run to return, and then the task is completed, its
  checkpoints are those of all steps in their order, and each step with a command had
  exactly one session.\<close>

theorem workflow_completes:
  assumes "wl_engine w = fake_new ids k"
    and "\<forall>s \<in> set (recipe_steps recipe). plain_step s"
    and "offline (vr_name recipe) (wl_db w)" and "fb_exit_codes (wl_backend w) = []"
  shows "\<exists>w1 w2. spawn_workflow (test_daemon e p) recipe wn w = Some (Inr (ids 0), w1) \<and>
    run_workflow (test_daemon e p) recipe wn (ids 0) (Suc n) (Suc m) w1 = Some (Inr (ids 0), w2) \<and>
    fake_task_state (wl_engine w2) (ids 0) = Some ''completed'' \<and>
    fe_checkpoints (wl_engine w2) (ids 0) = map (step_checkpoint (ids 0)) (recipe_steps recipe) \<and>
    fb_created (wl_backend w2) = fb_created (wl_backend w) @
      concat (map (\<lambda>(i, s). step_sessions (ids 0) i s) (enumerate 0 (recipe_steps recipe)))"
proof -
  let ?d = "test_daemon e p" and ?q = "queue_name (vr_name recipe) wn"
  let ?j = "\<lparr>jb_recipe = recipe, jb_workflow = wn, jb_queue = ?q, jb_task = ids 0\<rparr>"
  let ?task = "\<lparr>ft_task_id = ids 0, ft_task_name = vr_name recipe @ ''.'' @ wn,
     ft_params = JArr (map step_to_value (recipe_steps recipe)), ft_state = ''pending'',
     ft_max_attempts = k, ft_attempts = 0, ft_current_run = None, ft_pending_runs = [ids 1]\<rparr>"
  let ?run = "claim_of (ids 1) ?task"
  let ?e1 = "(fake_new ids k)\<lparr>fe_queues := {?q}, fe_tasks := [(ids 0, ?task)],
     fe_queue_order := (\<lambda>_. [])(?q := [ids 0]), fe_drawn := 2\<rparr>"
  let ?w1 = "w\<lparr>wl_engine := ?e1\<rparr>"
  have spawn: "spawn_workflow ?d recipe wn w = Some (Inr (ids 0), ?w1)"
    using assms(1)
    by (simp add: spawn_workflow_def run_simps lift_engine_def bindE_def fake_defs modify_def
        drawn_def new_v4_def fake_new_def Let_def recipe_steps_def)
  obtain a where ks: "kill_stale_sessions fake_factory recipe (ids 0) (wl_backend w) =
      Some (Inr (), wl_backend w\<lparr>fb_alive := a\<rparr>)"
    using kill_stale_fake [of recipe "ids 0" "wl_backend w"] kill_stale_fake_frame by blast
  let ?e2 = "?e1\<lparr>fe_tasks := [(ids 0, ?run)]\<rparr>"
  let ?w2 = "w\<lparr>wl_backend := wl_backend w\<lparr>fb_alive := a\<rparr>, wl_engine := ?e2\<rparr>"
  let ?claimed = "\<lparr>ct_run_id = ids 1, ct_task_id = ids 0, ct_task_name = ft_task_name ?task,
     ct_params = ft_params ?task\<rparr>"
  have round: "workflow_round ?d ?j (Suc n) ?w1 = claimed_round ?d ?j (Suc n) ?claimed ?w2"
    using ks
    by (simp add: workflow_round_def run_simps lift_engine_def on_backend_def bindE_def
        fake_defs claimable_def claim_of_def Let_def)
  have "\<forall>(i, s) \<in> set (steps_from ?j 0). plain_step s"
    using assms(2) by (auto simp: steps_from_0 in_set_enumerate_eq)
  then obtain w3 where run: "run_steps ?d ?j (ids 1) NULL_SHA (Suc n) 0 ?w2 = Some (Inr Done, w3)"
    and ran: "ran_steps ?j (steps_from ?j 0) ?w2 w3"
    using run_steps_test [of "steps_from ?j 0" ?w2 ?j e p "ids 1" n] assms(3,4)
    by (auto simp: run_steps_def)
  from ran have e3: "wl_engine w3 = ?e2\<lparr>fe_checkpoints := (\<lambda>_. [])(ids 0 := map (step_checkpoint (ids 0)) (recipe_steps recipe))\<rparr>"
    and b3: "fb_created (wl_backend w3) = fb_created (wl_backend w) @
      concat (map (\<lambda>(i, s). step_sessions (ids 0) i s) (enumerate 0 (recipe_steps recipe)))"
    by (simp_all add: ran_steps_def fold_add_checkpoint steps_from_0 map_snd_enumerate fake_new_def)
  have res: "resume_point fake_ops p ?q (ids 0) recipe ?e2 = Some (Inr (0, Run), ?e2)"
    by (simp add: resume_point_def resume_of_def fake_defs bindE_def gets_def ret_def fake_new_def)
  let ?e4 = "(wl_engine w3)\<lparr>fe_tasks := [(ids 0, ?run\<lparr>ft_current_run := None, ft_state := ''completed''\<rparr>)]\<rparr>"
  have "claimed_round ?d ?j (Suc n) ?claimed ?w2 = Some (Inr (Some (ids 0)), w3\<lparr>wl_engine := ?e4\<rparr>)"
    using res run e3
    by (simp add: claimed_round_def run_action_def complete_task_def run_simps lift_engine_def
        on_machine_def git_head_quiet bindE_def ret_def fake_sel fake_complete_run_def run_owner_def
        claim_of_def Let_def)
  with round have "run_workflow ?d recipe wn (ids 0) (Suc n) (Suc m) ?w1 =
      Some (Inr (ids 0), w3\<lparr>wl_engine := ?e4\<rparr>)"
    by (simp add: run_workflow_def bindE_def ret_def)
  with spawn e3 b3 show ?thesis by (auto simp: fake_task_state_def)
qed

definition sample_world :: "(fake_engine, fake_backend, unit) world" where
  "sample_world = \<lparr>wl_engine = fake_new of_nat 3, wl_db = offline_db,
     wl_backend = fake_backend_new [], wl_machine = ()\<rparr>"

lemma sample_world_ok:
  "offline (vr_name (jb_recipe sample_job)) (wl_db sample_world)" "fb_exit_codes (wl_backend sample_world) = []"
  "wl_engine sample_world = fake_new of_nat 3"
  "\<forall>s \<in> set (recipe_steps (jb_recipe sample_job)). plain_step s"
  by (simp_all add: sample_world_def sample_job_def offline_def offline_pool fake_backend_new_def
      recipe_steps_def plain_step_def is_sandbox_def sample_step_def)

lemma workflow_completes_witness:
  "\<exists>w1 w2. run_workflow (test_daemon Map.empty (\<lambda>_. None)) (jb_recipe sample_job) ''flow'' 0 1 1 w1 = Some (Inr 0, w2) \<and>
     fake_task_state (wl_engine w2) 0 = Some ''completed'' \<and>
     fb_created (wl_backend w2) = [sid_str (attempt_session 0 1 1)]"
proof -
  have "recipe_steps (jb_recipe sample_job) = [sample_step ''scout'' None, sample_step ''build'' (Some ''echo ok'')]"
    "fb_created (wl_backend sample_world) = []"
    by (simp_all add: recipe_steps_def sample_job_def sample_world_def fake_backend_new_def)
  with workflow_completes [OF sample_world_ok(3) sample_world_ok(4,1,2), of Map.empty "\<lambda>_. None" "''flow''" 0 0]
  show ?thesis by (auto simp: step_sessions_def sample_step_def)
qed

section \<open>A retry resumes at the first step that is not completed\<close>

lemma step_position_nth:
  assumes "distinct (map ws_name (recipe_steps recipe))" and "m < length (recipe_steps recipe)"
  shows "step_position recipe (ws_name (recipe_steps recipe ! m)) = m"
proof -
  let ?ns = "map ws_name (recipe_steps recipe)"
  have split: "?ns = take m ?ns @ ws_name (recipe_steps recipe ! m) # drop (Suc m) ?ns"
    using id_take_nth_drop [of m ?ns] assms(2) by simp
  with assms(1) have "ws_name (recipe_steps recipe ! m) \<notin> set (take m ?ns)"
    by (metis distinct_append distinct.simps(2) disjoint_iff list.set_intros(1))
  then have "length (takeWhile (\<lambda>n. n \<noteq> ws_name (recipe_steps recipe ! m)) ?ns) = m"
    using assms(2) by (subst split, subst takeWhile_append2) auto
  then show ?thesis using assms(2) by (simp add: step_position_def recipe_steps_def)
qed

lemma resume_of_completed:
  assumes "p (uuid_string t) = Some t"
  shows "resume_of p t recipe (Some (step_checkpoint t s)) = (step_position recipe (ws_name s) + 1, Run)"
proof -
  obtain ev where ev: "step_checkpoint t s = (ws_name s, envelope_to_value ev)"
    "ce_task_id ev = t" "ce_step_name ev = ws_name s" "ce_status ev = ''COMPLETED''"
    by (cases "ws_command s") (auto simp: step_checkpoint_def envelope_new_def with_noop_def)
  have "parse_checkpoint p (envelope_to_value ev) t = ev"
    using envelope_roundtrip [of p ev] assms ev by (simp add: parse_checkpoint_def)
  with ev show ?thesis by (simp add: resume_of_def Let_def)
qed

lemma map_steps_from:
  "map (\<lambda>(i, s). f s) (steps_from j i) = map f (drop i (recipe_steps (jb_recipe j)))"
  by (simp add: steps_from_def recipe_steps_def drop_map [symmetric] map_snd_enumerate)

lemma fst_steps_from: "k < length (steps_from j i) \<Longrightarrow> fst (steps_from j i ! k) = i + k"
  by (simp add: steps_from_def nth_enumerate_eq)

lemma length_steps_from [simp]: "length (steps_from j i) = length (recipe_steps (jb_recipe j)) - i"
  by (simp add: steps_from_def recipe_steps_def)

context task_log
begin

lemma run_steps_resume:
  assumes on: "runs_on d j eng q t" and u: "undisturbed d L"
    and dist: "distinct (map ws_name (recipe_steps (jb_recipe j)))"
    and parse: "p (uuid_string (jb_task j)) = Some (jb_task j)"
    and start: "resume_of p (jb_task j) (jb_recipe j) (last_checkpoint (L (wl_engine w))) = (i, Run)"
    and i: "i \<le> length (recipe_steps (jb_recipe j))"
    and run: "run_steps d j r sha n i w = Some (Inr out, w')"
  shows "\<exists>k. i + k \<le> length (recipe_steps (jb_recipe j)) \<and>
     L (wl_engine w') = L (wl_engine w) @
       map (step_checkpoint (jb_task j)) (take k (drop i (recipe_steps (jb_recipe j)))) \<and>
     resume_of p (jb_task j) (jb_recipe j) (last_checkpoint (L (wl_engine w'))) = (i + k, Run) \<and>
     (out = Done \<longrightarrow> i + k = length (recipe_steps (jb_recipe j))) \<and>
     (\<forall>idx nm. out = Step_suspended idx nm \<longrightarrow> idx = i + k)"
proof -
  let ?steps = "recipe_steps (jb_recipe j)"
  from appendsD [OF log_run_step_list [OF on u] run [unfolded run_steps_def]] obtain k where
    k: "k \<le> length ?steps - i" and log: "L (wl_engine w') =
      L (wl_engine w) @ map (step_checkpoint (jb_task j)) (take k (drop i ?steps))"
    and wrote: "steps_wrote (steps_from j i) out k"
    by (auto simp: map_steps_from take_map)
  have "resume_of p (jb_task j) (jb_recipe j) (last_checkpoint (L (wl_engine w'))) = (i + k, Run)"
  proof (cases k)
    case 0
    with log start show ?thesis by simp
  next
    case (Suc m)
    with k have m: "i + m < length ?steps" by simp
    have "last (take k (drop i ?steps)) = ?steps ! (i + m)"
      using Suc k by (simp add: last_conv_nth)
    then have "last_checkpoint (L (wl_engine w')) = Some (step_checkpoint (jb_task j) (?steps ! (i + m)))"
      using Suc m by (simp add: log last_checkpoint_def last_map)
    then show ?thesis
      using resume_of_completed [of p "jb_task j", OF parse] step_position_nth [OF dist m] Suc by simp
  qed
  with k i log wrote show ?thesis
    by (intro exI [of _ k]) (auto simp: steps_wrote_def fst_steps_from)
qed

lemma resume_point_log:
  "resume_point eng p q t recipe e = Some (Inr x, e') \<Longrightarrow> x = resume_of p t recipe (last_checkpoint (L e)) \<and> L e' = L e"
  by (auto simp: resume_point_def io_simps dest: last_log)

end

text \<open>C3: on an engine that keeps the contract of the checkpoint history for this run, and for a
  workflow whose steps have different names, a pass over the steps from the resume point
  extends the history of its task by the checkpoints of the steps that it completes, each once
  and in order, and leaves a resume point at the first step that is not completed: a retry, or
  a restart after a crash, neither repeats a completed step nor skips one. It ends with success
  only after the last step, and a suspended step is the one at the resume point. Nothing else
  stores checkpoints of the task meanwhile, and the textual task id can be read back.\<close>

theorem retry_resumes:
  assumes "task_log (dn_engine d) L (jb_queue j) (jb_task j) r" and "undisturbed d L"
    and "distinct (map ws_name (recipe_steps (jb_recipe j)))"
    and "dn_parse_uuid d (uuid_string (jb_task j)) = Some (jb_task j)"
    and "resume_point (dn_engine d) (dn_parse_uuid d) (jb_queue j) (jb_task j) (jb_recipe j) e
      = Some (Inr (i, Run), wl_engine w)"
    and "i \<le> length (recipe_steps (jb_recipe j))"
    and "run_steps d j r sha n i w = Some (Inr out, w')"
  shows "\<exists>k. i + k \<le> length (recipe_steps (jb_recipe j)) \<and>
     L (wl_engine w') = L (wl_engine w) @
       map (step_checkpoint (jb_task j)) (take k (drop i (recipe_steps (jb_recipe j)))) \<and>
     (\<forall>x e'. resume_point (dn_engine d) (dn_parse_uuid d) (jb_queue j) (jb_task j) (jb_recipe j) (wl_engine w')
       = Some (Inr x, e') \<longrightarrow> x = (i + k, Run)) \<and>
     (out = Done \<longrightarrow> i + k = length (recipe_steps (jb_recipe j))) \<and>
     (\<forall>idx nm. out = Step_suspended idx nm \<longrightarrow> idx = i + k)"
proof -
  let ?resume = "resume_of (dn_parse_uuid d) (jb_task j) (jb_recipe j)"
  have on: "runs_on d j (dn_engine d) (jb_queue j) (jb_task j)" by (simp add: runs_on_def)
  have start: "?resume (last_checkpoint (L (wl_engine w))) = (i, Run)"
    using task_log.resume_point_log [OF assms(1,5)] by simp
  from task_log.run_steps_resume [OF assms(1) on assms(2-4) start assms(6,7)] obtain k where
    k: "i + k \<le> length (recipe_steps (jb_recipe j))" "L (wl_engine w') = L (wl_engine w) @
       map (step_checkpoint (jb_task j)) (take k (drop i (recipe_steps (jb_recipe j))))"
      "?resume (last_checkpoint (L (wl_engine w'))) = (i + k, Run)"
      "out = Done \<longrightarrow> i + k = length (recipe_steps (jb_recipe j))"
      "\<forall>idx nm. out = Step_suspended idx nm \<longrightarrow> idx = i + k" by blast
  have "x = (i + k, Run)" if "resume_point (dn_engine d) (dn_parse_uuid d) (jb_queue j) (jb_task j)
      (jb_recipe j) (wl_engine w') = Some (Inr x, e')" for x e'
    using task_log.resume_point_log [OF assms(1) that] k(3) by simp
  with k show ?thesis by blast
qed

text \<open>The in-memory engine keeps the contract for every run.\<close>

lemma retry_resumes_witness:
  "\<exists>w'. run_steps (test_daemon Map.empty (\<lambda>s. if s = uuid_string 0 then Some 0 else None)) sample_job 1
      NULL_SHA 1 0 sample_world = Some (Inr Done, w') \<and>
    resume_point fake_ops (\<lambda>s. if s = uuid_string 0 then Some 0 else None) ''bp_flow'' 0 (jb_recipe sample_job)
      (wl_engine w') = Some (Inr (2, Run), wl_engine w')"
proof -
  let ?p = "\<lambda>s. if s = uuid_string 0 then Some (0 :: uuid) else None" and ?d = "test_daemon Map.empty"
  have steps: "recipe_steps (jb_recipe sample_job) =
      [sample_step ''scout'' None, sample_step ''build'' (Some ''echo ok'')]"
    "jb_task sample_job = 0" "jb_queue sample_job = ''bp_flow''"
    by (simp_all add: recipe_steps_def sample_job_def)
  have plain: "\<forall>(i, s) \<in> set (steps_from sample_job 0). plain_step s"
    using sample_world_ok(4) by (auto simp: steps_from_0 in_set_enumerate_eq)
  obtain w' where run: "run_steps (?d ?p) sample_job 1 NULL_SHA 1 0 sample_world = Some (Inr Done, w')"
    using run_steps_test [OF plain sample_world_ok(2,1), of Map.empty ?p 1 0] by (auto simp: run_steps_def)
  have point: "resume_point fake_ops p q t recipe e =
    Some (Inr (resume_of p t recipe (last_checkpoint (fe_checkpoints e t))), e)" for p q t recipe e
    by (cases "fe_checkpoints e t")
       (simp_all add: resume_point_def fake_defs bindE_def gets_def ret_def last_checkpoint_def)
  have "undisturbed (?d ?p) (\<lambda>e. fe_checkpoints e (jb_task sample_job))"
    by (simp add: undisturbed_def)
  moreover have "resume_point (dn_engine (?d ?p)) (dn_parse_uuid (?d ?p)) (jb_queue sample_job) (jb_task sample_job)
      (jb_recipe sample_job) (wl_engine sample_world) = Some (Inr (0, Run), wl_engine sample_world)"
    by (simp add: point sample_world_ok(3) fake_new_def last_checkpoint_def resume_of_def)
  moreover have "task_log (dn_engine (?d ?p)) (\<lambda>e. fe_checkpoints e (jb_task sample_job)) (jb_queue sample_job)
      (jb_task sample_job) 1"
    using fake.run.task_log_axioms [of "jb_task sample_job" "jb_queue sample_job" 1] by simp
  ultimately have "\<forall>x e'. resume_point fake_ops ?p ''bp_flow'' 0 (jb_recipe sample_job) (wl_engine w') =
      Some (Inr x, e') \<longrightarrow> x = (2, Run)"
    using retry_resumes [OF _ _ _ _ _ _ run, where L = "\<lambda>e. fe_checkpoints e (jb_task sample_job)"]
    by (auto simp: steps sample_step_def)
  then show ?thesis using run by (simp add: point)
qed

subsection \<open>Repeated names\<close>

lemma step_position_first:
  assumes "i < length (recipe_steps recipe)" "ws_name (recipe_steps recipe ! i) = name"
  shows "step_position recipe name \<le> i"
proof -
  let ?names = "map ws_name (wf_steps (vr_workflow recipe))"
  have i: "i < length ?names" "?names ! i = name" using assms by (simp_all add: recipe_steps_def)
  have "length (takeWhile (\<lambda>n. n \<noteq> name) ?names) \<le> i"
  proof (rule ccontr)
    assume "\<not> ?thesis"
    then have "?names ! i \<in> set (takeWhile (\<lambda>n. n \<noteq> name) ?names)"
      by (metis not_le nth_mem takeWhile_nth)
    with i(2) show False by (auto dest: set_takeWhileD)
  qed
  then show ?thesis by (simp add: step_position_def Let_def)
qed

text \<open>C17: the loader accepts a workflow in which two steps have the same name, provided that each step has a
  name and an agent, and the resume point looks a name up from the front: when the later of the
  two steps is the last one completed, the next run of the task starts at or before it, so that a
  completed step is repeated.\<close>

theorem repeated_name_repeats:
  assumes "i < m" "m < length (recipe_steps recipe)"
    and "ws_name (recipe_steps recipe ! i) = ws_name (recipe_steps recipe ! m)"
    and "list_all step_ok (recipe_steps recipe)" and "parse_uuid (uuid_string t) = Some t"
  shows "check_linear (vr_workflow recipe) (wf_name (vr_workflow recipe)) = Inr (vr_workflow recipe) \<and>
    (\<exists>k. resume_of parse_uuid t recipe (Some (step_checkpoint t (recipe_steps recipe ! m))) = (k, Run) \<and> k \<le> m)"
proof
  have "validate_workflow_steps (recipe_steps recipe) (wf_name (vr_workflow recipe)) = Inr ()"
    using assms(2,4) by (auto simp: validate_workflow_steps_ok)
  then show "check_linear (vr_workflow recipe) (wf_name (vr_workflow recipe)) = Inr (vr_workflow recipe)"
    by (simp add: check_linear_def recipe_steps_def)
  show "\<exists>k. resume_of parse_uuid t recipe (Some (step_checkpoint t (recipe_steps recipe ! m))) = (k, Run) \<and> k \<le> m"
    using resume_of_completed [of parse_uuid t, OF assms(5)] step_position_first [of i recipe] assms(1-3)
    by fastforce
qed

definition twice_recipe :: validated_recipe where
  "twice_recipe = (jb_recipe sample_job)\<lparr>vr_workflow :=
     \<lparr>wf_name = ''flow'', wf_description = None, wf_steps = [sample_step ''a'' None, sample_step ''a'' None]\<rparr>\<rparr>"

lemma repeated_name_repeats_witness:
  "check_linear (vr_workflow twice_recipe) ''flow'' = Inr (vr_workflow twice_recipe) \<and>
   (\<exists>k. resume_of (\<lambda>s. if s = uuid_string 0 then Some 0 else None) 0 twice_recipe
     (Some (step_checkpoint 0 (sample_step ''a'' None))) = (k, Run) \<and> k \<le> 1)"
proof -
  have steps: "recipe_steps twice_recipe = [sample_step ''a'' None, sample_step ''a'' None]"
    "wf_name (vr_workflow twice_recipe) = ''flow''"
    by (simp_all add: twice_recipe_def recipe_steps_def)
  have ok: "list_all step_ok (recipe_steps twice_recipe)" unfolding steps by code_simp
  show ?thesis
    using repeated_name_repeats [of 0 1 twice_recipe "\<lambda>s. if s = uuid_string 0 then Some 0 else None" 0] ok
    by (simp add: steps)
qed

section \<open>The writes guard\<close>

text \<open>The set of paths that a declaration covers, as the contract states it: a directory, with
  or without its separator, covers what lies below it, any other entry also itself.\<close>

definition covers :: "string \<Rightarrow> string \<Rightarrow> bool" where
  "covers pattern path =
     ((\<exists>rest. path = pattern @ rest \<and> suffix ''/'' pattern) \<or>
      \<not> suffix ''/'' pattern \<and> (path = pattern \<or> (\<exists>rest. path = pattern @ ''/'' @ rest)))"

lemma write_allowed_covers: "write_allowed allowed path \<longleftrightarrow> (\<exists>p \<in> set allowed. covers p path)"
  by (auto simp: write_allowed_def list_ex_iff covers_def prefix_def)

lemma those_Some_iff: "those xs = Some ys \<longleftrightarrow> xs = map Some ys"
proof (induction xs arbitrary: ys)
  case (Cons x xs)
  then show ?case by (cases x; cases ys) auto
qed auto

text \<open>A status line: two status letters, a blank, and the path or the two paths of a renaming.\<close>

definition status_line :: "string \<Rightarrow> string \<Rightarrow> bool" where
  "status_line line path = (4 \<le> length line \<and> status_path line = Some path)"

text \<open>C8: the writes guard lets a step pass exactly when every path that git reports as changed,
  the new one of a renaming, is covered by a declaration; with no declaration, an empty one, or
  without a git status it does not object. When it objects it has tried to save the changes
  under the recovery reference, and when it passes it has not touched the repository.\<close>

theorem writes_guard_spec:
  assumes "verify_post_execution_writes m root t name (Some allowed) g = Some (Inr ok, g')"
    and "allowed \<noteq> []" and "m_git m root [''status'', ''--porcelain''] g = Some (Inr out, g1)"
    and "co_success out"
  shows "(ok \<longleftrightarrow> (\<forall>line \<in> set (lines (from_utf8_lossy (co_stdout out))). \<forall>path.
             status_line line path \<longrightarrow> (\<exists>p \<in> set allowed. covers p path))) \<and>
    (if ok then g' = g1
     else \<exists>r. snapshot_to_ref m root (''refs/metamach/rollback/'' @ uuid_simple t @ ''-'' @ name)
       (''metamach recovery snapshot for step '' @ [CHR 0x27] @ name @ [CHR 0x27]) g1 = Some (r, g'))"
proof -
  let ?lines = "filter (\<lambda>l. 4 \<le> length l) (lines (from_utf8_lossy (co_stdout out)))"
  obtain bad where bad: "unauthorized_paths allowed (from_utf8_lossy (co_stdout out)) = Some bad"
    and end_: "(bad = [] \<and> ok \<and> g' = g1) \<or> (bad \<noteq> [] \<and> \<not> ok \<and>
      (\<exists>r. snapshot_to_ref m root (''refs/metamach/rollback/'' @ uuid_simple t @ ''-'' @ name)
       (''metamach recovery snapshot for step '' @ [CHR 0x27] @ name @ [CHR 0x27]) g1 = Some (r, g')))"
    using assms
    by (auto simp: verify_post_execution_writes_def bindE_def attempt_def ret_def
        split: option.splits list.splits sum.splits)
  from bad obtain paths where paths: "map status_path ?lines = map Some paths"
    and "bad = filter (\<lambda>p. \<not> write_allowed allowed p) paths"
    by (auto simp: unauthorized_paths_def those_Some_iff)
  then have "bad = [] \<longleftrightarrow> (\<forall>p \<in> set paths. write_allowed allowed p)"
    by (simp add: filter_empty_conv)
  also have "... \<longleftrightarrow> (\<forall>line \<in> set (lines (from_utf8_lossy (co_stdout out))). \<forall>path.
      status_line line path \<longrightarrow> write_allowed allowed path)"
  proof -
    have "Some ` set paths = status_path ` set ?lines"
      using arg_cong [OF paths, of set] by simp
    then have "p \<in> set paths \<longleftrightarrow> (\<exists>l \<in> set ?lines. status_path l = Some p)" for p
      by (metis (no_types, lifting) image_iff option.inject)
    then show ?thesis by (auto simp: status_line_def)
  qed
  finally show ?thesis using end_ by (auto simp: write_allowed_covers)
qed

definition status_machine :: "string \<Rightarrow> unit machine" where
  "status_machine out = quiet_machine\<lparr>m_git := (\<lambda>_ args. ret (sample_output (args = [''status'', ''--porcelain'']) out))\<rparr>"

lemma writes_guard_spec_witness:
  "\<exists>path. status_line '' M src/a.rs'' path \<and> (\<exists>p \<in> set [''src'']. covers p path)"
proof -
  let ?m = "status_machine '' M src/a.rs''"
  have run: "verify_post_execution_writes ?m ''/r'' 0 ''s'' (Some [''src'']) () = Some (Inr True, ())"
    by code_simp
  have git: "m_git ?m ''/r'' [''status'', ''--porcelain''] () = Some (Inr (sample_output True '' M src/a.rs''), ())"
    by (simp add: status_machine_def ret_def)
  have "lines (from_utf8_lossy (co_stdout (sample_output True '' M src/a.rs''))) = ['' M src/a.rs'']"
    by code_simp
  moreover have "status_line '' M src/a.rs'' ''src/a.rs''" by code_simp
  ultimately show ?thesis
    using writes_guard_spec [OF run _ git] by (auto simp: sample_output_def)
qed

section \<open>Renewing the lease\<close>

text \<open>A pane that exits with \<open>c\<close> after the given number of polls, an engine that counts the
  renewals, and a clock in milliseconds; \<open>wl_backend\<close>, \<open>wl_engine\<close> and \<open>wl_machine\<close> hold the
  remaining polls, the times of the renewals and the time.\<close>

definition ticking_backend :: "exit_code \<Rightarrow> nat backend" where
  "ticking_backend c = \<lparr>create_session = (\<lambda>_ _ _. ret ()), attach = (\<lambda>_. ret ()),
     kill_session = (\<lambda>_. ret ()), has_session = (\<lambda>_. ret True), list_sessions = ret [],
     capture_pane = (\<lambda>_. ret []),
     poll_exit = (\<lambda>_ n. Some (Inr (if n = 0 then Some c else None), n - 1))\<rparr>"

definition counting_engine :: "nat engine" where
  "counting_engine = \<lparr>create_queue = (\<lambda>_. ret ()), spawn_task = (\<lambda>_ _ _. fail []),
     claim_task = (\<lambda>_ _. ret None), extend_claim = (\<lambda>_ _ _. modify Suc),
     complete_run = (\<lambda>_ _ _. ret ()), fail_run = (\<lambda>_ _ _. ret ()),
     set_checkpoint = (\<lambda>_ _ _ _ _. ret ()), get_last_checkpoint = (\<lambda>_ _. ret None),
     non_terminal_tasks = (\<lambda>_. ret []), emit_event = (\<lambda>_ _ _. ret ()),
     await_event = (\<lambda>_ _ _ _ _ _. ret Suspended)\<rparr>"

definition ticking :: "exit_code \<Rightarrow> nat machine \<Rightarrow> (nat, nat, nat) daemon" where
  "ticking c m = \<lparr>dn_engine = counting_engine, dn_factory = (\<lambda>_. ret (ticking_backend c)),
     dn_socket_backend = (\<lambda>_. ticking_backend c), dn_machine = m, dn_env = Map.empty,
     dn_parse_uuid = (\<lambda>_. None), dn_root = [], dn_janush = [],
     dn_others = (\<lambda>ms w. w\<lparr>wl_machine := wl_machine w + ms\<rparr>)\<rparr>"

lemma poll_ticking_last:
  "poll_exit_with_lease (ticking c m) (ticking_backend c) q r s (Suc 0) since
     \<lparr>wl_engine = e, wl_db = db, wl_backend = k, wl_machine = t\<rparr> =
   (if k = 0 then Some (Inr c, \<lparr>wl_engine = e, wl_db = db, wl_backend = 0, wl_machine = t\<rparr>)
    else None)"
  by (cases k)
     (simp_all add: ticking_def ticking_backend_def counting_engine_def on_backend_def on_engine_def others_def
        lift_engine_def bindE_def ret_def modify_def panic_def POLL_INTERVAL_def LEASE_EXTEND_INTERVAL_def)

lemma poll_ticking_exit:
  "poll_exit_with_lease (ticking c m) (ticking_backend c) q r s (Suc n) since
     \<lparr>wl_engine = e, wl_db = db, wl_backend = 0, wl_machine = t\<rparr> =
   Some (Inr c, \<lparr>wl_engine = e, wl_db = db, wl_backend = 0, wl_machine = t\<rparr>)"
  by (simp add: ticking_backend_def on_backend_def bindE_def ret_def)

lemma poll_ticking_round:
  "poll_exit_with_lease (ticking c m) (ticking_backend c) q r s (Suc n) since
     \<lparr>wl_engine = e, wl_db = db, wl_backend = Suc k, wl_machine = t\<rparr> =
   (if 10000 \<le> since + 200
    then poll_exit_with_lease (ticking c m) (ticking_backend c) q r s n 0
      \<lparr>wl_engine = e + 1, wl_db = db, wl_backend = k, wl_machine = t + 200\<rparr>
    else poll_exit_with_lease (ticking c m) (ticking_backend c) q r s n (since + 200)
      \<lparr>wl_engine = e, wl_db = db, wl_backend = k, wl_machine = t + 200\<rparr>)"
  unfolding poll_exit_with_lease.simps(2) [of _ _ _ _ _ n]
  by (simp add: ticking_def ticking_backend_def counting_engine_def on_backend_def on_engine_def others_def
      lift_engine_def bindE_def ret_def modify_def POLL_INTERVAL_def LEASE_EXTEND_INTERVAL_def
      del: poll_exit_with_lease.simps)

lemma poll_ticking:
  "since < 10000 \<Longrightarrow> since mod 200 = 0 \<Longrightarrow>
   poll_exit_with_lease (ticking c m) (ticking_backend c) q r s (Suc n) since
     \<lparr>wl_engine = e, wl_db = db, wl_backend = k, wl_machine = t\<rparr> =
   (if k \<le> n then Some (Inr c, \<lparr>wl_engine = e + (since div 200 + k) div 50, wl_db = db, wl_backend = 0,
      wl_machine = t + 200 * k\<rparr>)
    else None)"
proof (induction n arbitrary: since e k t)
  case 0
  have "since div 200 div 50 = 0" using 0(1) by linarith
  then show ?case
    unfolding poll_ticking_last by simp
next
  case (Suc n)
  have small: "since div 200 div 50 = 0" using Suc.prems(1) by linarith
  show ?case
  proof (cases k)
    case 0
    then show ?thesis unfolding 0 poll_ticking_exit using small by simp
  next
    case (Suc k')
    show ?thesis
    proof (cases "10000 \<le> since + 200")
      case True
      have "since = 9800" using Suc.prems True by presburger
      moreover have "(50 + k') div 50 = Suc (k' div 50)" by simp
      ultimately show ?thesis
        unfolding Suc poll_ticking_round using Suc.IH [of 0 "e + 1" k' "t + 200"]
        by (simp del: poll_exit_with_lease.simps)
    next
      case False
      have next_ok: "since + 200 < 10000" "(since + 200) mod 200 = 0" using Suc.prems False by presburger+
      have sum: "(since + 200) div 200 + k' = since div 200 + Suc k'" by simp
      show ?thesis
        unfolding Suc poll_ticking_round if_not_P [OF False] Suc.IH [OF next_ok] sum
        by simp
    qed
  qed
qed

text \<open>C9: polling a pane that exits after \<open>k\<close> polls takes \<open>k\<close> times 200 ms, renews the lease every
  ten seconds, a third of its 30, and returns the exit status; given fewer rounds than that it
  has not returned.\<close>

theorem lease_renewals:
  "poll_exit_with_lease (ticking c m) (ticking_backend c) q r s (Suc n) 0
     \<lparr>wl_engine = 0, wl_db = db, wl_backend = k, wl_machine = 0\<rparr> =
   (if k \<le> n then Some (Inr c, \<lparr>wl_engine = 200 * k div 10000, wl_db = db, wl_backend = 0, wl_machine = 200 * k\<rparr>)
    else None)"
proof -
  have "200 * k div 10000 = k div 50" by (simp add: div_mult_mult1 [of 200 k 50, simplified])
  then show ?thesis using poll_ticking [of 0 c m q r s n 0 db k 0] by simp
qed

section \<open>Sessions of a step\<close>

text \<open>\<open>grows L n m\<close>: every run of \<open>m\<close> increases the counter \<open>L\<close> by at most \<open>n\<close>.\<close>

definition grows :: "('w \<Rightarrow> nat) \<Rightarrow> nat \<Rightarrow> ('e, 'w, 'a) io \<Rightarrow> bool" where
  "grows L n m = keeps (\<lambda>w w'. L w' \<le> L w + n) m"

lemma growsD: "grows L n m \<Longrightarrow> m w = Some (r, w') \<Longrightarrow> L w' \<le> L w + n"
  by (auto simp: grows_def keeps_def)

lemma grows_same: "keeps (same L) m \<Longrightarrow> grows L n m"
  by (auto simp: grows_def keeps_def same_def)

lemma grows_bind: "grows L k m \<Longrightarrow> (\<And>x. grows L n (f x)) \<Longrightarrow> grows L (k + n) (bindE m f)"
  by (fastforce simp: grows_def keeps_def bindE_io)

lemma grows_bind_same: "keeps (same L) m \<Longrightarrow> (\<And>x. grows L n (f x)) \<Longrightarrow> grows L n (bindE m f)"
  using grows_bind [OF grows_same [where n = 0]] by fastforce

lemma grows_bind_then: "grows L n m \<Longrightarrow> (\<And>x. keeps (same L) (f x)) \<Longrightarrow> grows L n (bindE m f)"
  using grows_bind [where n = 0, OF _ grows_same] by fastforce

lemma grows_mono: "grows L k m \<Longrightarrow> k \<le> n \<Longrightarrow> grows L n m"
  by (fastforce simp: grows_def keeps_def)

lemma grows_attempt: "grows L n m \<Longrightarrow> grows L n (attempt m)"
  unfolding grows_def by (rule keeps_attempt)

lemma grows_finally: "grows L n m \<Longrightarrow> keeps (same L) f \<Longrightarrow> grows L n (finally_do m f)"
  by (fastforce simp: grows_def keeps_def same_def finally_io)

text \<open>The number of sessions that have been created, of a daemon whose backends all are the
  in-memory one and whose other tasks create none.\<close>

abbreviation created :: "('e, fake_backend, 'g) world \<Rightarrow> nat" where
  "created w \<equiv> length (fb_created (wl_backend w))"

definition fake_backends :: "('e, fake_backend, 'g) daemon \<Rightarrow> bool" where
  "fake_backends d = (dn_factory d = fake_factory \<and> (\<forall>s. dn_socket_backend d s = fake_backend_ops) \<and>
     (\<forall>ms w. created (dn_others d ms w) = created w))"

lemma created_frame:
  "keeps (same created) (lift_engine m)" "keeps (same created) (lift_db x)" "keeps (same created) (on_machine z)"
  by (auto simp: keeps_def same_def lift_engine_def lift_db_def on_machine_def)

lemma created_backend: "grows (\<lambda>b. length (fb_created b)) n m \<Longrightarrow> grows created n (on_backend m)"
  by (fastforce simp: grows_def keeps_def on_backend_def)

lemma created_backend_same: "keeps (same (\<lambda>b. length (fb_created b))) m \<Longrightarrow> keeps (same created) (on_backend m)"
  by (fastforce simp: keeps_def same_def on_backend_def)

lemma fake_created:
  "grows (\<lambda>b. length (fb_created b)) 1 (create_session fake_backend_ops i cmd cwd)"
  "keeps (same (\<lambda>b. length (fb_created b))) (kill_session fake_backend_ops i)"
  "keeps (same (\<lambda>b. length (fb_created b))) (capture_pane fake_backend_ops i)"
  "keeps (same (\<lambda>b. length (fb_created b))) (poll_exit fake_backend_ops i)"
  by (auto simp: grows_def keeps_def same_def fake_backend_defs io_simps split: list.splits)

lemma created_ops:
  assumes "fake_backends d"
  shows "keeps (same created) (others d ms)" "keeps (same created) (on_db d x)" "keeps (same created) (on_engine d m)"
proof -
  show o: "keeps (same created) (others d ms)" for ms
    using assms by (auto simp: others_def keeps_def same_def modify_def fake_backends_def)
  show "keeps (same created) (on_db d x)" "keeps (same created) (on_engine d m)"
    unfolding on_db_def on_engine_def by (intro keeps_bindE same_trans o created_frame)+
qed

lemma created_step_ops:
  assumes "fake_backends d"
  shows "keeps (same created) (finalize d j s st c t)" "keeps (same created) (current_status d j s)"
    "keeps (same created) (start_step d j s sha sess snap)" "keeps (same created) (write_checkpoint d j r s ev)"
  unfolding finalize_def current_status_def start_step_def write_checkpoint_def
  by (auto intro!: keeps_bindE created_ops [OF assms] keeps_fail split: sum.split)

lemma created_poll:
  assumes "fake_backends d"
  shows "keeps (same created) (poll_exit_with_lease d fake_backend_ops q r sess n since)"
proof (induction n arbitrary: since)
  case (Suc n)
  show ?case
    unfolding poll_exit_with_lease.simps
    by (intro keeps_bindE same_trans created_backend_same fake_created)
       (auto intro!: keeps_bindE keeps_ret created_ops [OF assms] Suc split: option.split)
qed (simp add: keeps_panic)

lemma created_exit_zero:
  assumes "fake_backends d"
  shows "keeps (same created) (exit_zero d j s code tail)"
  unfolding exit_zero_def Let_def
  by (rule keeps_bindE, rule same_trans)
     (auto intro!: keeps_bindE keeps_ret keeps_ignore created_frame created_step_ops [OF assms]
      simp del: One_nat_def split: option.split)

lemma created_after:
  assumes "fake_backends d"
  shows "keeps (same created) (after_session d j s exit tail)"
proof (cases exit)
  case (Inl e)
  show ?thesis
    unfolding after_session_def Let_def Inl sum.case
    by (rule keeps_bindE, rule same_trans)
       (auto intro!: keeps_bindE keeps_ret created_step_ops [OF assms])
next
  case (Inr c)
  show ?thesis
    unfolding after_session_def Let_def Inr sum.case
    by (rule keeps_bindE, rule same_trans)
       (auto intro!: keeps_bindE keeps_ret created_step_ops [OF assms] created_exit_zero [OF assms]
        split: option.split)
qed

lemma step_attempt_sessions:
  assumes "fake_backends d" and "sr_backend s = fake_backend_ops"
  shows "grows created 1 (step_attempt d j s n a ctx)"
proof -
  have run: "keeps (same created) (run_session d j s n sess)" for sess
    unfolding run_session_def Let_def assms(2)
    by (auto intro!: keeps_bindE keeps_attempt created_poll created_after created_frame keeps_ignore keeps_ret
        created_backend_same fake_created assms(1) split: sum.split)
  show ?thesis
    unfolding step_attempt_def Let_def assms(2)
    by (intro grows_bind_same grows_bind_then grows_attempt created_backend fake_created)
       (auto intro!: keeps_bindE keeps_ret keeps_gets keeps_ignore created_step_ops created_backend_same
          fake_created run assms(1) split: sum.split)
qed

lemma correction_loop_sessions:
  assumes "fake_backends d" and "sr_backend s = fake_backend_ops"
  shows "grows created (1 + (max_attempts (sr_step s) - a)) (correction_loop d j s n a ctx)"
  using assms
proof (induction d j s n a ctx rule: correction_loop.induct)
  case (1 d j s n a ctx)
  have "grows created (max_attempts (sr_step s) - a) (case x of Completed \<Rightarrow> ret None
       | Returned outcome \<Rightarrow> ret (Some outcome)
       | Nonzero code tail \<Rightarrow>
           if a < max_attempts (sr_step s) then
             correction_loop d j s n (a + 1) (Some (correction_text a (sr_step s) code tail))
           else bindE (finalize d j (sr_step s) ''FAILED'' (Some code) tail) (\<lambda>_. ret (Some Failed)))" for x
  proof (cases x)
    case (Nonzero code tail)
    show ?thesis
    proof (cases "a < max_attempts (sr_step s)")
      case True
      with 1 Nonzero have "grows created (1 + (max_attempts (sr_step s) - (a + 1)))
          (correction_loop d j s n (a + 1) (Some (correction_text a (sr_step s) code tail)))" by blast
      then show ?thesis using True Nonzero by (simp add: Suc_diff_Suc)
    qed (use Nonzero 1 in \<open>auto intro!: grows_same keeps_bindE keeps_ret created_step_ops\<close>)
  qed (auto intro!: grows_same keeps_ret)
  then show ?case
    unfolding correction_loop.simps [of d j s n a ctx]
    by (intro grows_bind step_attempt_sessions "1.prems")
qed

text \<open>C6: a pass over one step starts at most as many sessions as its attempt limit says, three by
  default and one when the limit is zero, whatever the exits, the database, the engine and the
  daemon's other tasks do; a step without a command starts none.\<close>

theorem step_sessions_bounded:
  assumes "fake_backends d" and "run_step d j r sha n idx step w = Some (x, w')"
  shows "created w' \<le> created w + (if ws_command step = None then 0 else max 1 (max_attempts step))"
proof -
  have sandbox: "keeps (same created) (enter_sandbox d j step)" "keeps (same created) (leave_sandbox d j step dir)" for dir
    unfolding enter_sandbox_def leave_sandbox_def Let_def
    by (auto intro!: keeps_bindE keeps_attempt keeps_ignore created_frame keeps_ret split: option.split)
  have factory: "keeps (same created) (on_backend (dn_factory d h))" for h
    using assms(1) by (auto simp: fake_backends_def fake_factory_def intro!: created_backend_same keeps_ret)
  have loop: "grows created (max 1 (max_attempts step)) (correction_loop d j s n 1 None)"
    if "sr_step s = step" "sr_backend s = fake_backend_ops" for s
    by (rule grows_mono [OF correction_loop_sessions [OF assms(1) that(2)]]) (use that in simp)
  have bks: "(if is_sandbox step then dn_socket_backend d sock else fake_backend_ops) = fake_backend_ops" for sock
    using assms(1) by (simp add: fake_backends_def)
  have f: "dn_factory d = fake_factory" using assms(1) by (simp add: fake_backends_def)
  let ?n = "if ws_command step = None then 0 else max 1 (max_attempts step)"
  have "grows created ?n (run_step d j r sha n idx step)"
  proof (cases "ws_command step")
    case None
    have "keeps (same created) (run_step d j r sha n idx step)"
      unfolding run_step_def manual_step_def Let_def
      using None
      by (auto intro!: keeps_bindE keeps_finally keeps_gets keeps_ret sandbox factory
          created_step_ops [OF assms(1)])
    then show ?thesis by (rule grows_same)
  next
    case (Some c)
    have bk: "on_backend (fake_factory h) = (ret fake_backend_ops :: (_, fake_backend, _, _) act)" for h
      by (auto simp: on_backend_def fake_factory_def ret_def fun_eq_iff)
    show ?thesis
      unfolding run_step_def Let_def f bk bindE_ret Some option.case
      by (intro grows_bind_same sandbox grows_finally keeps_gets same_refl)
         (use loop Some bks in auto)
  qed
  from growsD [OF this assms(2)] show ?thesis .
qed

lemma step_sessions_bounded_witness:
  "\<exists>w'. run_step (test_daemon Map.empty (\<lambda>_. None)) sample_job 1 NULL_SHA 1 1
      (sample_step ''build'' (Some ''echo ok'')) sample_world = Some (Inr None, w') \<and> created w' \<le> 3"
proof -
  let ?d = "test_daemon Map.empty (\<lambda>_. None)" and ?s = "sample_step ''build'' (Some ''echo ok'')"
  have fb: "fake_backends ?d" by (simp add: fake_backends_def test_daemon_on_def)
  have s: "plain_step ?s" "ws_command ?s = Some ''echo ok''" "max_attempts ?s = 3"
    by (simp_all add: plain_step_def is_sandbox_def sample_step_def max_attempts_def)
  obtain w' where run: "run_step ?d sample_job 1 NULL_SHA 1 1 ?s sample_world = Some (Inr None, w')"
    using run_step_test [OF s(1) sample_world_ok(2,1), of Map.empty "\<lambda>_. None" 1 0 1] by auto
  have "created sample_world = 0" by (simp add: sample_world_def fake_backend_new_def)
  with step_sessions_bounded [OF fb run] run s show ?thesis by simp
qed

section \<open>Human verdicts\<close>




end
