(* ===== verification/Agent.thy ===== *)
theory Agent
  imports Prelude
begin

text \<open>
  Agent provisioning, \<open>src/janus/src/agent.rs\<close>: which program backs an agent, its quotas and
  fallback, and the probes that run before a hardware command.

  The toml crate is the parameter \<open>from_toml\<close>. A floating point limit keeps its text. The
  shell that runs a probe is a parameter of \<open>run_preflight\<close>.
\<close>

section \<open>Provisioning\<close>

record preflight_config =
  pf_esptool_write :: "string option"
  pf_generic :: "string option"

record agent_quota =
  aq_max_tokens_per_day :: "nat option"
  aq_max_cost_usd_per_day :: "string option"
  aq_max_requests_per_hour :: "nat option"
  aq_fallback_agent :: "string option"

record agent_provision =
  ap_adapter :: string
  ap_command :: "string option"
  ap_system_prompt :: "string option"
  ap_quota :: "agent_quota option"
  ap_preflight :: "preflight_config option"

record agent_entry =
  ae_provision :: "agent_provision option"

type_synonym agent_stack = "string \<Rightarrow> agent_entry option"

section \<open>Probes\<close>

definition probe_for :: "preflight_config \<Rightarrow> string \<Rightarrow> string option" where
  "probe_for cfg command =
     (if contains ''esptool.py'' command \<and> contains ''write_flash'' command then pf_esptool_write cfg
      else pf_generic cfg)"

datatype probe_outcome = Bypass | Require_approval | No_probe

definition shell_quote_for_probe :: "string \<Rightarrow> string" where
  "shell_quote_for_probe s =
     [CHR 0x27] @ concat (map (\<lambda>c. if c = CHR 0x27 then [CHR 0x27, CHR 0x5C, CHR 0x27, CHR 0x27] else [c]) s) @ [CHR 0x27]"

text \<open>\<open>sh\<close> runs \<open>/bin/sh -c\<close> on a text: \<open>None\<close> when it cannot be started, else the exit and the
  standard output.\<close>

definition run_preflight :: "(string \<Rightarrow> 'w \<Rightarrow> (bool \<times> string) option \<times> 'w) \<Rightarrow> agent_provision option \<Rightarrow>
    string \<Rightarrow> 'w \<Rightarrow> probe_outcome \<times> 'w" where
  "run_preflight sh provision command w =
     (case Option.bind provision ap_preflight of
        None \<Rightarrow> (No_probe, w)
      | Some cfg \<Rightarrow>
          (case probe_for cfg command of
             None \<Rightarrow> (No_probe, w)
           | Some probe_cmd \<Rightarrow>
               (case sh (replace_all ''$CMD'' (shell_quote_for_probe command) probe_cmd) w of
                  (Some (True, out), w') \<Rightarrow>
                    (if contains ''BYPASS'' (from_utf8_lossy out) then Bypass else Require_approval, w')
                | (_, w') \<Rightarrow> (Require_approval, w'))))"

section \<open>The stack of agents\<close>

definition stack_load :: "(string \<Rightarrow> agent_stack option) \<Rightarrow> fs \<Rightarrow> string \<Rightarrow> string + agent_stack" where
  "stack_load from_toml fs path =
     (case read_to_string fs path of
        None \<Rightarrow> Inl (''read agents.toml at '' @ path)
      | Some txt \<Rightarrow>
          (case from_toml txt of
             None \<Rightarrow> Inl (''parse agents.toml at '' @ path)
           | Some stack \<Rightarrow> Inr stack))"

text \<open>The loop over the reversed paths: what is merged so far, and whether a file was loaded.\<close>

fun merge_stacks :: "(string \<Rightarrow> agent_stack option) \<Rightarrow> fs \<Rightarrow> string list \<Rightarrow> agent_stack \<Rightarrow> bool \<Rightarrow>
    string + (agent_stack \<times> bool)" where
  "merge_stacks from_toml fs [] merged loaded = Inr (merged, loaded)"
| "merge_stacks from_toml fs (path # paths) merged loaded =
     (if file_exists fs path then
        (case stack_load from_toml fs path of
           Inl e \<Rightarrow> Inl e
         | Inr stack \<Rightarrow> merge_stacks from_toml fs paths (merged ++ stack) True)
      else merge_stacks from_toml fs paths merged loaded)"

text \<open>\<open>show_paths\<close> prints the list of paths in the error.\<close>

definition stack_load_merged :: "(string list \<Rightarrow> string) \<Rightarrow> (string \<Rightarrow> agent_stack option) \<Rightarrow> fs \<Rightarrow>
    string list \<Rightarrow> string + agent_stack" where
  "stack_load_merged show_paths from_toml fs paths =
     (case merge_stacks from_toml fs (rev paths) Map.empty False of
        Inl e \<Rightarrow> Inl e
      | Inr (merged, loaded) \<Rightarrow>
          if loaded then Inr merged else Inl (''no agents.toml found in '' @ show_paths paths))"

text \<open>\<open>resolve_impl\<close> only warns when the fallback is visited already or has no entry.\<close>

definition resolve_impl :: "agent_stack \<Rightarrow> string \<Rightarrow> string list \<Rightarrow> agent_provision option" where
  "resolve_impl stack agent_id visited =
     (case stack agent_id of
        None \<Rightarrow> None
      | Some entry \<Rightarrow>
          (case ae_provision entry of
             None \<Rightarrow> None
           | Some provision \<Rightarrow>
               (case Option.bind (ap_quota provision) aq_fallback_agent of
                  Some fallback_id \<Rightarrow>
                    if list_ex (\<lambda>v. v = fallback_id \<or> v = agent_id) visited then Some provision
                    else Some provision
                | None \<Rightarrow> Some provision)))"

definition resolve :: "agent_stack \<Rightarrow> string \<Rightarrow> agent_provision option" where
  "resolve stack agent_id = resolve_impl stack agent_id []"

definition is_provisioned :: "agent_stack \<Rightarrow> string \<Rightarrow> bool" where
  "is_provisioned stack agent_id = (resolve stack agent_id \<noteq> None)"

section \<open>The effective stack\<close>

text \<open>The entry of the first file in priority order that defines the agent.\<close>

fun first_entry :: "(string \<Rightarrow> agent_stack option) \<Rightarrow> fs \<Rightarrow> string list \<Rightarrow> string \<Rightarrow> agent_entry option" where
  "first_entry from_toml fs [] agent = None"
| "first_entry from_toml fs (path # paths) agent =
     (case Option.bind (read_to_string fs path) (\<lambda>txt. Option.bind (from_toml txt) (\<lambda>st. st agent)) of
        Some e \<Rightarrow> Some e
      | None \<Rightarrow> first_entry from_toml fs paths agent)"

definition readable :: "(string \<Rightarrow> agent_stack option) \<Rightarrow> fs \<Rightarrow> string \<Rightarrow> bool" where
  "readable from_toml fs path = (Option.bind (read_to_string fs path) from_toml \<noteq> None)"

lemma stack_load_readable:
  "stack_load from_toml fs path =
     (case Option.bind (read_to_string fs path) from_toml of
        Some st \<Rightarrow> Inr st
      | None \<Rightarrow> Inl ((if read_to_string fs path = None then ''read agents.toml at '' else ''parse agents.toml at '') @ path))"
  by (simp add: stack_load_def split: option.splits)

lemma merge_stacks_append:
  "merge_stacks from_toml fs (xs @ ys) m b =
     (case merge_stacks from_toml fs xs m b of
        Inl e \<Rightarrow> Inl e | Inr (m', b') \<Rightarrow> merge_stacks from_toml fs ys m' b')"
  by (induction xs arbitrary: m b) (auto split: sum.split)

lemma readable_exists: "readable from_toml fs p \<Longrightarrow> file_exists fs p"
  by (auto simp: readable_def read_to_string_def file_exists_def split: option.splits)

lemma merge_stacks_rev:
  "\<forall>p \<in> set paths. file_exists fs p \<longrightarrow> readable from_toml fs p \<Longrightarrow>
   merge_stacks from_toml fs (rev paths) m b =
     Inr (m ++ first_entry from_toml fs paths, b \<or> (\<exists>p \<in> set paths. file_exists fs p))"
proof (induction paths)
  case (Cons p ps)
  show ?case
  proof (cases "file_exists fs p")
    case True
    then obtain st where st: "Option.bind (read_to_string fs p) from_toml = Some st"
      using Cons.prems by (auto simp: readable_def)
    then have "first_entry from_toml fs (p # ps) = first_entry from_toml fs ps ++ st"
      by (auto simp: fun_eq_iff map_add_def bind_eq_Some_conv split: option.split)
    then show ?thesis using Cons True st by (simp add: merge_stacks_append stack_load_readable)
  next
    case False
    then have "first_entry from_toml fs (p # ps) = first_entry from_toml fs ps"
      by (auto simp: fun_eq_iff file_exists_def read_to_string_def)
    then show ?thesis using Cons False by (simp add: merge_stacks_append)
  qed
qed (simp add: map_add_def fun_eq_iff)

lemma merge_stacks_unreadable:
  "\<exists>p \<in> set paths. file_exists fs p \<and> \<not> readable from_toml fs p \<Longrightarrow>
   \<exists>e. merge_stacks from_toml fs paths m b = Inl e"
proof (induction paths arbitrary: m b)
  case (Cons p ps)
  then show ?case
    by (cases "file_exists fs p"; cases "Option.bind (read_to_string fs p) from_toml")
       (auto simp: stack_load_readable readable_def)
qed simp

text \<open>C30: loading the agents succeeds exactly when at least one of the files exists and each of
  those that exist can be read and parsed; then every agent has the entry of the first file,
  in the order of priority, that defines it.\<close>

theorem stack_load_merged_first:
  "stack_load_merged show_paths from_toml fs paths = Inr stack \<longleftrightarrow>
     (\<exists>p \<in> set paths. file_exists fs p) \<and> (\<forall>p \<in> set paths. file_exists fs p \<longrightarrow> readable from_toml fs p) \<and>
     stack = first_entry from_toml fs paths"
proof (cases "\<forall>p \<in> set paths. file_exists fs p \<longrightarrow> readable from_toml fs p")
  case True
  then show ?thesis using merge_stacks_rev [OF True, of Map.empty False]
    by (auto simp: stack_load_merged_def)
next
  case False
  then obtain e where "merge_stacks from_toml fs (rev paths) Map.empty False = Inl e"
    using merge_stacks_unreadable [of "rev paths"] by fastforce
  then show ?thesis using False by (auto simp: stack_load_merged_def)
qed

definition plain_entry :: agent_entry where
  "plain_entry = \<lparr>ae_provision = None\<rparr>"

lemma stack_load_merged_first_witness:
  "stack_load_merged (\<lambda>_. []) (\<lambda>txt. Some [txt \<mapsto> plain_entry]) [''/a'' \<mapsto> File ''builder'', ''/c'' \<mapsto> File ''tester'']
     [''/a'', ''/b'', ''/c''] = Inr [''builder'' \<mapsto> plain_entry, ''tester'' \<mapsto> plain_entry]"
proof -
  have "first_entry (\<lambda>txt. Some [txt \<mapsto> plain_entry]) [''/a'' \<mapsto> File ''builder'', ''/c'' \<mapsto> File ''tester'']
      [''/a'', ''/b'', ''/c''] = [''builder'' \<mapsto> plain_entry, ''tester'' \<mapsto> plain_entry]"
    by (simp add: fun_eq_iff read_to_string_def)
  then show ?thesis
    unfolding stack_load_merged_first by (simp add: file_exists_def readable_def read_to_string_def)
qed

end
