(* ===== verification/Tool_Guard.thy ===== *)
theory Tool_Guard
  imports Recipe
begin

text \<open>
  The rule engine for shell commands, \<open>src/janus/src/tool_guard/mod.rs\<close>, and its
  configuration, \<open>src/janus/src/tool_guard/rules.rs\<close>.

  The \<open>regex\<close> and \<open>toml\<close> crates are parameters: \<open>rx_match src text\<close> says whether the
  expression \<open>src\<close> matches (\<open>None\<close> when it does not compile) and \<open>rx_groups\<close> lists the first
  groups of the successive matches. The text of each expression is built as the code builds
  it. A compiled expression is represented by its source text. The file system is a
  parameter with the modification times, which the hot reload compares.
\<close>

section \<open>Verdicts and rules\<close>

datatype verdict_kind = Allow | Block | Rewrite

definition kind_str :: "verdict_kind \<Rightarrow> string" where
  "kind_str k = (case k of Allow \<Rightarrow> ''ALLOW'' | Block \<Rightarrow> ''BLOCK'' | Rewrite \<Rightarrow> ''REWRITE'')"

record verdict =
  v_kind :: verdict_kind
  v_reason :: "string option"
  v_rewritten_argv :: "string list option"
  v_correlation_id :: string
  v_cause :: "string option"

record agent_profile =
  ap_permissions :: "string list"
  ap_allow_network :: bool
  ap_bash_safe :: bool
  ap_bash_blacklist :: "string list"
  ap_require_approval :: "string list"
  ap_financial :: "string list"

type_synonym agent_rules = "string \<Rightarrow> agent_profile option"

record regex_crate =
  rx_match :: "string \<Rightarrow> string \<Rightarrow> bool option"
  rx_groups :: "string \<Rightarrow> string \<Rightarrow> string list option"

text \<open>What the rule loader reads: the files, their modification times and the parser.\<close>

record rule_env =
  re_fs :: fs
  re_mtime :: "string \<Rightarrow> nat option"
  re_toml :: "string \<Rightarrow> agent_rules option"

definition DEFAULT_AGENT :: string where
  "DEFAULT_AGENT = ''default''"

definition rules_load :: "rule_env \<Rightarrow> string \<Rightarrow> agent_rules option" where
  "rules_load env path = Option.bind (read_to_string (re_fs env) path) (re_toml env)"

text \<open>The loop runs over the reversed list, so that earlier paths overwrite later ones; an
  unreadable existing file is an error.\<close>

fun rules_merge :: "rule_env \<Rightarrow> string list \<Rightarrow> agent_rules \<times> bool \<Rightarrow> (agent_rules \<times> bool) option" where
  "rules_merge env [] acc = Some acc"
| "rules_merge env (p # ps) (merged, loaded) =
     (if file_exists (re_fs env) p then
        (case rules_load env p of
           None \<Rightarrow> None
         | Some rules \<Rightarrow> rules_merge env ps (merged ++ rules, True))
      else rules_merge env ps (merged, loaded))"

definition rules_load_merged :: "rule_env \<Rightarrow> string list \<Rightarrow> agent_rules option" where
  "rules_load_merged env paths =
     (case rules_merge env (rev paths) (Map.empty, False) of
        None \<Rightarrow> None
      | Some (merged, loaded) \<Rightarrow> if loaded then Some merged else None)"

section \<open>Compiled rules\<close>

definition glob_char :: "char \<Rightarrow> string" where
  "glob_char c =
     (if c = CHR ''*'' then ''.*''
      else if c \<in> set (CHR 0x5C # ''.+?()[]{}|^$'') then [CHR 0x5C, c]
      else [c])"

definition glob_boundary :: string where
  "glob_boundary = ''(?:['' @ [CHR 0x5C] @ ''s'' @ [CHR 0x22, CHR 0x27] @ ''&|;<>()'' @ [CHR 0x60] @
     '']|$)''"

definition never_match :: string where
  "never_match = ''a^''"

definition glob_source :: "string \<Rightarrow> string" where
  "glob_source pattern =
     concat (map glob_char pattern) @ (if suffix ''/'' pattern then glob_boundary else [])"

definition compile_glob :: "regex_crate \<Rightarrow> string \<Rightarrow> string" where
  "compile_glob rx pattern =
     (case rx_match rx (glob_source pattern) [] of None \<Rightarrow> never_match | Some _ \<Rightarrow> glob_source pattern)"

definition compile_patterns :: "regex_crate \<Rightarrow> string list \<Rightarrow> (string \<times> string) list" where
  "compile_patterns rx ps = map (\<lambda>p. (p, compile_glob rx p)) ps"

type_synonym rule_map = "string \<Rightarrow> (string \<times> string) list option"

definition compile_class :: "regex_crate \<Rightarrow> (agent_profile \<Rightarrow> string list) \<Rightarrow> agent_rules \<Rightarrow> rule_map" where
  "compile_class rx f rules name = map_option (\<lambda>p. compile_patterns rx (f p)) (rules name)"

record guard_state =
  gs_rules :: agent_rules
  gs_mtime :: "nat option"
  gs_blacklist :: rule_map
  gs_approval :: rule_map
  gs_financial :: rule_map

definition build_state :: "regex_crate \<Rightarrow> agent_rules \<Rightarrow> nat option \<Rightarrow> guard_state" where
  "build_state rx rules mtime =
     \<lparr>gs_rules = rules, gs_mtime = mtime,
      gs_blacklist = compile_class rx ap_bash_blacklist rules,
      gs_approval = compile_class rx ap_require_approval rules,
      gs_financial = compile_class rx ap_financial rules\<rparr>"

definition load_fresh :: "regex_crate \<Rightarrow> rule_env \<Rightarrow> string \<Rightarrow> guard_state" where
  "load_fresh rx env path =
     build_state rx
       (if path = [] \<or> \<not> file_exists (re_fs env) path then Map.empty
        else (case rules_load env path of None \<Rightarrow> Map.empty | Some rules \<Rightarrow> rules))
       (re_mtime env path)"

text \<open>The engine is the path it watches and the state under its mutex.\<close>

type_synonym guard_engine = "string \<times> guard_state"


definition guard_load_merged :: "regex_crate \<Rightarrow> rule_env \<Rightarrow> string list \<Rightarrow> guard_engine" where
  "guard_load_merged rx env paths =
     (let primary = (case paths of [] \<Rightarrow> [] | p # _ \<Rightarrow> p);
          rules = (case rules_load_merged env paths of None \<Rightarrow> Map.empty | Some r \<Rightarrow> r) in
      (primary, build_state rx rules (re_mtime env primary)))"

definition guard_empty :: guard_engine where
  "guard_empty = ([], \<lparr>gs_rules = Map.empty, gs_mtime = None, gs_blacklist = Map.empty,
     gs_approval = Map.empty, gs_financial = Map.empty\<rparr>)"

definition refresh_if_changed :: "regex_crate \<Rightarrow> rule_env \<Rightarrow> guard_engine \<Rightarrow> guard_engine" where
  "refresh_if_changed rx env g =
     (if re_mtime env (fst g) = gs_mtime (snd g) then g
      else (fst g, load_fresh rx env (fst g)))"

section \<open>The command\<close>

fun after_dash_c :: "string list \<Rightarrow> string option" where
  "after_dash_c [] = None"
| "after_dash_c [a] = None"
| "after_dash_c (a # c # rest) = (if a = ''-c'' then Some c else after_dash_c (c # rest))"

definition command_string :: "string list \<Rightarrow> string" where
  "command_string argv = (case after_dash_c argv of Some c \<Rightarrow> c | None \<Rightarrow> join '' '' argv)"

definition rx_holds :: "regex_crate \<Rightarrow> string \<Rightarrow> string \<Rightarrow> bool" where
  "rx_holds rx src cmd = (rx_match rx src cmd = Some True)"

definition match_rules :: "regex_crate \<Rightarrow> rule_map \<Rightarrow> string \<Rightarrow> string \<Rightarrow> string option" where
  "match_rules rx m cmd name =
     (case m name of
        None \<Rightarrow> None
      | Some v \<Rightarrow> map_option fst (List.find (\<lambda>(p, re). rx_holds rx re cmd) v))"

definition match_any :: "regex_crate \<Rightarrow> rule_map \<Rightarrow> string \<Rightarrow> string \<Rightarrow> string option" where
  "match_any rx m agent cmd =
     (case match_rules rx m cmd agent of
        Some p \<Rightarrow> Some p
      | None \<Rightarrow> match_rules rx m cmd DEFAULT_AGENT)"

definition assign_source :: string where
  "assign_source = ''([A-Za-z_][A-Za-z0-9_]*)=/(?:['' @ [CHR 0x5C] @ ''s&|;'' @
     [CHR 0x22, CHR 0x27, CHR 0x60] @ '']|$)''"

definition rm_source :: string where
  "rm_source = ''rm'' @ [CHR 0x5C] @ ''s+-rf'' @ [CHR 0x5C] @ ''s+''"

definition use_source :: "string \<Rightarrow> string" where
  "use_source var = rm_source @ ''.*'' @ [CHR 0x5C] @ ''$[{]?'' @ var @ ''[}]?''"

text \<open>An expression that does not compile ends the scan without a hit.\<close>

fun scan_vars :: "regex_crate \<Rightarrow> string \<Rightarrow> string list \<Rightarrow> string option" where
  "scan_vars rx cmd [] = None"
| "scan_vars rx cmd (var # vars) =
     (case rx_match rx (use_source var) cmd of
        None \<Rightarrow> None
      | Some True \<Rightarrow> Some (''rm -rf / (via $'' @ var @ '')'')
      | Some False \<Rightarrow> scan_vars rx cmd vars)"

definition env_injection_root_delete :: "regex_crate \<Rightarrow> string \<Rightarrow> string option" where
  "env_injection_root_delete rx cmd =
     (case rx_groups rx assign_source cmd of
        None \<Rightarrow> None
      | Some vars \<Rightarrow> if rx_holds rx rm_source cmd then scan_vars rx cmd vars else None)"

definition capability_of :: "string \<Rightarrow> string" where
  "capability_of cmd =
     (let toks = split_whitespace cmd;
          first = (case toks of t # _ \<Rightarrow> t | [] \<Rightarrow> []);
          second = (case toks of _ # t # _ \<Rightarrow> t | _ \<Rightarrow> []) in
      if first \<in> {''ls'', ''cat'', ''head'', ''tail'', ''grep'', ''find'', ''pwd'', ''echo'', ''wc'',
          ''tree'', ''less'', ''more''} then ''read''
      else if first = ''git'' then
        (if second = ''log'' then ''git-log''
         else if second \<in> {''show'', ''status'', ''diff''} then ''read''
         else if second = ''commit'' then ''git-commit''
         else if second = ''push'' then ''git-push'' else ''git'')
      else if first \<in> {''rm'', ''mv'', ''cp'', ''mkdir'', ''touch'', ''chmod'', ''chown'', ''tee''}
        then ''write''
      else if first \<in> {''ssh'', ''scp'', ''rsync''} then ''ssh''
      else ''other'')"

definition permissions_allow :: "agent_profile \<Rightarrow> string \<Rightarrow> bool" where
  "permissions_allow p cmd =
     (''bash-full'' \<in> set (ap_permissions p) \<or> capability_of cmd \<in> set (ap_permissions p) \<or>
      ((ap_bash_safe p \<or> ''bash-safe'' \<in> set (ap_permissions p)) \<and> capability_of cmd \<noteq> ''ssh''))"

definition rewrite_dry_run :: "string \<Rightarrow> string" where
  "rewrite_dry_run cmd =
     (if contains ''--action execute'' cmd then
        replace_all ''--action execute'' ''--action dry-run'' cmd
      else if contains '' execute'' cmd then replace_first '' execute'' '' dry-run'' cmd
      else cmd @ '' --dry-run'')"

section \<open>Evaluation\<close>

definition guard_agent :: "(string \<Rightarrow> string option) \<Rightarrow> string" where
  "guard_agent env =
     (case env ''JANUS_AGENT'' of Some a \<Rightarrow> if a \<noteq> [] then a else DEFAULT_AGENT | None \<Rightarrow> DEFAULT_AGENT)"

definition guard_profile :: "agent_rules \<Rightarrow> string \<Rightarrow> agent_profile option" where
  "guard_profile rules agent =
     (case rules agent of Some p \<Rightarrow> Some p | None \<Rightarrow> rules DEFAULT_AGENT)"

definition blacklist_hit :: "regex_crate \<Rightarrow> guard_state \<Rightarrow> string \<Rightarrow> string \<Rightarrow> string option" where
  "blacklist_hit rx gs agent cmd =
     (case match_any rx (gs_blacklist gs) agent cmd of
        Some hit \<Rightarrow> Some hit
      | None \<Rightarrow> env_injection_root_delete rx cmd)"

definition guard_verdict :: "regex_crate \<Rightarrow> guard_state \<Rightarrow> string \<Rightarrow> string list \<Rightarrow>
    (string \<Rightarrow> string option) \<Rightarrow> verdict" where
  "guard_verdict rx gs execution_id argv env =
     (let cmd = command_string argv; agent = guard_agent env;
          profile = guard_profile (gs_rules gs) agent in
      case blacklist_hit rx gs agent cmd of
        Some hit \<Rightarrow>
          \<lparr>v_kind = Block, v_reason = Some (''blacklisted: '' @ hit), v_rewritten_argv = None,
           v_correlation_id = execution_id, v_cause = Some ''blacklist''\<rparr>
      | None \<Rightarrow>
          (case match_any rx (gs_approval gs) agent cmd of
             Some hit \<Rightarrow>
               \<lparr>v_kind = Block, v_reason = Some (''requires approval: '' @ hit),
                v_rewritten_argv = None, v_correlation_id = execution_id,
                v_cause = Some ''require_approval''\<rparr>
           | None \<Rightarrow>
               if (case profile of Some p \<Rightarrow> \<not> permissions_allow p cmd | None \<Rightarrow> False) then
                 \<lparr>v_kind = Block,
                  v_reason = Some (''capability not permitted for agent '' @ [CHR 0x27] @ agent @ [CHR 0x27]),
                  v_rewritten_argv = None, v_correlation_id = execution_id,
                  v_cause = Some ''permissions''\<rparr>
               else if match_any rx (gs_financial gs) agent cmd \<noteq> None then
                 \<lparr>v_kind = Rewrite, v_reason = Some ''financial: forced dry-run'',
                  v_rewritten_argv = Some (split_whitespace (rewrite_dry_run cmd)),
                  v_correlation_id = execution_id, v_cause = Some ''financial''\<rparr>
               else
                 \<lparr>v_kind = Allow, v_reason = None, v_rewritten_argv = None,
                  v_correlation_id = execution_id, v_cause = None\<rparr>))"

definition guard_evaluate :: "regex_crate \<Rightarrow> rule_env \<Rightarrow> string \<Rightarrow> string list \<Rightarrow>
    (string \<Rightarrow> string option) \<Rightarrow> guard_engine \<Rightarrow> verdict \<times> guard_engine" where
  "guard_evaluate rx renv execution_id argv env g =
     (let g' = refresh_if_changed rx renv g in
      (guard_verdict rx (snd g') execution_id argv env, g'))"

section \<open>Rules\<close>

lemma rules_merge_lookup:
  "rules_merge env ps (m, l) = Some (m', l') \<Longrightarrow>
     m' name = (case List.find (\<lambda>p. file_exists (re_fs env) p \<and>
         Option.bind (rules_load env p) (\<lambda>r. r name) \<noteq> None) (rev ps) of
       Some p \<Rightarrow> Option.bind (rules_load env p) (\<lambda>r. r name) | None \<Rightarrow> m name)"
proof (induction ps arbitrary: m l)
  case (Cons p ps)
  have find_snoc: "List.find P (xs @ [x]) =
      (case List.find P xs of Some y \<Rightarrow> Some y | None \<Rightarrow> if P x then Some x else None)" for P xs and x :: string
    by (induction xs) auto
  show ?case
  proof (cases "file_exists (re_fs env) p")
    case True
    with Cons.prems obtain r where "rules_load env p = Some r" by (auto split: option.splits)
    with True Cons show ?thesis
      by (auto simp: find_snoc map_add_def split: option.splits)
  next
    case False
    with Cons show ?thesis by (auto simp: find_snoc split: option.splits)
  qed
qed simp

text \<open>Merged rules give each role the profile of the first configured path that defines it:
  a project file overrides the global one role by role.\<close>

theorem rules_load_merged_first:
  assumes "rules_load_merged env paths = Some m"
  shows "m name = (case List.find (\<lambda>p. file_exists (re_fs env) p \<and>
       Option.bind (rules_load env p) (\<lambda>r. r name) \<noteq> None) paths of
     Some p \<Rightarrow> Option.bind (rules_load env p) (\<lambda>r. r name) | None \<Rightarrow> None)"
  using assms rules_merge_lookup [of env "rev paths" Map.empty False m True name]
  by (auto simp: rules_load_merged_def split: option.splits if_splits)

definition sample_profile :: "string list \<Rightarrow> agent_profile" where
  "sample_profile bl = \<lparr>ap_permissions = [''bash-full''], ap_allow_network = False,
     ap_bash_safe = False, ap_bash_blacklist = bl, ap_require_approval = [], ap_financial = []\<rparr>"

text \<open>A project file without a default profile beside a global file that blacklists one
  command; \<open>t\<close> is the modification time of the project file.\<close>

definition sample_rule_env :: "nat \<Rightarrow> rule_env" where
  "sample_rule_env t =
     \<lparr>re_fs = [''p'' \<mapsto> File ''project'', ''g'' \<mapsto> File ''global''],
      re_mtime = (\<lambda>p. if p = ''p'' then Some t else None),
      re_toml = (\<lambda>s. if s = ''global'' then Some [DEFAULT_AGENT \<mapsto> sample_profile [''rm'']]
                else Some [''scout'' \<mapsto> sample_profile []])\<rparr>"

definition sample_regex :: regex_crate where
  "sample_regex = \<lparr>rx_match = (\<lambda>src t. Some (contains src t)), rx_groups = (\<lambda>src t. Some [])\<rparr>"

lemma rules_load_merged_first_witness:
  "\<exists>m. rules_load_merged (sample_rule_env 1) [''p'', ''g''] = Some m \<and>
     m DEFAULT_AGENT = Some (sample_profile [''rm''])"
proof -
  obtain m where m: "rules_load_merged (sample_rule_env 1) [''p'', ''g''] = Some m"
    by (simp add: rules_load_merged_def sample_rule_env_def file_exists_def rules_load_def
        read_to_string_def)
  have d: "DEFAULT_AGENT \<noteq> ''scout''" by (simp add: DEFAULT_AGENT_def)
  show ?thesis
    using m rules_load_merged_first [OF m, of DEFAULT_AGENT] d
    by (simp add: sample_rule_env_def file_exists_def rules_load_def read_to_string_def)
qed

section \<open>Verdicts\<close>

lemma blacklist_Block:
  "blacklist_hit rx gs (guard_agent env) (command_string argv) = Some hit \<Longrightarrow>
     v_kind (guard_verdict rx gs e argv env) = Block \<and>
     v_cause (guard_verdict rx gs e argv env) = Some ''blacklist''"
  by (simp add: guard_verdict_def Let_def)

lemma match_any_default:
  assumes "rules DEFAULT_AGENT = Some p" and "pat \<in> set (f p)"
    and "rx_match rx (glob_source pat) [] \<noteq> None" and "rx_match rx (glob_source pat) cmd = Some True"
  shows "match_any rx (compile_class rx f rules) agent cmd \<noteq> None"
proof -
  have "compile_glob rx pat = glob_source pat"
    using assms(3) by (auto simp: compile_glob_def split: option.splits)
  with assms(2,4) have "List.find (\<lambda>(p, re). rx_holds rx re cmd) (compile_patterns rx (f p)) \<noteq> None"
    unfolding find_None_iff compile_patterns_def rx_holds_def by force
  with assms(1) show ?thesis
    by (auto simp: match_any_def match_rules_def compile_class_def split: option.splits)
qed

text \<open>The baseline of the default profile binds every role: a command that one of its
  blacklist patterns matches is blocked as blacklisted, whatever agent the environment
  names and whatever the profile of that agent permits.\<close>

theorem default_blacklist_blocks:
  assumes "rules DEFAULT_AGENT = Some p" and "pat \<in> set (ap_bash_blacklist p)"
    and "rx_match rx (glob_source pat) [] \<noteq> None"
    and "rx_match rx (glob_source pat) (command_string argv) = Some True"
  shows "v_kind (guard_verdict rx (build_state rx rules t) e argv env) = Block \<and>
     v_cause (guard_verdict rx (build_state rx rules t) e argv env) = Some ''blacklist''"
proof -
  from match_any_default [of rules p pat ap_bash_blacklist rx] assms
  have "match_any rx (gs_blacklist (build_state rx rules t)) (guard_agent env) (command_string argv) \<noteq> None"
    by (simp add: build_state_def)
  then obtain hit where
    "blacklist_hit rx (build_state rx rules t) (guard_agent env) (command_string argv) = Some hit"
    by (auto simp: blacklist_hit_def)
  then show ?thesis by (rule blacklist_Block)
qed

lemma default_blacklist_blocks_witness:
  "v_kind (guard_verdict sample_regex
     (build_state sample_regex [DEFAULT_AGENT \<mapsto> sample_profile [''rm'']] None)
     ''e'' [''rm'', ''x''] [''JANUS_AGENT'' \<mapsto> ''scout'']) = Block"
  using default_blacklist_blocks [of "[DEFAULT_AGENT \<mapsto> sample_profile [''rm'']]" "sample_profile [''rm'']" "''rm''"
      sample_regex "[''rm'', ''x'']" None "''e''" "[''JANUS_AGENT'' \<mapsto> ''scout'']"]
  by (simp add: sample_profile_def sample_regex_def glob_source_def glob_char_def suffix_def command_string_def)




subsection \<open>What a command deserves\<close>






















subsection \<open>The engine of a process\<close>





section \<open>Two gaps\<close>

text \<open>The hot reload replaces merged rules by those of the primary file alone: once that
  file's modification time has changed, a role that only a lower-priority file defines, the
  default baseline included, has no profile any more.\<close>

theorem hot_reload_drops_lower_paths:
  assumes "p \<noteq> []" and "rules_load env' p = Some r" and "file_exists (re_fs env') p"
    and "re_mtime env' p \<noteq> re_mtime env p" and "r role = None"
  shows "gs_rules (snd (snd (guard_evaluate rx env' e argv senv
     (guard_load_merged rx env (p # ps))))) role = None"
  using assms
  by (auto simp: guard_evaluate_def guard_load_merged_def refresh_if_changed_def load_fresh_def
      build_state_def Let_def)

lemma hot_reload_drops_lower_paths_witness:
  "gs_rules (snd (guard_load_merged sample_regex (sample_rule_env 1) [''p'', ''g''])) DEFAULT_AGENT
     = Some (sample_profile [''rm'']) \<and>
   gs_rules (snd (snd (guard_evaluate sample_regex (sample_rule_env 2) ''e'' [''rm''] Map.empty
     (guard_load_merged sample_regex (sample_rule_env 1) [''p'', ''g''])))) DEFAULT_AGENT = None"
proof
  show "gs_rules (snd (guard_load_merged sample_regex (sample_rule_env 1) [''p'', ''g''])) DEFAULT_AGENT
     = Some (sample_profile [''rm''])"
    by (simp add: guard_load_merged_def rules_load_merged_def sample_rule_env_def file_exists_def
        rules_load_def read_to_string_def build_state_def DEFAULT_AGENT_def Let_def)
  show "gs_rules (snd (snd (guard_evaluate sample_regex (sample_rule_env 2) ''e'' [''rm''] Map.empty
     (guard_load_merged sample_regex (sample_rule_env 1) [''p'', ''g''])))) DEFAULT_AGENT = None"
    by (rule hot_reload_drops_lower_paths [where r = "[''scout'' \<mapsto> sample_profile []]"])
       (simp_all add: sample_rule_env_def rules_load_def read_to_string_def file_exists_def
          DEFAULT_AGENT_def)
qed

lemma after_dash_c_first:
  "''-c'' \<notin> set pre \<Longrightarrow> after_dash_c (pre @ ''-c'' # c # rest) = Some c"
proof (induction pre rule: after_dash_c.induct)
  case (2 a)
  then show ?case by (cases a) auto
qed auto

text \<open>The rules see only the operand of the first \<open>-c\<close>, whatever program it is passed to:
  two invocations that agree on it get the same verdict, although \<open>git -c k=v push\<close> does not
  run its operand as a command.\<close>

theorem verdict_ignores_program:
  assumes "''-c'' \<notin> set pre" and "''-c'' \<notin> set pre'"
  shows "guard_verdict rx gs e (pre @ ''-c'' # c # rest) env =
    guard_verdict rx gs e (pre' @ ''-c'' # c # rest') env"
  using assms by (simp add: guard_verdict_def command_string_def after_dash_c_first)

lemma verdict_ignores_program_witness:
  "guard_verdict sample_regex (snd guard_empty) ''e'' [''git'', ''-c'', ''k=v'', ''push'', ''--force'']
     Map.empty = guard_verdict sample_regex (snd guard_empty) ''e'' [''sh'', ''-c'', ''k=v''] Map.empty"
  using verdict_ignores_program [of "[''git'']" "[''sh'']" sample_regex "snd guard_empty" "''e''"
      "''k=v''" "[''push'', ''--force'']" Map.empty "[]"] by simp

end
