(* ===== verification/Gateway.thy ===== *)
theory Gateway
  imports Protocol Json "HOL-Library.Multiset"
begin

text \<open>
  The approval gateway, \<open>src/janus/src/gateway/mod.rs\<close>: the registry of pending verdicts, the
  callbacks that resolve them and the tasks that wait for them.

  A suspended step is dispatched under a correlation id: \<open>dispatch\<close> registers an entry with the
  two ends of a one-shot channel and spawns a verdict task, which sends the cards, takes the
  receiver out of the entry and waits for the verdict until a deadline. A callback takes the
  sender out of the entry and sends the verdict. The tasks and the callbacks share the
  registry under a lock and run concurrently, so one section under the lock, one operation on
  a channel or one time-out is one event of \<open>gw_step\<close>, and \<open>gw_reach\<close> collects the states that
  any interleaving reaches. The wall clock, which the expiry is compared with, and the
  monotonic clock of the timer, in nanoseconds, are two clocks; the wall clock may be set back.

  HMAC, base64 and the parser and printer of JSON are parameters (\<open>crates\<close>), and so is the
  order in which the hash map is enumerated.
\<close>

section \<open>Callbacks\<close>

record crates =
  cr_hmac :: "string \<Rightarrow> (string \<Rightarrow> string) option"
  cr_base64 :: "string \<Rightarrow> string option"
  cr_from_slice :: "string \<Rightarrow> json option"
  cr_to_vec :: "json \<Rightarrow> string"

datatype hitl_action = Act_approve | Act_reject | Act_override string

definition parse_action :: "crates \<Rightarrow> string \<Rightarrow> hitl_action option" where
  "parse_action cr body =
     (case cr_from_slice cr body of
        None \<Rightarrow> None
      | Some v \<Rightarrow>
          (case get_str ''action'' v of
             None \<Rightarrow> None
           | Some action \<Rightarrow>
               if action = ''approve'' then Some Act_approve
               else if action = ''reject'' then Some Act_reject
               else if action = ''override'' then
                 Some (Act_override (case get_str ''override_command'' v of Some c \<Rightarrow> c | None \<Rightarrow> []))
               else None))"

fun action_to_verdict :: "hitl_action \<Rightarrow> gateway_verdict" where
  "action_to_verdict Act_approve = Approve"
| "action_to_verdict Act_reject = Reject"
| "action_to_verdict (Act_override cmd) = Override (split_whitespace cmd)"

datatype callback_status = Resolved | Conflict | Gone | Unauthorized | Bad_request

fun status_parts :: "callback_status \<Rightarrow> nat \<times> string" where
  "status_parts Resolved = (200, ''ok'')"
| "status_parts Conflict = (409, ''conflict'')"
| "status_parts Gone = (410, ''gone'')"
| "status_parts Unauthorized = (401, ''unauthorized'')"
| "status_parts Bad_request = (400, ''bad request'')"

definition verify_hmac :: "crates \<Rightarrow> string \<Rightarrow> string \<Rightarrow> string option \<Rightarrow> bool" where
  "verify_hmac cr secret body auth =
     (case auth of
        None \<Rightarrow> False
      | Some a \<Rightarrow>
          (case cr_hmac cr secret of
             None \<Rightarrow> False
           | Some mac \<Rightarrow>
               let given_b64 =
                 trim (case strip_prefix ''Hmac '' (trim a) of Some t \<Rightarrow> t | None \<Rightarrow> a) in
               (case cr_base64 cr given_b64 of
                  None \<Rightarrow> False
                | Some given \<Rightarrow> given = mac body)))"

section \<open>The registry\<close>

text \<open>A one-shot channel: the value in it, and which of its ends still exist. \<open>os_for\<close> is the
  correlation id it was created for; no operation reads it.\<close>

record oneshot =
  os_for :: string
  os_value :: "gateway_verdict option"
  os_tx :: bool
  os_rx :: bool

type_synonym chan = nat

record pending_verdict =
  pv_tx :: "chan option"
  pv_rx :: "chan option"
  pv_blueprint :: string
  pv_task_id :: "uuid option"
  pv_step :: string
  pv_expires_at :: int
  pv_resolved :: bool

text \<open>A verdict task: what it does next. The triple is the blueprint, task and step that it
  looked up for the sink.\<close>

type_synonym step_info = "(string \<times> uuid option \<times> string) option"

datatype gateway_error = Channel_error string | Timeout | Auth_failed

datatype verdict_task =
    Sending string webhook_payload int
  | Looking string int
  | Awaiting string int step_info
  | Waiting string chan int step_info
  | Elapsed string chan
  | Failing string gateway_error
  | Finished

text \<open>A callback in flight. \<open>cl_origin\<close> is the request it came with and \<open>cl_chan\<close> the channel whose
  sender it took; both are kept after the answer to state the properties.\<close>

datatype origin = Http string "string option" | Observer bool

datatype call_state = Delivering gateway_verdict | Undelivered | Answered callback_status

record call =
  cl_run :: string
  cl_origin :: origin
  cl_chan :: "chan option"
  cl_state :: call_state

record gateway =
  gw_crates :: crates
  gw_channels :: "string list"
  gw_secret :: "string option"
  gw_timeout_var :: "string option"
  gw_later :: "int \<Rightarrow> int \<Rightarrow> int option"

type_synonym report = "string \<times> string \<times> uuid option \<times> string \<times> gateway_verdict"

record gw_state =
  gs_now :: int
  gs_timer :: int
  gs_pending :: "string \<Rightarrow> pending_verdict option"
  gs_chans :: "chan \<Rightarrow> oneshot"
  gs_next :: chan
  gs_tasks :: "verdict_task list"
  gs_calls :: "call list"
  gs_cards :: "(string \<times> webhook_payload) list"
  gs_reports :: "report list"

definition no_chan :: oneshot where
  "no_chan = \<lparr>os_for = [], os_value = None, os_tx = False, os_rx = False\<rparr>"

definition gw_init :: "int \<Rightarrow> gw_state" where
  "gw_init now = \<lparr>gs_now = now, gs_timer = 0, gs_pending = Map.empty, gs_chans = (\<lambda>_. no_chan),
     gs_next = 0, gs_tasks = [], gs_calls = [], gs_cards = [], gs_reports = []\<rparr>"

section \<open>Operations on the registry\<close>

definition drop_tx :: "chan option \<Rightarrow> gw_state \<Rightarrow> gw_state" where
  "drop_tx c s = (case c of None \<Rightarrow> s
     | Some k \<Rightarrow> s\<lparr>gs_chans := (gs_chans s)(k := (gs_chans s k)\<lparr>os_tx := False\<rparr>)\<rparr>)"

definition drop_rx :: "chan option \<Rightarrow> gw_state \<Rightarrow> gw_state" where
  "drop_rx c s = (case c of None \<Rightarrow> s
     | Some k \<Rightarrow> s\<lparr>gs_chans := (gs_chans s)(k := (gs_chans s k)\<lparr>os_rx := False\<rparr>)\<rparr>)"

text \<open>Removing or replacing an entry drops the ends that it still holds.\<close>

definition drop_entry :: "pending_verdict option \<Rightarrow> gw_state \<Rightarrow> gw_state" where
  "drop_entry e s = (case e of None \<Rightarrow> s | Some p \<Rightarrow> drop_rx (pv_rx p) (drop_tx (pv_tx p) s))"

definition remove_pending :: "string \<Rightarrow> gw_state \<Rightarrow> gw_state" where
  "remove_pending cid s =
     drop_entry (gs_pending s cid) (s\<lparr>gs_pending := (gs_pending s)(cid := None)\<rparr>)"

definition insert_pending :: "string \<Rightarrow> pending_verdict \<Rightarrow> gw_state \<Rightarrow> gw_state" where
  "insert_pending cid p s =
     drop_entry (gs_pending s cid) (s\<lparr>gs_pending := (gs_pending s)(cid \<mapsto> p)\<rparr>)"

definition update_pending :: "string \<Rightarrow> pending_verdict \<Rightarrow> gw_state \<Rightarrow> gw_state" where
  "update_pending cid p s = s\<lparr>gs_pending := (gs_pending s)(cid \<mapsto> p)\<rparr>"

text \<open>The look-up of a callback: expiry and the single answer are enforced under the lock.\<close>

definition take_sender :: "string \<Rightarrow> gw_state \<Rightarrow> (callback_status + chan option) \<times> gw_state" where
  "take_sender run_id s =
     (case gs_pending s run_id of
        None \<Rightarrow> (Inl Gone, s)
      | Some e \<Rightarrow>
          if pv_expires_at e < gs_now s then (Inl Gone, remove_pending run_id s)
          else if pv_resolved e then (Inl Conflict, s)
          else (Inr (pv_tx e), update_pending run_id (e\<lparr>pv_resolved := True, pv_tx := None\<rparr>) s))"

text \<open>\<open>tx.send(verdict).is_ok()\<close>; sending consumes the sender.\<close>

definition send_verdict :: "chan option \<Rightarrow> gateway_verdict \<Rightarrow> gw_state \<Rightarrow> bool \<times> gw_state" where
  "send_verdict c v s =
     (case c of
        None \<Rightarrow> (False, s)
      | Some k \<Rightarrow>
          if os_rx (gs_chans s k)
          then (True, s\<lparr>gs_chans := (gs_chans s)(k := (gs_chans s k)\<lparr>os_value := Some v, os_tx := False\<rparr>)\<rparr>)
          else (False, drop_tx (Some k) s))"

text \<open>What a callback does before it reaches the registry.\<close>

definition callback_action :: "gateway \<Rightarrow> string \<Rightarrow> string option \<Rightarrow> callback_status + hitl_action" where
  "callback_action g body auth =
     (if (case gw_secret g of Some secret \<Rightarrow> \<not> verify_hmac (gw_crates g) secret body auth | None \<Rightarrow> False)
      then Inl Unauthorized
      else case parse_action (gw_crates g) body of
        None \<Rightarrow> Inl Bad_request
      | Some action \<Rightarrow> Inr action)"

definition tui_action :: "gateway \<Rightarrow> bool \<Rightarrow> callback_status + hitl_action" where
  "tui_action g approve =
     (case parse_action (gw_crates g)
         (cr_to_vec (gw_crates g) (JObj [(''action'', JStr (if approve then ''approve'' else ''reject''))])) of
        None \<Rightarrow> Inl Bad_request
      | Some action \<Rightarrow> Inr action)"

definition origin_action :: "gateway \<Rightarrow> origin \<Rightarrow> callback_status + hitl_action" where
  "origin_action g orig =
     (case orig of Http body auth \<Rightarrow> callback_action g body auth | Observer approve \<Rightarrow> tui_action g approve)"

text \<open>The two public operations, run without interruption.\<close>

definition resolve_action :: "string \<Rightarrow> callback_status + hitl_action \<Rightarrow> gw_state \<Rightarrow>
    callback_status \<times> gw_state" where
  "resolve_action run_id act s =
     (case act of
        Inl status \<Rightarrow> (status, s)
      | Inr action \<Rightarrow>
          (case take_sender run_id s of
             (Inl status, s') \<Rightarrow> (status, s')
           | (Inr tx, s') \<Rightarrow>
               (case send_verdict tx (action_to_verdict action) s' of
                  (True, s'') \<Rightarrow> (Resolved, s'')
                | (False, s'') \<Rightarrow> (Gone, remove_pending run_id s''))))"

definition resolve_callback :: "gateway \<Rightarrow> string \<Rightarrow> string \<Rightarrow> string option \<Rightarrow> gw_state \<Rightarrow>
    callback_status \<times> gw_state" where
  "resolve_callback g run_id body auth = resolve_action run_id (callback_action g body auth)"

definition resolve_tui :: "gateway \<Rightarrow> string \<Rightarrow> bool \<Rightarrow> gw_state \<Rightarrow> callback_status \<times> gw_state" where
  "resolve_tui g run_id approve = resolve_action run_id (tui_action g approve)"

text \<open>\<open>order\<close> is the order in which the hash map is enumerated.\<close>

definition find_correlation_by_task :: "string list \<Rightarrow> uuid \<Rightarrow> gw_state \<Rightarrow> string option" where
  "find_correlation_by_task order task s =
     find (\<lambda>cid. case gs_pending s cid of Some e \<Rightarrow> pv_task_id e = Some task | None \<Rightarrow> False) order"

text \<open>\<open>dispatch\<close>: register, spawn, return. \<open>None\<close> when the time stamp overflows.\<close>

definition dispatch :: "gateway \<Rightarrow> webhook_payload \<Rightarrow> gw_state \<Rightarrow> gw_state option" where
  "dispatch g payload s =
     (let cid = wp_correlation_id payload; secs = hitl_timeout_secs (gw_timeout_var g); c = gs_next s in
      case gw_later g (gs_now s) secs of
        None \<Rightarrow> None
      | Some expires_at \<Rightarrow>
          let s' = s\<lparr>gs_chans := (gs_chans s)(c := \<lparr>os_for = cid, os_value = None, os_tx = True, os_rx = True\<rparr>),
                     gs_next := Suc c\<rparr>;
              s'' = insert_pending cid
                \<lparr>pv_tx = Some c, pv_rx = Some c, pv_blueprint = wp_blueprint payload,
                 pv_task_id = wp_task_id payload, pv_step = wp_step payload,
                 pv_expires_at = expires_at, pv_resolved = False\<rparr> s' in
          Some (s''\<lparr>gs_tasks := gs_tasks s'' @ [Sending cid payload secs]\<rparr>))"

section \<open>Tasks and callbacks, one event at a time\<close>

definition set_task :: "nat \<Rightarrow> verdict_task \<Rightarrow> gw_state \<Rightarrow> gw_state" where
  "set_task i t s = s\<lparr>gs_tasks := (gs_tasks s)[i := t]\<rparr>"

definition lookup_info :: "string \<Rightarrow> gw_state \<Rightarrow> step_info" where
  "lookup_info cid s = map_option (\<lambda>e. (pv_blueprint e, pv_task_id e, pv_step e)) (gs_pending s cid)"

text \<open>The first part of \<open>await_verdict_inner\<close>: the receiver is taken under the lock.\<close>

definition take_receiver :: "string \<Rightarrow> gw_state \<Rightarrow> (gateway_error + chan) \<times> gw_state" where
  "take_receiver cid s =
     (case gs_pending s cid of
        None \<Rightarrow> (Inl (Channel_error ''unknown correlation_id''), s)
      | Some e \<Rightarrow>
          (case pv_rx e of
             None \<Rightarrow> (Inl (Channel_error ''already awaited''), s)
           | Some c \<Rightarrow> (Inr c, update_pending cid (e\<lparr>pv_rx := None\<rparr>) s)))"

text \<open>The second part: the channel is polled first, then the timer. \<open>None\<close>: still pending.\<close>

definition poll_receiver :: "chan \<Rightarrow> int \<Rightarrow> gw_state \<Rightarrow> (gateway_error + gateway_verdict) option" where
  "poll_receiver c deadline s =
     (case os_value (gs_chans s c) of
        Some v \<Rightarrow> Some (Inr v)
      | None \<Rightarrow>
          if \<not> os_tx (gs_chans s c) then Some (Inl (Channel_error ''verdict sender dropped''))
          else if deadline \<le> gs_timer s then Some (Inl Timeout)
          else None)"

definition report_verdict :: "string \<Rightarrow> step_info \<Rightarrow> gateway_verdict \<Rightarrow> gw_state \<Rightarrow> gw_state" where
  "report_verdict cid info v s =
     (case info of
        None \<Rightarrow> s
      | Some (blueprint, task_id, step) \<Rightarrow>
          s\<lparr>gs_reports := gs_reports s @ [(cid, blueprint, task_id, step, v)]\<rparr>)"

text \<open>A verdict task goes on. A time-out is noticed before the receiver is dropped, so the two are
  separate events.\<close>

definition task_step :: "gateway \<Rightarrow> nat \<Rightarrow> gw_state \<Rightarrow> gw_state option" where
  "task_step g i s =
     (if length (gs_tasks s) \<le> i then None
      else case gs_tasks s ! i of
        Sending cid payload secs \<Rightarrow>
          Some (set_task i (Looking cid secs)
            (s\<lparr>gs_cards := gs_cards s @ map (\<lambda>ch. (ch, payload)) (gw_channels g)\<rparr>))
      | Looking cid secs \<Rightarrow> Some (set_task i (Awaiting cid secs (lookup_info cid s)) s)
      | Awaiting cid secs info \<Rightarrow>
          (case take_receiver cid s of
             (Inl err, s') \<Rightarrow> Some (set_task i (Failing cid err) s')
           | (Inr c, s') \<Rightarrow> Some (set_task i (Waiting cid c (gs_timer s + secs * 1000000000) info) s'))
      | Waiting cid c deadline info \<Rightarrow>
          (case poll_receiver c deadline s of
             None \<Rightarrow> None
           | Some (Inr v) \<Rightarrow> Some (report_verdict cid info v (drop_rx (Some c) (set_task i Finished s)))
           | Some (Inl Timeout) \<Rightarrow> Some (set_task i (Elapsed cid c) s)
           | Some (Inl err) \<Rightarrow> Some (drop_rx (Some c) (set_task i (Failing cid err) s)))
      | Elapsed cid c \<Rightarrow> Some (drop_rx (Some c) (set_task i (Failing cid Timeout) s))
      | Failing cid err \<Rightarrow> Some (remove_pending cid (set_task i Finished s))
      | Finished \<Rightarrow> None)"

definition add_call :: "call \<Rightarrow> gw_state \<Rightarrow> gw_state" where
  "add_call c s = s\<lparr>gs_calls := gs_calls s @ [c]\<rparr>"

text \<open>A callback arrives, from the listener or from the terminal interface.\<close>

definition call_arrives :: "gateway \<Rightarrow> string \<Rightarrow> origin \<Rightarrow> gw_state \<Rightarrow> gw_state" where
  "call_arrives g run_id orig s =
     (case origin_action g orig of
        Inl status \<Rightarrow> add_call \<lparr>cl_run = run_id, cl_origin = orig, cl_chan = None, cl_state = Answered status\<rparr> s
      | Inr action \<Rightarrow>
          (case take_sender run_id s of
             (Inl status, s') \<Rightarrow>
               add_call \<lparr>cl_run = run_id, cl_origin = orig, cl_chan = None, cl_state = Answered status\<rparr> s'
           | (Inr tx, s') \<Rightarrow>
               add_call \<lparr>cl_run = run_id, cl_origin = orig, cl_chan = tx,
                 cl_state = Delivering (action_to_verdict action)\<rparr> s'))"

definition set_call :: "nat \<Rightarrow> call_state \<Rightarrow> gw_state \<Rightarrow> gw_state" where
  "set_call k st s = s\<lparr>gs_calls := (gs_calls s)[k := (gs_calls s ! k)\<lparr>cl_state := st\<rparr>]\<rparr>"

definition call_step :: "nat \<Rightarrow> gw_state \<Rightarrow> gw_state option" where
  "call_step k s =
     (if length (gs_calls s) \<le> k then None
      else case cl_state (gs_calls s ! k) of
        Delivering v \<Rightarrow>
          (case send_verdict (cl_chan (gs_calls s ! k)) v s of
             (True, s') \<Rightarrow> Some (set_call k (Answered Resolved) s')
           | (False, s') \<Rightarrow> Some (set_call k Undelivered s'))
      | Undelivered \<Rightarrow> Some (set_call k (Answered Gone) (remove_pending (cl_run (gs_calls s ! k)) s))
      | Answered status \<Rightarrow> None)"

datatype gw_event =
    Clock int nat
  | Dispatch_card webhook_payload
  | Task nat
  | Arrive string origin
  | Call nat

fun gw_step :: "gateway \<Rightarrow> gw_event \<Rightarrow> gw_state \<Rightarrow> gw_state option" where
  "gw_step g (Clock wall ticks) s = Some (s\<lparr>gs_now := wall, gs_timer := gs_timer s + int ticks\<rparr>)"
| "gw_step g (Dispatch_card payload) s = dispatch g payload s"
| "gw_step g (Task i) s = task_step g i s"
| "gw_step g (Arrive run_id orig) s = Some (call_arrives g run_id orig s)"
| "gw_step g (Call k) s = call_step k s"

fun gw_run :: "gateway \<Rightarrow> gw_event list \<Rightarrow> gw_state \<Rightarrow> gw_state option" where
  "gw_run g [] s = Some s"
| "gw_run g (e # es) s = (case gw_step g e s of None \<Rightarrow> None | Some s' \<Rightarrow> gw_run g es s')"

inductive gw_reach :: "gateway \<Rightarrow> gw_state \<Rightarrow> bool" for g where
  init: "gw_reach g (gw_init now)"
| step: "gw_reach g s \<Longrightarrow> gw_step g e s = Some s' \<Longrightarrow> gw_reach g s'"

section \<open>Who owns which end of a channel\<close>

text \<open>The verdict that a callback may deliver, and the callbacks that were answered 200.\<close>

definition call_verdict :: "gateway \<Rightarrow> call \<Rightarrow> gateway_verdict option" where
  "call_verdict g c =
     (case origin_action g (cl_origin c) of Inl _ \<Rightarrow> None | Inr a \<Rightarrow> Some (action_to_verdict a))"

definition resolved_call :: "gateway \<Rightarrow> call \<Rightarrow> (string \<times> gateway_verdict) multiset" where
  "resolved_call g c =
     (if cl_state c = Answered Resolved
      then (case call_verdict g c of None \<Rightarrow> {#} | Some v \<Rightarrow> {#(cl_run c, v)#}) else {#})"

definition resolved_calls :: "gateway \<Rightarrow> gw_state \<Rightarrow> (string \<times> gateway_verdict) multiset" where
  "resolved_calls g s = sum_list (map (resolved_call g) (gs_calls s))"

text \<open>A verdict on its way: sent, and not yet received.\<close>

definition in_transit :: "oneshot \<Rightarrow> (string \<times> gateway_verdict) multiset" where
  "in_transit o' = (if os_rx o' then (case os_value o' of None \<Rightarrow> {#} | Some v \<Rightarrow> {#(os_for o', v)#}) else {#})"

definition transit :: "gw_state \<Rightarrow> (string \<times> gateway_verdict) multiset" where
  "transit s = (\<Sum>c<gs_next s. in_transit (gs_chans s c))"

definition reported :: "gw_state \<Rightarrow> (string \<times> gateway_verdict) multiset" where
  "reported s = mset (map (\<lambda>(cid, _, _, _, v). (cid, v)) (gs_reports s))"

fun task_chan :: "verdict_task \<Rightarrow> (string \<times> chan) option" where
  "task_chan (Waiting cid c deadline info) = Some (cid, c)"
| "task_chan (Elapsed cid c) = Some (cid, c)"
| "task_chan _ = None"

definition owners :: "('a \<Rightarrow> chan option) \<Rightarrow> 'a list \<Rightarrow> chan list" where
  "owners f xs = concat (map (\<lambda>x. case f x of None \<Rightarrow> [] | Some c \<Rightarrow> [c]) xs)"

definition single_owner :: "('a \<Rightarrow> chan option) \<Rightarrow> 'a list \<Rightarrow> bool" where
  "single_owner f xs = distinct (owners f xs)"

definition tx_owned :: "gw_state \<Rightarrow> chan \<Rightarrow> bool" where
  "tx_owned s c = (\<exists>x \<in> set (gs_calls s). cl_chan x = Some c)"

definition rx_owned :: "gw_state \<Rightarrow> chan \<Rightarrow> bool" where
  "rx_owned s c = (\<exists>t \<in> set (gs_tasks s). map_option snd (task_chan t) = Some c)"

definition entry_ok :: "gw_state \<Rightarrow> string \<Rightarrow> pending_verdict \<Rightarrow> bool" where
  "entry_ok s cid e =
     ((pv_resolved e = (pv_tx e = None)) \<and>
      (\<forall>c. pv_tx e = Some c \<longrightarrow> c < gs_next s \<and> os_for (gs_chans s c) = cid \<and> \<not> tx_owned s c) \<and>
      (\<forall>c. pv_rx e = Some c \<longrightarrow>
         c < gs_next s \<and> os_for (gs_chans s c) = cid \<and> os_rx (gs_chans s c) \<and> \<not> rx_owned s c))"

definition call_ok :: "gateway \<Rightarrow> gw_state \<Rightarrow> call \<Rightarrow> bool" where
  "call_ok g s x =
     ((\<forall>c. cl_chan x = Some c \<longrightarrow> c < gs_next s \<and> os_for (gs_chans s c) = cl_run x \<and> call_verdict g x \<noteq> None) \<and>
      (\<forall>v. cl_state x = Delivering v \<longrightarrow> cl_chan x \<noteq> None \<and> call_verdict g x = Some v) \<and>
      (cl_state x = Answered Resolved \<longrightarrow> cl_chan x \<noteq> None))"

definition task_ok :: "gw_state \<Rightarrow> verdict_task \<Rightarrow> bool" where
  "task_ok s t =
     (\<forall>cid c. task_chan t = Some (cid, c) \<longrightarrow>
        c < gs_next s \<and> os_for (gs_chans s c) = cid \<and> os_rx (gs_chans s c))"

definition value_ok :: "gateway \<Rightarrow> gw_state \<Rightarrow> chan \<Rightarrow> bool" where
  "value_ok g s c =
     (\<forall>v. os_value (gs_chans s c) = Some v \<longrightarrow> c < gs_next s \<and>
        (\<exists>x \<in> set (gs_calls s). cl_chan x = Some c \<and> cl_state x = Answered Resolved \<and> call_verdict g x = Some v))"

definition gw_inv :: "gateway \<Rightarrow> gw_state \<Rightarrow> bool" where
  "gw_inv g s =
     ((\<forall>cid e. gs_pending s cid = Some e \<longrightarrow> entry_ok s cid e) \<and>
      (\<forall>x \<in> set (gs_calls s). call_ok g s x) \<and> single_owner cl_chan (gs_calls s) \<and>
      (\<forall>t \<in> set (gs_tasks s). task_ok s t) \<and>
      single_owner (\<lambda>t. map_option snd (task_chan t)) (gs_tasks s) \<and>
      (\<forall>c. value_ok g s c) \<and> reported s + transit s \<subseteq># resolved_calls g s)"

lemmas gw_parts = entry_ok_def call_ok_def task_ok_def value_ok_def tx_owned_def rx_owned_def
  reported_def resolved_calls_def

lemma set_owners: "set (owners f xs) = {c. \<exists>x \<in> set xs. f x = Some c}"
  by (force simp: owners_def split: option.splits)

lemma owners_append [simp]: "owners f (xs @ ys) = owners f xs @ owners f ys"
  by (simp add: owners_def)

lemma owners_Cons [simp]: "owners f (x # xs) = (case f x of None \<Rightarrow> [] | Some c \<Rightarrow> [c]) @ owners f xs"
  by (simp add: owners_def)

lemma owners_Nil [simp]: "owners f [] = []"
  by (simp add: owners_def)

lemma single_owner_append:
  "single_owner f (xs @ [x]) \<longleftrightarrow>
     single_owner f xs \<and> (\<forall>c. f x = Some c \<longrightarrow> (\<forall>y \<in> set xs. f y \<noteq> Some c))"
  by (auto simp: single_owner_def set_owners split: option.splits)

lemma single_owner_update:
  assumes "single_owner f xs" "i < length xs"
    "\<And>c. f x = Some c \<Longrightarrow> f (xs ! i) = Some c \<or> (\<forall>y \<in> set xs. f y \<noteq> Some c)"
  shows "single_owner f (xs[i := x])"
proof -
  have xs: "xs = take i xs @ xs ! i # drop (Suc i) xs" by (rule id_take_nth_drop [OF assms(2)])
  have "\<forall>y \<in> set (take i xs) \<union> set (drop (Suc i) xs). y \<in> set xs"
    by (auto dest: in_set_takeD in_set_dropD)
  moreover have "distinct (owners f (take i xs @ xs ! i # drop (Suc i) xs))"
    using assms(1) xs unfolding single_owner_def by simp
  ultimately show ?thesis
    using assms(3) unfolding single_owner_def upd_conv_take_nth_drop [OF assms(2)]
    by (fastforce simp: set_owners split: option.splits)
qed

lemma single_ownerD:
  assumes "single_owner f xs" "i < length xs" "j < length xs" "f (xs ! i) = Some c" "f (xs ! j) = Some c"
  shows "i = j"
proof -
  have "False" if "i < j" "j < length xs" "f (xs ! i) = Some c" "f (xs ! j) = Some c" for i j
  proof -
    have "xs ! i \<in> set (take j xs)" using that by (auto simp: in_set_conv_nth intro!: exI [of _ i])
    then have "c \<in> set (owners f (take j xs))" using that by (auto simp: set_owners)
    moreover have "owners f xs = owners f (take j xs) @ c # owners f (drop (Suc j) xs)"
      using that(4) by (subst id_take_nth_drop [OF that(2)]) simp
    ultimately show False using assms(1) by (simp add: single_owner_def)
  qed
  from this [of i j] this [of j i] assms show ?thesis by (cases i j rule: linorder_cases) auto
qed

lemma sum_list_update_mset:
  fixes f :: "'a \<Rightarrow> 'b multiset"
  assumes "k < length xs"
  shows "sum_list (map f (xs[k := x])) + f (xs ! k) = sum_list (map f xs) + f x"
proof -
  have "sum_list (map f xs) = sum_list (map f (take k xs)) + f (xs ! k) + sum_list (map f (drop (Suc k) xs))"
    by (subst id_take_nth_drop [OF assms]) simp
  then show ?thesis by (simp add: upd_conv_take_nth_drop [OF assms])
qed

lemma transit_update:
  assumes "c < gs_next s"
  shows "transit (s\<lparr>gs_chans := (gs_chans s)(c := x)\<rparr>) + in_transit (gs_chans s c) = transit s + in_transit x"
proof -
  have "(\<Sum>k<gs_next s. in_transit (((gs_chans s)(c := x)) k)) =
      in_transit x + (\<Sum>k \<in> {..<gs_next s} - {c}. in_transit (gs_chans s k))"
    using assms by (subst sum.remove [of _ c]) auto
  moreover have "(\<Sum>k<gs_next s. in_transit (gs_chans s k)) =
      in_transit (gs_chans s c) + (\<Sum>k \<in> {..<gs_next s} - {c}. in_transit (gs_chans s k))"
    using assms by (subst sum.remove [of _ c]) auto
  ultimately show ?thesis by (simp add: transit_def)
qed

section \<open>The invariant\<close>

lemma inv_init: "gw_inv g (gw_init now)"
  by (simp add: gw_inv_def gw_parts gw_init_def no_chan_def transit_def single_owner_def)

lemma inv_clock: "gw_inv g (s\<lparr>gs_now := a, gs_timer := b\<rparr>) = gw_inv g s"
  by (simp add: gw_inv_def gw_parts transit_def)

lemma inv_cards: "gw_inv g (s\<lparr>gs_cards := a\<rparr>) = gw_inv g s"
  by (simp add: gw_inv_def gw_parts transit_def)

lemma inv_forget: "gw_inv g s \<Longrightarrow> gw_inv g (s\<lparr>gs_pending := (gs_pending s)(cid := None)\<rparr>)"
  by (auto simp: gw_inv_def gw_parts transit_def)

lemma inv_enter:
  "gw_inv g s \<Longrightarrow> entry_ok s cid p \<Longrightarrow> gw_inv g (s\<lparr>gs_pending := (gs_pending s)(cid \<mapsto> p)\<rparr>)"
  by (auto simp: gw_inv_def gw_parts transit_def)

lemma in_transit_tx [simp]: "in_transit (o'\<lparr>os_tx := b\<rparr>) = in_transit o'"
  by (simp add: in_transit_def split: option.split)

lemma chans_tx [simp]:
  "os_for (((gs_chans s)(k := (gs_chans s k)\<lparr>os_tx := b\<rparr>)) c) = os_for (gs_chans s c)"
  "os_rx (((gs_chans s)(k := (gs_chans s k)\<lparr>os_tx := b\<rparr>)) c) = os_rx (gs_chans s c)"
  "os_value (((gs_chans s)(k := (gs_chans s k)\<lparr>os_tx := b\<rparr>)) c) = os_value (gs_chans s c)"
  "in_transit (((gs_chans s)(k := (gs_chans s k)\<lparr>os_tx := b\<rparr>)) c) = in_transit (gs_chans s c)"
  by simp_all

lemma inv_drop_tx: "gw_inv g s \<Longrightarrow> gw_inv g (drop_tx c s)"
  by (cases c) (simp_all add: drop_tx_def gw_inv_def gw_parts transit_def del: fun_upd_apply)

lemma chans_rx [simp]:
  "os_for (((gs_chans s)(k := (gs_chans s k)\<lparr>os_rx := b\<rparr>)) c) = os_for (gs_chans s c)"
  "os_value (((gs_chans s)(k := (gs_chans s k)\<lparr>os_rx := b\<rparr>)) c) = os_value (gs_chans s c)"
  "os_rx (((gs_chans s)(k := (gs_chans s k)\<lparr>os_rx := b\<rparr>)) c) = (if c = k then b else os_rx (gs_chans s c))"
  by simp_all

lemma transit_drop_rx: "transit (drop_rx (Some k) s) \<subseteq># transit s"
proof (cases "k < gs_next s")
  case True
  then show ?thesis
    using transit_update [OF True, of "(gs_chans s k)\<lparr>os_rx := False\<rparr>"]
    by (simp add: drop_rx_def in_transit_def) (metis mset_subset_eq_add_left)
next
  case False
  then show ?thesis by (auto simp: drop_rx_def transit_def intro!: eq_refl sum.cong)
qed

lemma inv_drop_rx:
  assumes "gw_inv g s" "\<And>cid e. gs_pending s cid = Some e \<Longrightarrow> pv_rx e \<noteq> Some k" "\<not> rx_owned s k"
  shows "gw_inv g (drop_rx (Some k) s)"
proof -
  have "transit (s\<lparr>gs_chans := (gs_chans s)(k := (gs_chans s k)\<lparr>os_rx := False\<rparr>)\<rparr>) \<subseteq># transit s"
    using transit_drop_rx [of k s] by (simp add: drop_rx_def)
  then have "reported s + transit (s\<lparr>gs_chans := (gs_chans s)(k := (gs_chans s k)\<lparr>os_rx := False\<rparr>)\<rparr>)
      \<subseteq># resolved_calls g s"
    using assms(1) unfolding gw_inv_def by (meson mset_subset_eq_mono_add subset_mset.dual_order.trans subset_mset.order_refl)
  moreover have "t \<in> set (gs_tasks s) \<Longrightarrow> task_chan t \<noteq> Some (cid, k)" for t cid
    using assms(3) by (auto simp: rx_owned_def)
  ultimately show ?thesis
    using assms by (fastforce simp: gw_inv_def gw_parts drop_rx_def simp del: fun_upd_apply)
qed

lemma inv_remove:
  assumes "gw_inv g s"
  shows "gw_inv g (remove_pending cid s)"
proof (cases "gs_pending s cid")
  case None
  then show ?thesis using inv_forget [OF assms] by (simp add: remove_pending_def drop_entry_def)
next
  case (Some p)
  let ?s = "drop_tx (pv_tx p) (s\<lparr>gs_pending := (gs_pending s)(cid := None)\<rparr>)"
  have inv: "gw_inv g ?s" by (intro inv_drop_tx inv_forget assms)
  have ok: "entry_ok s cid p" using assms Some by (simp add: gw_inv_def)
  show ?thesis
  proof (cases "pv_rx p")
    case None
    then show ?thesis using inv Some by (simp add: remove_pending_def drop_entry_def drop_rx_def)
  next
    case (Some k)
    have rx: "os_for (gs_chans s k) = cid" "\<not> rx_owned s k" using ok Some by (simp_all add: entry_ok_def)
    have "pv_rx e \<noteq> Some k" if "gs_pending ?s c = Some e" for c e
    proof -
      have "c \<noteq> cid" "gs_pending s c = Some e"
        using that by (auto simp: drop_tx_def split: option.splits if_splits)
      then have "entry_ok s c e" using assms by (simp add: gw_inv_def)
      then show ?thesis using rx(1) \<open>c \<noteq> cid\<close> by (auto simp: entry_ok_def)
    qed
    moreover have "\<not> rx_owned ?s k" using rx(2) by (simp add: rx_owned_def drop_tx_def split: option.split)
    ultimately have "gw_inv g (drop_rx (Some k) ?s)" using inv by (intro inv_drop_rx) auto
    then show ?thesis using Some \<open>gs_pending s cid = Some p\<close> by (simp add: remove_pending_def drop_entry_def)
  qed
qed

lemma set_update_cases: "x \<in> set (xs[i := y]) \<Longrightarrow> x \<in> set xs \<or> x = y"
  using set_update_subset_insert [of xs i y] by auto

lemma inv_set_task:
  assumes inv: "gw_inv g s" and i: "i < length (gs_tasks s)" and ok: "task_ok s t"
    and own: "\<And>c. map_option snd (task_chan t) = Some c \<Longrightarrow>
      map_option snd (task_chan (gs_tasks s ! i)) = Some c \<or>
      (\<not> rx_owned s c \<and> (\<forall>cid e. gs_pending s cid = Some e \<longrightarrow> pv_rx e \<noteq> Some c))"
  shows "gw_inv g (set_task i t s)"
proof -
  let ?s = "set_task i t s"
  have owned: "rx_owned s c \<or> map_option snd (task_chan t) = Some c" if "rx_owned ?s c" for c
    using that by (auto simp: rx_owned_def set_task_def dest!: set_update_cases)
  have "entry_ok ?s cid e" if "gs_pending s cid = Some e" for cid e
  proof -
    have e: "entry_ok s cid e" using inv that by (simp add: gw_inv_def)
    have "\<not> rx_owned ?s c" if c: "pv_rx e = Some c" for c
    proof
      assume "rx_owned ?s c"
      moreover have "\<not> rx_owned s c" using e c by (simp add: entry_ok_def)
      ultimately have t: "map_option snd (task_chan t) = Some c" using owned by blast
      from own [OF this] c \<open>gs_pending s cid = Some e\<close> \<open>\<not> rx_owned s c\<close>
      have "map_option snd (task_chan (gs_tasks s ! i)) = Some c" by blast
      then have "rx_owned s c" using i by (auto simp: rx_owned_def)
      with \<open>\<not> rx_owned s c\<close> show False ..
    qed
    with e show ?thesis by (simp add: entry_ok_def tx_owned_def set_task_def)
  qed
  moreover have "single_owner (\<lambda>t. map_option snd (task_chan t)) ((gs_tasks s)[i := t])"
    using inv i own by (intro single_owner_update) (auto simp: gw_inv_def rx_owned_def)
  moreover have "\<forall>x \<in> set ((gs_tasks s)[i := t]). task_ok s x"
    using inv ok by (auto simp: gw_inv_def dest!: set_update_cases)
  ultimately show ?thesis
    using inv by (simp add: gw_inv_def gw_parts set_task_def transit_def)
qed

lemma inv_set_idle: "gw_inv g s \<Longrightarrow> i < length (gs_tasks s) \<Longrightarrow> task_chan t = None \<Longrightarrow> gw_inv g (set_task i t s)"
  by (rule inv_set_task) (auto simp: task_ok_def)

lemma add_call_sel [simp]:
  "gs_pending (add_call x s) = gs_pending s" "gs_chans (add_call x s) = gs_chans s"
  "gs_next (add_call x s) = gs_next s" "gs_tasks (add_call x s) = gs_tasks s"
  "gs_calls (add_call x s) = gs_calls s @ [x]" "gs_reports (add_call x s) = gs_reports s"
  by (simp_all add: add_call_def)

lemma inv_add_call:
  assumes inv: "gw_inv g s" and ok: "call_ok g s x"
    and own: "\<And>c. cl_chan x = Some c \<Longrightarrow> \<not> tx_owned s c \<and> (\<forall>cid e. gs_pending s cid = Some e \<longrightarrow> pv_tx e \<noteq> Some c)"
  shows "gw_inv g (add_call x s)"
proof -
  have owned: "tx_owned (add_call x s) c \<longleftrightarrow> tx_owned s c \<or> cl_chan x = Some c" for c
    by (auto simp: tx_owned_def)
  have "single_owner cl_chan (gs_calls s @ [x])"
    using inv own by (auto simp: single_owner_append gw_inv_def tx_owned_def)
  moreover have "entry_ok (add_call x s) cid e" if e: "gs_pending s cid = Some e" for cid e
  proof -
    have "entry_ok s cid e" using inv e by (simp add: gw_inv_def)
    moreover have "cl_chan x \<noteq> Some c" if "pv_tx e = Some c" for c using own e that by blast
    ultimately show ?thesis unfolding entry_ok_def owned by (simp add: rx_owned_def)
  qed
  moreover have "call_ok g (add_call x s) y" if "y \<in> set (gs_calls s) \<or> y = x" for y
  proof -
    have "call_ok g s y" using inv ok that by (auto simp: gw_inv_def)
    then show ?thesis by (simp add: call_ok_def)
  qed
  moreover have "value_ok g (add_call x s) c" for c
  proof -
    have "value_ok g s c" using inv by (simp add: gw_inv_def)
    then show ?thesis by (auto simp: value_ok_def)
  qed
  moreover have "reported s + transit s \<subseteq># resolved_calls g s + resolved_call g x"
    using inv by (simp add: gw_inv_def subset_mset.add_increasing2)
  ultimately show ?thesis
    using inv by (simp add: gw_inv_def task_ok_def reported_def resolved_calls_def transit_def)
qed

lemma set_call_sel [simp]:
  "gs_pending (set_call k st s) = gs_pending s" "gs_chans (set_call k st s) = gs_chans s"
  "gs_next (set_call k st s) = gs_next s" "gs_tasks (set_call k st s) = gs_tasks s"
  "gs_calls (set_call k st s) = (gs_calls s)[k := (gs_calls s ! k)\<lparr>cl_state := st\<rparr>]"
  "gs_reports (set_call k st s) = gs_reports s"
  by (simp_all add: set_call_def)

lemma tx_owned_set_call: "k < length (gs_calls s) \<Longrightarrow> tx_owned (set_call k st s) c \<longleftrightarrow> tx_owned s c"
proof -
  assume k: "k < length (gs_calls s)"
  have "tx_owned s' c \<longleftrightarrow> Some c \<in> set (map cl_chan (gs_calls s'))" for s'
    by (force simp: tx_owned_def image_iff)
  moreover have "map cl_chan (gs_calls (set_call k st s)) = map cl_chan (gs_calls s)"
    using k by (simp add: map_update list_update_same_conv)
  ultimately show ?thesis by metis
qed

lemma resolved_set_call:
  assumes "k < length (gs_calls s)"
  shows "resolved_calls g (set_call k st s) + resolved_call g (gs_calls s ! k) =
    resolved_calls g s + resolved_call g ((gs_calls s ! k)\<lparr>cl_state := st\<rparr>)"
  using sum_list_update_mset [OF assms, of "resolved_call g" "(gs_calls s ! k)\<lparr>cl_state := st\<rparr>"]
  by (simp add: resolved_calls_def)

lemma call_verdict_state [simp]: "call_verdict g (x\<lparr>cl_state := st\<rparr>) = call_verdict g x"
  by (simp add: call_verdict_def)

text \<open>A callback that is still in flight changes its state.\<close>

lemma inv_set_call_parts:
  assumes inv: "gw_inv g s" and k: "k < length (gs_calls s)"
    and ok: "call_ok g s ((gs_calls s ! k)\<lparr>cl_state := st\<rparr>)"
    and fresh: "cl_state (gs_calls s ! k) \<noteq> Answered Resolved"
  shows "gs_pending s cid = Some e \<Longrightarrow> entry_ok (set_call k st s) cid e"
    "x \<in> set ((gs_calls s)[k := (gs_calls s ! k)\<lparr>cl_state := st\<rparr>]) \<Longrightarrow> call_ok g (set_call k st s) x"
    "single_owner cl_chan ((gs_calls s)[k := (gs_calls s ! k)\<lparr>cl_state := st\<rparr>])"
    "value_ok g (set_call k st s) c"
proof -
  show "entry_ok (set_call k st s) cid e" if "gs_pending s cid = Some e"
  proof -
    have "entry_ok s cid e" using inv that by (simp add: gw_inv_def)
    then show ?thesis by (simp add: entry_ok_def tx_owned_set_call [OF k] rx_owned_def)
  qed
  show "call_ok g (set_call k st s) x" if "x \<in> set ((gs_calls s)[k := (gs_calls s ! k)\<lparr>cl_state := st\<rparr>])"
  proof -
    have "call_ok g s x" using inv ok set_update_cases [OF that] by (auto simp: gw_inv_def)
    then show ?thesis by (simp add: call_ok_def)
  qed
  show "single_owner cl_chan ((gs_calls s)[k := (gs_calls s ! k)\<lparr>cl_state := st\<rparr>])"
    using inv k by (intro single_owner_update) (auto simp: gw_inv_def)
  show "value_ok g (set_call k st s) c"
  proof -
    have old: "value_ok g s c" using inv by (simp add: gw_inv_def)
    have "x \<in> set ((gs_calls s)[k := (gs_calls s ! k)\<lparr>cl_state := st\<rparr>])"
      if x: "x \<in> set (gs_calls s)" "cl_state x = Answered Resolved" for x
    proof -
      obtain j where "j < length (gs_calls s)" "x = gs_calls s ! j" using x(1) by (auto simp: in_set_conv_nth)
      moreover have "j \<noteq> k" using calculation x(2) fresh by auto
      ultimately show ?thesis by (auto simp: in_set_conv_nth nth_list_update intro!: exI [of _ j])
    qed
    with old show ?thesis unfolding value_ok_def by (simp, blast)
  qed
qed

lemma inv_set_call:
  assumes inv: "gw_inv g s" and k: "k < length (gs_calls s)"
    and ok: "call_ok g s ((gs_calls s ! k)\<lparr>cl_state := st\<rparr>)"
    and fresh: "cl_state (gs_calls s ! k) \<noteq> Answered Resolved" and st: "st \<noteq> Answered Resolved"
  shows "gw_inv g (set_call k st s)"
proof -
  have "resolved_calls g (set_call k st s) = resolved_calls g s"
    using resolved_set_call [OF k, of g st] fresh st by (simp add: resolved_call_def)
  then show ?thesis
    using inv inv_set_call_parts [OF inv k ok fresh]
    by (simp add: gw_inv_def task_ok_def reported_def transit_def)
qed

text \<open>A verdict is sent and its callback is answered 200.\<close>

lemma send_verdict_cases:
  obtains "send_verdict c v s = (False, drop_tx c s)"
  | k where "c = Some k" "os_rx (gs_chans s k)" "send_verdict c v s =
      (True, s\<lparr>gs_chans := (gs_chans s)(k := (gs_chans s k)\<lparr>os_value := Some v, os_tx := False\<rparr>)\<rparr>)"
proof (cases "send_verdict c v s = (False, drop_tx c s)")
  case False
  then obtain k where "c = Some k" "os_rx (gs_chans s k)"
    by (cases c) (auto simp: send_verdict_def drop_tx_def split: if_splits)
  then show thesis using that(2) by (simp add: send_verdict_def)
qed (rule that(1))

lemma chans_sent [simp]:
  "os_for (((gs_chans s)(k := (gs_chans s k)\<lparr>os_value := Some v, os_tx := False\<rparr>)) c) = os_for (gs_chans s c)"
  "os_rx (((gs_chans s)(k := (gs_chans s k)\<lparr>os_value := Some v, os_tx := False\<rparr>)) c) = os_rx (gs_chans s c)"
  "os_value (((gs_chans s)(k := (gs_chans s k)\<lparr>os_value := Some v, os_tx := False\<rparr>)) c) =
     (if c = k then Some v else os_value (gs_chans s c))"
  by simp_all

lemma inv_send:
  assumes inv: "gw_inv g s" and j: "j < length (gs_calls s)"
    and del: "cl_state (gs_calls s ! j) = Delivering v" and k: "cl_chan (gs_calls s ! j) = Some k"
    and rx: "os_rx (gs_chans s k)"
  shows "gw_inv g (set_call j (Answered Resolved)
    (s\<lparr>gs_chans := (gs_chans s)(k := (gs_chans s k)\<lparr>os_value := Some v, os_tx := False\<rparr>)\<rparr>))"
    (is "gw_inv g (set_call j _ ?s)")
proof -
  let ?x = "gs_calls s ! j" and ?y = "(gs_calls s ! j)\<lparr>cl_state := Answered Resolved\<rparr>"
  have x: "call_ok g s ?x" "?x \<in> set (gs_calls s)" using inv j by (auto simp: gw_inv_def)
  have next_ok: "k < gs_next s" "os_for (gs_chans s k) = cl_run ?x" "call_verdict g ?x = Some v"
    using x(1) del k by (auto simp: call_ok_def)
  have empty: "os_value (gs_chans s k) = None"
  proof (rule ccontr)
    assume "os_value (gs_chans s k) \<noteq> None"
    then obtain y where y: "y \<in> set (gs_calls s)" "cl_chan y = Some k" "cl_state y = Answered Resolved"
      using inv unfolding gw_inv_def value_ok_def by fastforce
    then obtain i where "i < length (gs_calls s)" "y = gs_calls s ! i" by (auto simp: in_set_conv_nth)
    then have "i = j" using inv y(2) j k single_ownerD [of cl_chan "gs_calls s" i j k] by (auto simp: gw_inv_def)
    then show False using y(3) del \<open>y = gs_calls s ! i\<close> by simp
  qed
  have ok: "call_ok g s ?y" using x(1) k by (auto simp: call_ok_def)
  have fresh: "cl_state ?x \<noteq> Answered Resolved" using del by simp
  note parts = inv_set_call_parts [OF inv j ok fresh]
  have "transit ?s = transit s + {#(cl_run ?x, v)#}"
    using transit_update [OF next_ok(1), of "(gs_chans s k)\<lparr>os_value := Some v, os_tx := False\<rparr>"]
      rx empty next_ok(2) by (simp add: in_transit_def)
  moreover have "resolved_calls g (set_call j (Answered Resolved) s) = resolved_calls g s + {#(cl_run ?x, v)#}"
    using resolved_set_call [OF j, of g "Answered Resolved"] del next_ok(3) by (simp add: resolved_call_def)
  ultimately have sum: "reported s + transit ?s \<subseteq># resolved_calls g (set_call j (Answered Resolved) s)"
    using inv by (simp add: gw_inv_def union_assoc [symmetric])
  have eqs: "resolved_calls g (set_call j (Answered Resolved) ?s) = resolved_calls g (set_call j (Answered Resolved) s)"
    "reported (set_call j (Answered Resolved) ?s) = reported s"
    "transit (set_call j (Answered Resolved) ?s) = transit ?s"
    by (simp_all add: resolved_calls_def reported_def transit_def)
  have "entry_ok (set_call j (Answered Resolved) ?s) cid e" if "gs_pending s cid = Some e" for cid e
    using parts(1) [OF that] by (simp add: entry_ok_def tx_owned_def rx_owned_def del: fun_upd_apply)
  moreover have "call_ok g (set_call j (Answered Resolved) ?s) z" if "z \<in> set ((gs_calls s)[j := ?y])" for z
    using parts(2) [OF that] by (simp add: call_ok_def del: fun_upd_apply)
  moreover have "value_ok g (set_call j (Answered Resolved) ?s) c" for c
  proof (cases "c = k")
    case True
    have "?y \<in> set ((gs_calls s)[j := ?y])" using j by (simp add: set_update_memI)
    then show ?thesis using True next_ok(1,3) k unfolding value_ok_def
      by (auto intro!: bexI [of _ ?y] simp del: fun_upd_apply)
  next
    case False
    then show ?thesis using parts(4) [of c] by (simp add: value_ok_def del: fun_upd_apply)
  qed
  moreover have "task_ok (set_call j (Answered Resolved) ?s) t" if "t \<in> set (gs_tasks s)" for t
    using inv that by (simp add: gw_inv_def task_ok_def del: fun_upd_apply)
  moreover have "single_owner (\<lambda>t. map_option snd (task_chan t)) (gs_tasks s)"
    using inv by (simp add: gw_inv_def)
  ultimately show ?thesis
    using sum parts(3) unfolding gw_inv_def eqs set_call_sel
    by (intro conjI allI impI ballI) (simp_all del: fun_upd_apply)
qed

text \<open>A verdict task receives its verdict.\<close>

lemma set_task_sel [simp]:
  "gs_pending (set_task i t s) = gs_pending s" "gs_chans (set_task i t s) = gs_chans s"
  "gs_next (set_task i t s) = gs_next s" "gs_tasks (set_task i t s) = (gs_tasks s)[i := t]"
  "gs_calls (set_task i t s) = gs_calls s" "gs_reports (set_task i t s) = gs_reports s"
  "gs_timer (set_task i t s) = gs_timer s" "gs_now (set_task i t s) = gs_now s"
  by (simp_all add: set_task_def)

lemma task_chan_owned:
  assumes "gw_inv g s" "i < length (gs_tasks s)" "task_chan (gs_tasks s ! i) = Some (cid, c)" "task_chan t = None"
  shows "\<not> rx_owned (set_task i t s) c" "gs_pending s cid' = Some e \<Longrightarrow> pv_rx e \<noteq> Some c"
    "c < gs_next s" "os_for (gs_chans s c) = cid" "os_rx (gs_chans s c)"
proof -
  show "\<not> rx_owned (set_task i t s) c"
  proof
    assume "rx_owned (set_task i t s) c"
    then obtain j where j: "j < length (gs_tasks s)" "map_option snd (task_chan ((gs_tasks s)[i := t] ! j)) = Some c"
      by (auto simp: rx_owned_def in_set_conv_nth)
    then have "j \<noteq> i" using assms by (auto simp: nth_list_update split: if_splits)
    moreover have "i = j"
      using assms j \<open>j \<noteq> i\<close> single_ownerD [of "\<lambda>t. map_option snd (task_chan t)" "gs_tasks s" i j c]
      by (auto simp: gw_inv_def)
    ultimately show False by simp
  qed
  have owned: "rx_owned s c" using assms(2,3) by (force simp: rx_owned_def)
  show "pv_rx e \<noteq> Some c" if "gs_pending s cid' = Some e"
    using assms(1) that owned by (auto simp: gw_inv_def entry_ok_def)
  have "task_ok s (gs_tasks s ! i)" using assms(1,2) by (simp add: gw_inv_def)
  then show "c < gs_next s" "os_for (gs_chans s c) = cid" "os_rx (gs_chans s c)"
    using assms(3) by (auto simp: task_ok_def)
qed

lemma inv_release:
  assumes "gw_inv g s" "i < length (gs_tasks s)" "task_chan (gs_tasks s ! i) = Some (cid, c)" "task_chan t = None"
  shows "gw_inv g (drop_rx (Some c) (set_task i t s))"
  using task_chan_owned [OF assms] by (intro inv_drop_rx inv_set_idle assms) simp_all

lemma inv_reports:
  assumes "gw_inv g s" "reported (s\<lparr>gs_reports := rs\<rparr>) + transit (s\<lparr>gs_reports := rs\<rparr>) \<subseteq>#
    resolved_calls g (s\<lparr>gs_reports := rs\<rparr>)"
  shows "gw_inv g (s\<lparr>gs_reports := rs\<rparr>)"
proof -
  have "value_ok g (s\<lparr>gs_reports := rs\<rparr>) = value_ok g s" by (simp add: value_ok_def fun_eq_iff)
  then show ?thesis
    using assms by (simp add: gw_inv_def entry_ok_def call_ok_def task_ok_def tx_owned_def rx_owned_def)
qed

lemma inv_receive:
  assumes inv: "gw_inv g s" and i: "i < length (gs_tasks s)" "task_chan (gs_tasks s ! i) = Some (cid, c)"
    and v: "os_value (gs_chans s c) = Some v"
  shows "gw_inv g (report_verdict cid info v (drop_rx (Some c) (set_task i Finished s)))"
proof (cases info)
  case None
  then show ?thesis using inv_release [OF inv i, of Finished] by (simp add: report_verdict_def)
next
  case (Some a)
  let ?s = "drop_rx (Some c) (set_task i Finished s)"
  let ?r = "report_verdict cid info v ?s"
  note own = task_chan_owned [OF inv i, of Finished]
  have inv': "gw_inv g ?s" using inv_release [OF inv i, of Finished] by simp
  have same: "transit ?r = transit ?s" "resolved_calls g ?r = resolved_calls g s"
    "reported ?r = reported s + {#(cid, v)#}"
    using Some by (auto simp: report_verdict_def transit_def resolved_calls_def reported_def drop_rx_def split: prod.splits)
  have "transit ?s + {#(cid, v)#} = transit s"
    using transit_update [of c s "(gs_chans s c)\<lparr>os_rx := False\<rparr>"] own(3-5) v
    by (simp add: in_transit_def transit_def drop_rx_def)
  then have "reported ?r + transit ?r \<subseteq># resolved_calls g ?r"
    using inv unfolding same gw_inv_def by (metis union_assoc union_commute)
  moreover obtain rs where r: "?r = ?s\<lparr>gs_reports := rs\<rparr>"
    using Some that by (cases a) (simp add: report_verdict_def)
  ultimately show ?thesis using inv_reports [OF inv'] by metis
qed

lemma transit_next:
  "transit (s\<lparr>gs_chans := (gs_chans s)(gs_next s := x), gs_next := Suc (gs_next s)\<rparr>) = transit s + in_transit x"
proof -
  have "(\<Sum>c<gs_next s. in_transit (((gs_chans s)(gs_next s := x)) c)) = (\<Sum>c<gs_next s. in_transit (gs_chans s c))"
    by (rule sum.cong) auto
  then show ?thesis by (simp add: transit_def)
qed

lemma inv_new_chan:
  assumes inv: "gw_inv g s"
  shows "gw_inv g (s\<lparr>gs_chans := (gs_chans s)(gs_next s := \<lparr>os_for = cid, os_value = None, os_tx = True, os_rx = True\<rparr>),
      gs_next := Suc (gs_next s)\<rparr>)" (is "gw_inv g ?s")
proof -
  have "reported ?s + transit ?s \<subseteq># resolved_calls g ?s"
    using inv unfolding transit_next by (simp add: gw_inv_def reported_def resolved_calls_def in_transit_def)
  moreover have "value_ok g ?s c" for c
  proof -
    have "value_ok g s c" using inv by (simp add: gw_inv_def)
    then show ?thesis by (auto simp: value_ok_def)
  qed
  moreover have "entry_ok ?s c e" if "gs_pending s c = Some e" for c e
  proof -
    have "entry_ok s c e" using inv that by (simp add: gw_inv_def)
    then show ?thesis by (auto simp: entry_ok_def tx_owned_def rx_owned_def)
  qed
  moreover have "call_ok g ?s x" if "x \<in> set (gs_calls s)" for x
  proof -
    have "call_ok g s x" using inv that by (simp add: gw_inv_def)
    then show ?thesis by (auto simp: call_ok_def)
  qed
  moreover have "task_ok ?s t" if "t \<in> set (gs_tasks s)" for t
  proof -
    have "task_ok s t" using inv that by (simp add: gw_inv_def)
    then show ?thesis by (auto simp: task_ok_def)
  qed
  moreover have "single_owner (\<lambda>t. map_option snd (task_chan t)) (gs_tasks s)" "single_owner cl_chan (gs_calls s)"
    using inv by (simp_all add: gw_inv_def)
  ultimately show ?thesis unfolding gw_inv_def by (intro conjI allI impI ballI) (simp_all del: fun_upd_apply)
qed

lemma inv_unowned_next:
  assumes "gw_inv g s"
  shows "\<not> tx_owned s (gs_next s)" "\<not> rx_owned s (gs_next s)"
  using assms by (fastforce simp: gw_inv_def tx_owned_def rx_owned_def call_ok_def task_ok_def)+

lemma inv_spawn:
  assumes inv: "gw_inv g s" and t: "task_chan t = None"
  shows "gw_inv g (s\<lparr>gs_tasks := gs_tasks s @ [t]\<rparr>)"
proof -
  have "single_owner (\<lambda>t. map_option snd (task_chan t)) (gs_tasks s @ [t])"
    using inv t by (simp add: single_owner_append gw_inv_def)
  moreover have "rx_owned (s\<lparr>gs_tasks := gs_tasks s @ [t]\<rparr>) c = rx_owned s c" for c
    using t by (auto simp: rx_owned_def)
  ultimately show ?thesis
    using inv t
    by (simp add: gw_inv_def entry_ok_def call_ok_def task_ok_def value_ok_def tx_owned_def transit_def
        reported_def resolved_calls_def)
qed

lemma drop_sel [simp]:
  "gs_pending (drop_tx c s) = gs_pending s" "gs_pending (drop_rx c s) = gs_pending s"
  "gs_next (drop_tx c s) = gs_next s" "gs_next (drop_rx c s) = gs_next s"
  "gs_calls (drop_tx c s) = gs_calls s" "gs_calls (drop_rx c s) = gs_calls s"
  "gs_tasks (drop_tx c s) = gs_tasks s" "gs_tasks (drop_rx c s) = gs_tasks s"
  "gs_reports (drop_tx c s) = gs_reports s" "gs_reports (drop_rx c s) = gs_reports s"
  "gs_now (drop_tx c s) = gs_now s" "gs_now (drop_rx c s) = gs_now s"
  "gs_timer (drop_tx c s) = gs_timer s" "gs_timer (drop_rx c s) = gs_timer s"
  by (simp_all add: drop_tx_def drop_rx_def split: option.split)

lemma remove_sel [simp]:
  "gs_pending (remove_pending cid s) = (gs_pending s)(cid := None)"
  "gs_next (remove_pending cid s) = gs_next s" "gs_calls (remove_pending cid s) = gs_calls s"
  "gs_tasks (remove_pending cid s) = gs_tasks s" "gs_reports (remove_pending cid s) = gs_reports s"
  "gs_now (remove_pending cid s) = gs_now s" "gs_timer (remove_pending cid s) = gs_timer s"
  by (simp_all add: remove_pending_def drop_entry_def split: option.split)

lemma insert_after_remove:
  "insert_pending cid p s = (remove_pending cid s)\<lparr>gs_pending := (gs_pending (remove_pending cid s))(cid \<mapsto> p)\<rparr>"
  by (simp add: insert_pending_def remove_pending_def drop_entry_def drop_tx_def drop_rx_def split: option.split)

lemma inv_dispatch:
  assumes inv: "gw_inv g s" and d: "dispatch g payload s = Some s'"
  shows "gw_inv g s'"
proof -
  let ?cid = "wp_correlation_id payload" and ?c = "gs_next s"
  let ?s = "s\<lparr>gs_chans := (gs_chans s)(?c := \<lparr>os_for = ?cid, os_value = None, os_tx = True, os_rx = True\<rparr>), gs_next := Suc ?c\<rparr>"
  obtain e where s': "s' = (insert_pending ?cid
      \<lparr>pv_tx = Some ?c, pv_rx = Some ?c, pv_blueprint = wp_blueprint payload, pv_task_id = wp_task_id payload,
       pv_step = wp_step payload, pv_expires_at = e, pv_resolved = False\<rparr> ?s)
      \<lparr>gs_tasks := gs_tasks (insert_pending ?cid
      \<lparr>pv_tx = Some ?c, pv_rx = Some ?c, pv_blueprint = wp_blueprint payload, pv_task_id = wp_task_id payload,
       pv_step = wp_step payload, pv_expires_at = e, pv_resolved = False\<rparr> ?s) @
         [Sending ?cid payload (hitl_timeout_secs (gw_timeout_var g))]\<rparr>"
    using d by (auto simp: dispatch_def Let_def split: option.splits)
  have inv1: "gw_inv g (remove_pending ?cid ?s)" by (intro inv_remove inv_new_chan inv)
  have chan: "os_for (gs_chans (remove_pending ?cid ?s) ?c) = ?cid" "os_rx (gs_chans (remove_pending ?cid ?s) ?c)"
  proof -
    have "pv_rx p \<noteq> Some ?c \<and> pv_tx p \<noteq> Some ?c" if "gs_pending s ?cid = Some p" for p
      using inv that by (fastforce simp: gw_inv_def entry_ok_def)
    then show "os_for (gs_chans (remove_pending ?cid ?s) ?c) = ?cid" "os_rx (gs_chans (remove_pending ?cid ?s) ?c)"
      by (auto simp: remove_pending_def drop_entry_def drop_tx_def drop_rx_def split: option.splits)
  qed
  have "entry_ok (remove_pending ?cid ?s) ?cid \<lparr>pv_tx = Some ?c, pv_rx = Some ?c, pv_blueprint = wp_blueprint payload,
      pv_task_id = wp_task_id payload, pv_step = wp_step payload, pv_expires_at = e, pv_resolved = False\<rparr>"
    using chan inv_unowned_next [OF inv] by (simp add: entry_ok_def tx_owned_def rx_owned_def)
  from inv_enter [OF inv1 this] show ?thesis
    unfolding s' insert_after_remove by (rule inv_spawn) simp
qed

lemma inv_take_sender:
  assumes inv: "gw_inv g s" and t: "take_sender run_id s = (r, s')"
  shows "gw_inv g s'"
    "r = Inr tx \<Longrightarrow> \<exists>c. tx = Some c \<and> c < gs_next s' \<and> os_for (gs_chans s' c) = run_id \<and> \<not> tx_owned s' c \<and>
       (\<forall>cid e. gs_pending s' cid = Some e \<longrightarrow> pv_tx e \<noteq> Some c)"
proof -
  consider (gone) "s' = s" "\<exists>st. r = Inl st" | (late) "s' = remove_pending run_id s" "\<exists>st. r = Inl st"
    | (taken) e where "gs_pending s run_id = Some e" "\<not> pv_resolved e" "r = Inr (pv_tx e)"
        "s' = update_pending run_id (e\<lparr>pv_resolved := True, pv_tx := None\<rparr>) s"
    using t by (auto simp: take_sender_def split: option.splits if_splits)
  then have "gw_inv g s' \<and> (r = Inr tx \<longrightarrow> (\<exists>c. tx = Some c \<and> c < gs_next s' \<and> os_for (gs_chans s' c) = run_id \<and>
      \<not> tx_owned s' c \<and> (\<forall>cid e. gs_pending s' cid = Some e \<longrightarrow> pv_tx e \<noteq> Some c)))"
  proof cases
    case taken
    have ok: "entry_ok s run_id e" using inv taken by (simp add: gw_inv_def)
    then have "entry_ok s run_id (e\<lparr>pv_resolved := True, pv_tx := None\<rparr>)" by (simp add: entry_ok_def)
    with inv have "gw_inv g s'" unfolding taken(4) update_pending_def by (rule inv_enter)
    moreover obtain c where c: "pv_tx e = Some c" using ok taken(2) by (auto simp: entry_ok_def)
    moreover have "pv_tx e' \<noteq> Some c" if "gs_pending s' cid = Some e'" for cid e'
    proof (cases "cid = run_id")
      case False
      then have "entry_ok s cid e'" using that inv taken(4) by (simp add: gw_inv_def update_pending_def)
      then show ?thesis using ok c False by (auto simp: entry_ok_def)
    qed (use that taken(4) in \<open>auto simp: update_pending_def\<close>)
    moreover have "c < gs_next s'" "os_for (gs_chans s' c) = run_id" "\<not> tx_owned s' c"
      using ok c taken(4) by (auto simp: entry_ok_def update_pending_def tx_owned_def)
    ultimately show ?thesis using taken(3) c by fastforce
  qed (use inv inv_remove in auto)
  then show "gw_inv g s'" "r = Inr tx \<Longrightarrow> \<exists>c. tx = Some c \<and> c < gs_next s' \<and> os_for (gs_chans s' c) = run_id \<and>
      \<not> tx_owned s' c \<and> (\<forall>cid e. gs_pending s' cid = Some e \<longrightarrow> pv_tx e \<noteq> Some c)"
    by blast+
qed

lemma inv_answer:
  "gw_inv g s \<Longrightarrow> st \<noteq> Resolved \<Longrightarrow>
   gw_inv g (add_call \<lparr>cl_run = r, cl_origin = orig, cl_chan = None, cl_state = Answered st\<rparr> s)"
  by (rule inv_add_call) (simp_all add: call_ok_def)

lemma take_sender_answer: "take_sender run_id s = (Inl st, s') \<Longrightarrow> st \<noteq> Resolved"
  by (auto simp: take_sender_def split: option.splits if_splits)

lemma origin_action_answer: "origin_action g orig = Inl st \<Longrightarrow> st \<noteq> Resolved"
  by (auto simp: origin_action_def callback_action_def tui_action_def split: origin.splits option.splits if_splits)

lemma inv_arrives:
  assumes inv: "gw_inv g s"
  shows "gw_inv g (call_arrives g run_id orig s)"
proof (cases "origin_action g orig")
  case (Inl st)
  then show ?thesis using inv_answer [OF inv] origin_action_answer by (simp add: call_arrives_def)
next
  case (Inr action)
  obtain r s' where t: "take_sender run_id s = (r, s')" by fastforce
  note after = inv_take_sender [OF inv t]
  show ?thesis
  proof (cases r)
    case (Inl st)
    then show ?thesis
      using inv_answer [OF after(1)] take_sender_answer t Inr by (simp add: call_arrives_def)
  next
    case r: (Inr tx)
    then obtain c where "tx = Some c" "c < gs_next s'" "os_for (gs_chans s' c) = run_id" "\<not> tx_owned s' c"
      "\<forall>cid e. gs_pending s' cid = Some e \<longrightarrow> pv_tx e \<noteq> Some c"
      using after(2) by blast
    then have "gw_inv g (add_call \<lparr>cl_run = run_id, cl_origin = orig, cl_chan = tx,
        cl_state = Delivering (action_to_verdict action)\<rparr> s')"
      using Inr by (intro inv_add_call after) (auto simp: call_ok_def call_verdict_def)
    then show ?thesis using Inr t r by (simp add: call_arrives_def)
  qed
qed

lemma inv_call_step:
  assumes inv: "gw_inv g s" and st: "call_step k s = Some s'"
  shows "gw_inv g s'"
proof -
  let ?x = "gs_calls s ! k"
  have k: "k < length (gs_calls s)" using st by (auto simp: call_step_def split: if_splits)
  have ok: "call_ok g s ?x" using inv k by (simp add: gw_inv_def)
  show ?thesis
  proof (cases "cl_state ?x")
    case (Delivering v)
    then obtain c where c: "cl_chan ?x = Some c" using ok by (auto simp: call_ok_def)
    show ?thesis
    proof (cases rule: send_verdict_cases [of "cl_chan ?x" v s])
      case 1
      have "gw_inv g (set_call k Undelivered (drop_tx (cl_chan ?x) s))"
        using inv_drop_tx [OF inv] k ok Delivering
        by (intro inv_set_call) (auto simp: call_ok_def drop_tx_def split: option.splits)
      then show ?thesis using st k Delivering 1 by (simp add: call_step_def)
    next
      case (2 c')
      then show ?thesis
        using st k Delivering inv_send [OF inv k Delivering 2(1,2)] by (simp add: call_step_def)
    qed
  next
    case Undelivered
    have "gw_inv g (set_call k (Answered Gone) (remove_pending (cl_run ?x) s))"
      using inv_remove [OF inv] k ok Undelivered
      by (intro inv_set_call) (auto simp: call_ok_def remove_pending_def drop_entry_def drop_tx_def drop_rx_def split: option.splits)
    then show ?thesis using st k Undelivered by (simp add: call_step_def)
  qed (use st k in \<open>simp add: call_step_def\<close>)
qed

lemma inv_take_receiver:
  assumes inv: "gw_inv g s" and t: "take_receiver cid s = (r, s')"
  shows "gw_inv g s'" "gs_tasks s' = gs_tasks s" "gs_timer s' = gs_timer s"
    "r = Inr c \<Longrightarrow> c < gs_next s' \<and> os_for (gs_chans s' c) = cid \<and> os_rx (gs_chans s' c) \<and> \<not> rx_owned s' c \<and>
       (\<forall>cid e. gs_pending s' cid = Some e \<longrightarrow> pv_rx e \<noteq> Some c)"
proof -
  consider (err) "s' = s" "\<exists>err. r = Inl err"
    | (taken) e k where "gs_pending s cid = Some e" "pv_rx e = Some k" "r = Inr k"
        "s' = update_pending cid (e\<lparr>pv_rx := None\<rparr>) s"
    using t by (auto simp: take_receiver_def split: option.splits)
  then have "gw_inv g s' \<and> gs_tasks s' = gs_tasks s \<and> gs_timer s' = gs_timer s \<and>
      (r = Inr c \<longrightarrow> c < gs_next s' \<and> os_for (gs_chans s' c) = cid \<and> os_rx (gs_chans s' c) \<and> \<not> rx_owned s' c \<and>
        (\<forall>cid e. gs_pending s' cid = Some e \<longrightarrow> pv_rx e \<noteq> Some c))"
  proof cases
    case taken
    have ok: "entry_ok s cid e" using inv taken by (simp add: gw_inv_def)
    then have "entry_ok s cid (e\<lparr>pv_rx := None\<rparr>)" by (simp add: entry_ok_def)
    with inv have "gw_inv g s'" unfolding taken(4) update_pending_def by (rule inv_enter)
    moreover have "pv_rx e' \<noteq> Some k" if "gs_pending s' c' = Some e'" for c' e'
    proof (cases "c' = cid")
      case False
      then have "entry_ok s c' e'" using that inv taken(4) by (simp add: gw_inv_def update_pending_def)
      then show ?thesis using ok taken(2) False by (auto simp: entry_ok_def)
    qed (use that taken(4) in \<open>auto simp: update_pending_def\<close>)
    moreover have "k < gs_next s'" "os_for (gs_chans s' k) = cid" "os_rx (gs_chans s' k)" "\<not> rx_owned s' k"
      "gs_tasks s' = gs_tasks s" "gs_timer s' = gs_timer s"
      using ok taken(2,4) by (auto simp: entry_ok_def update_pending_def rx_owned_def)
    ultimately show ?thesis using taken(3) by fastforce
  qed (use inv in auto)
  then show "gw_inv g s'" "gs_tasks s' = gs_tasks s" "gs_timer s' = gs_timer s"
    "r = Inr c \<Longrightarrow> c < gs_next s' \<and> os_for (gs_chans s' c) = cid \<and> os_rx (gs_chans s' c) \<and> \<not> rx_owned s' c \<and>
       (\<forall>cid e. gs_pending s' cid = Some e \<longrightarrow> pv_rx e \<noteq> Some c)"
    by blast+
qed

lemma inv_task_step:
  assumes inv: "gw_inv g s" and st: "task_step g i s = Some s'"
  shows "gw_inv g s'"
proof -
  have i: "i < length (gs_tasks s)" using st by (auto simp: task_step_def split: if_splits)
  show ?thesis
  proof (cases "gs_tasks s ! i")
    case (Sending cid payload secs)
    let ?s = "s\<lparr>gs_cards := gs_cards s @ map (\<lambda>ch. (ch, payload)) (gw_channels g)\<rparr>"
    have "gw_inv g (set_task i (Looking cid secs) ?s)"
      using inv i by (intro inv_set_idle) (simp_all add: inv_cards)
    then show ?thesis using st i Sending by (auto simp: task_step_def)
  next
    case (Looking cid secs)
    then show ?thesis using st i inv_set_idle [OF inv i] by (auto simp: task_step_def)
  next
    case (Awaiting cid secs info)
    obtain r s1 where t: "take_receiver cid s = (r, s1)" by fastforce
    note after = inv_take_receiver [OF inv t]
    show ?thesis
    proof (cases r)
      case (Inl err)
      then show ?thesis using st i t Awaiting after inv_set_idle [OF after(1)] by (auto simp: task_step_def)
    next
      case (Inr c)
      have "gw_inv g (set_task i (Waiting cid c (gs_timer s + secs * 1000000000) info) s1)"
        using after(2,4) Inr i by (intro inv_set_task after(1)) (auto simp: task_ok_def)
      then show ?thesis using st i t Awaiting Inr by (auto simp: task_step_def)
    qed
  next
    case (Waiting cid c deadline info)
    then have tc: "task_chan (gs_tasks s ! i) = Some (cid, c)" by simp
    obtain r where p: "poll_receiver c deadline s = Some r"
      using st i Waiting by (auto simp: task_step_def split: option.splits)
    consider v where "r = Inr v" | "r = Inl Timeout" | err where "r = Inl err" "err \<noteq> Timeout"
      by (metis sum.exhaust)
    then show ?thesis
    proof cases
      case 1
      then have "os_value (gs_chans s c) = Some v"
        using p by (auto simp: poll_receiver_def split: option.splits if_splits)
      from inv_receive [OF inv i tc this] show ?thesis using st i Waiting p 1 by (auto simp: task_step_def)
    next
      case 2
      have "gw_inv g (set_task i (Elapsed cid c) s)"
      proof (intro inv_set_task inv i)
        show "task_ok s (Elapsed cid c)"
          using task_chan_owned(3-5) [OF inv i tc, of Finished] by (simp add: task_ok_def)
      qed (use tc in simp)
      then show ?thesis using st i Waiting p 2 by (auto simp: task_step_def)
    next
      case 3
      then show ?thesis using st i Waiting p inv_release [OF inv i tc]
        by (cases err) (auto simp: task_step_def)
    qed
  next
    case (Elapsed cid c)
    then have "task_chan (gs_tasks s ! i) = Some (cid, c)" by simp
    from inv_release [OF inv i this] show ?thesis using st i Elapsed by (auto simp: task_step_def)
  next
    case (Failing cid err)
    then show ?thesis using st i inv_remove [OF inv_set_idle [OF inv i]] by (auto simp: task_step_def)
  qed (use st i in \<open>simp add: task_step_def\<close>)
qed

lemma inv_step:
  assumes "gw_inv g s" "gw_step g e s = Some s'"
  shows "gw_inv g s'"
  using assms
  by (cases e) (auto simp: inv_clock intro: inv_dispatch inv_task_step inv_arrives inv_call_step)

lemma gw_reach_inv: "gw_reach g s \<Longrightarrow> gw_inv g s"
  by (induction rule: gw_reach.induct) (auto intro: inv_init inv_step)

section \<open>Verdicts reach the sink\<close>

lemma gw_run_reach: "gw_reach g s \<Longrightarrow> gw_run g es s = Some s' \<Longrightarrow> gw_reach g s'"
  by (induction es arbitrary: s) (auto intro: gw_reach.step split: option.splits)

lemma drop_value [simp]:
  "os_value (gs_chans (drop_tx k s) c) = os_value (gs_chans s c)"
  "os_value (gs_chans (drop_rx k s) c) = os_value (gs_chans s c)"
  by (simp_all add: drop_tx_def drop_rx_def split: option.split)

lemma remove_value [simp]: "os_value (gs_chans (remove_pending cid s) c) = os_value (gs_chans s c)"
  by (simp add: remove_pending_def drop_entry_def split: option.split)

lemma insert_value [simp]:
  "os_value (gs_chans (insert_pending cid p s) c) = os_value (gs_chans s c)"
  "gs_next (insert_pending cid p s) = gs_next s" "gs_calls (insert_pending cid p s) = gs_calls s"
  "gs_tasks (insert_pending cid p s) = gs_tasks s" "gs_reports (insert_pending cid p s) = gs_reports s"
  "gs_pending (insert_pending cid p s) = (gs_pending s)(cid \<mapsto> p)"
  by (simp_all add: insert_pending_def drop_entry_def split: option.split)

lemma update_sel [simp]:
  "gs_chans (update_pending cid p s) = gs_chans s" "gs_next (update_pending cid p s) = gs_next s"
  "gs_calls (update_pending cid p s) = gs_calls s" "gs_tasks (update_pending cid p s) = gs_tasks s"
  "gs_reports (update_pending cid p s) = gs_reports s"
  by (simp_all add: update_pending_def)

lemma report_sel [simp]:
  "gs_chans (report_verdict cid info v s) = gs_chans s" "gs_next (report_verdict cid info v s) = gs_next s"
  "gs_calls (report_verdict cid info v s) = gs_calls s" "gs_tasks (report_verdict cid info v s) = gs_tasks s"
  "gs_pending (report_verdict cid info v s) = gs_pending s"
  by (simp_all add: report_verdict_def split: option.split)

text \<open>The parts of the state that the look-ups of callbacks and tasks leave alone.\<close>

lemma take_sender_frame:
  assumes "take_sender run_id s = (r, s')"
  shows "gs_calls s' = gs_calls s" "gs_tasks s' = gs_tasks s" "gs_next s' = gs_next s"
    "os_value (gs_chans s' c) = os_value (gs_chans s c)" "gs_reports s' = gs_reports s"
  using assms by (auto simp: take_sender_def split: option.splits if_splits)

lemma take_receiver_frame:
  assumes "take_receiver cid s = (r, s')"
  shows "gs_calls s' = gs_calls s" "gs_tasks s' = gs_tasks s" "gs_next s' = gs_next s"
    "os_value (gs_chans s' c) = os_value (gs_chans s c)" "gs_reports s' = gs_reports s"
  using assms by (auto simp: take_receiver_def split: option.splits)

lemma dispatch_frame:
  assumes "dispatch g p s = Some s'"
  shows "gs_calls s' = gs_calls s" "gs_next s' = Suc (gs_next s)" "gs_reports s' = gs_reports s"
    "gs_tasks s' = gs_tasks s @ [Sending (wp_correlation_id p) p (hitl_timeout_secs (gw_timeout_var g))]"
    "c < gs_next s \<Longrightarrow> os_value (gs_chans s' c) = os_value (gs_chans s c)"
  using assms by (auto simp: dispatch_def Let_def split: option.splits)

lemma call_arrives_frame:
  "gs_tasks (call_arrives g run_id orig s) = gs_tasks s" "gs_next (call_arrives g run_id orig s) = gs_next s"
  "os_value (gs_chans (call_arrives g run_id orig s) c) = os_value (gs_chans s c)"
  "gs_reports (call_arrives g run_id orig s) = gs_reports s"
  by (auto simp: call_arrives_def take_sender_frame split: sum.split prod.split)

lemma call_step_frame:
  assumes "call_step k s = Some s'"
  shows "gs_tasks s' = gs_tasks s" "gs_next s' = gs_next s" "gs_reports s' = gs_reports s"
    "os_value (gs_chans s c) = Some v \<Longrightarrow> os_value (gs_chans s' c) \<noteq> None"
  using assms
  by (auto simp: call_step_def send_verdict_def drop_tx_def split: option.splits if_splits call_state.splits prod.splits bool.splits)

lemma task_step_frame:
  assumes "task_step g j s = Some s'"
  shows "gs_calls s' = gs_calls s" "gs_next s' = gs_next s" "os_value (gs_chans s' c) = os_value (gs_chans s c)"
    "i \<noteq> j \<Longrightarrow> gs_tasks s' ! i = gs_tasks s ! i" "length (gs_tasks s') = length (gs_tasks s)"
  using assms
  by (auto simp: task_step_def take_receiver_frame split: option.splits if_splits verdict_task.splits prod.splits
      sum.splits gateway_error.splits)

text \<open>What was answered 200 was sent.\<close>

definition sent :: "gw_state \<Rightarrow> bool" where
  "sent s = (\<forall>x \<in> set (gs_calls s). \<forall>c. cl_chan x = Some c \<longrightarrow> cl_state x = Answered Resolved \<longrightarrow>
     os_value (gs_chans s c) \<noteq> None)"

lemma sent_call_step:
  assumes "sent s" "call_step k s = Some s'"
  shows "sent s'"
proof -
  have k: "k < length (gs_calls s)" using assms(2) by (auto simp: call_step_def split: if_splits)
  have "\<exists>st. gs_calls s' = (gs_calls s)[k := (gs_calls s ! k)\<lparr>cl_state := st\<rparr>] \<and>
      (st = Answered Resolved \<longrightarrow> (\<exists>c. cl_chan (gs_calls s ! k) = Some c \<and> os_value (gs_chans s' c) \<noteq> None))"
  proof (cases "cl_state (gs_calls s ! k)")
    case (Delivering v)
    show ?thesis
    proof (cases rule: send_verdict_cases [of "cl_chan (gs_calls s ! k)" v s])
      case 1
      then show ?thesis using assms(2) k Delivering by (intro exI [of _ Undelivered]) (auto simp: call_step_def)
    next
      case (2 c)
      then show ?thesis using assms(2) k Delivering
        by (intro exI [of _ "Answered Resolved"]) (auto simp: call_step_def)
    qed
  next
    case Undelivered
    then show ?thesis using assms(2) k by (intro exI [of _ "Answered Gone"]) (auto simp: call_step_def)
  qed (use assms(2) k in \<open>simp add: call_step_def\<close>)
  then obtain st where calls: "gs_calls s' = (gs_calls s)[k := (gs_calls s ! k)\<lparr>cl_state := st\<rparr>]"
    and st: "st = Answered Resolved \<Longrightarrow> \<exists>c. cl_chan (gs_calls s ! k) = Some c \<and> os_value (gs_chans s' c) \<noteq> None"
    by blast
  show ?thesis
    unfolding sent_def calls
  proof (intro ballI allI impI)
    fix x c
    assume x: "x \<in> set ((gs_calls s)[k := (gs_calls s ! k)\<lparr>cl_state := st\<rparr>])" "cl_chan x = Some c"
      "cl_state x = Answered Resolved"
    then consider "x \<in> set (gs_calls s)" | "x = (gs_calls s ! k)\<lparr>cl_state := st\<rparr>"
      by (auto dest!: set_update_cases)
    then show "os_value (gs_chans s' c) \<noteq> None"
    proof cases
      case 1
      then show ?thesis using assms(1) x call_step_frame(4) [OF assms(2)] unfolding sent_def by blast
    next
      case 2
      then show ?thesis using x st by auto
    qed
  qed
qed

lemma sent_step:
  assumes "gw_inv g s" "sent s" "gw_step g e s = Some s'"
  shows "sent s'"
proof (cases e)
  case (Clock w t)
  then show ?thesis using assms by (auto simp: sent_def)
next
  case (Dispatch_card p)
  then have d: "dispatch g p s = Some s'" using assms(3) by simp
  have "c < gs_next s" if "x \<in> set (gs_calls s)" "cl_chan x = Some c" for x c
    using assms(1) that by (auto simp: gw_inv_def call_ok_def)
  then show ?thesis using assms(2) dispatch_frame [OF d] by (auto simp: sent_def)
next
  case (Task i)
  then have "task_step g i s = Some s'" using assms(3) by simp
  then show ?thesis using assms(2) task_step_frame(1,3) by (simp add: sent_def)
next
  case (Arrive r orig)
  have "\<exists>x. gs_calls s' = gs_calls s @ [x] \<and> cl_state x \<noteq> Answered Resolved"
    using Arrive assms(3)
    by (auto simp: call_arrives_def take_sender_frame dest: origin_action_answer take_sender_answer
        split: sum.splits prod.splits)
  then show ?thesis using assms(2,3) Arrive by (auto simp: sent_def call_arrives_frame)
next
  case (Call k)
  then show ?thesis using assms by (auto intro: sent_call_step)
qed

lemma gw_reach_sent: "gw_reach g s \<Longrightarrow> sent s"
proof (induction rule: gw_reach.induct)
  case (init now)
  then show ?case by (simp add: sent_def gw_init_def)
next
  case (step s e s')
  then show ?case using sent_step gw_reach_inv by blast
qed

lemma resolved_value:
  assumes "gw_reach g s" "x \<in> set (gs_calls s)" "cl_chan x = Some c" "cl_state x = Answered Resolved"
  shows "os_value (gs_chans s c) = call_verdict g x"
proof -
  have inv: "gw_inv g s" using assms(1) by (rule gw_reach_inv)
  obtain v where v: "os_value (gs_chans s c) = Some v"
    using gw_reach_sent [OF assms(1)] assms(2-) by (auto simp: sent_def)
  then obtain y where y: "y \<in> set (gs_calls s)" "cl_chan y = Some c" "call_verdict g y = Some v"
    using inv by (force simp: gw_inv_def value_ok_def)
  have "x = y"
    using assms(2,3) y(1,2) inv unfolding gw_inv_def in_set_conv_nth by (metis single_ownerD)
  then show ?thesis using v y(3) by simp
qed

lemma sent_waits:
  assumes "\<forall>e \<in> set es. e \<noteq> Task i" "i < length (gs_tasks s)" "gw_run g es s = Some s'"
    "os_value (gs_chans s c) \<noteq> None" "c < gs_next s"
  shows "gs_tasks s' ! i = gs_tasks s ! i \<and> i < length (gs_tasks s') \<and> os_value (gs_chans s' c) \<noteq> None"
  using assms
proof (induction es arbitrary: s)
  case (Cons e es)
  obtain s1 where s1: "gw_step g e s = Some s1" "gw_run g es s1 = Some s'"
    using Cons.prems(3) by (auto split: option.splits)
  have "gs_tasks s1 ! i = gs_tasks s ! i \<and> i < length (gs_tasks s1) \<and> os_value (gs_chans s1 c) \<noteq> None \<and> c < gs_next s1"
  proof (cases e)
    case (Clock w t)
    then show ?thesis using s1(1) Cons.prems by auto
  next
    case (Dispatch_card p)
    then show ?thesis using s1(1) Cons.prems dispatch_frame [of g p s s1] by (simp add: nth_append)
  next
    case (Task j)
    then show ?thesis using s1(1) Cons.prems task_step_frame [of g j s s1] by (metis gw_step.simps(3) list.set_intros(1))
  next
    case (Arrive r orig)
    then show ?thesis using s1(1) Cons.prems by (auto simp: call_arrives_frame)
  next
    case (Call k)
    then show ?thesis using s1(1) Cons.prems call_step_frame [of k s s1] by auto
  qed
  then show ?case using Cons.IH [of s1] Cons.prems s1(2) by simp
qed simp

lemma call_kept_step:
  assumes "gw_step g e s = Some s'" "k < length (gs_calls s)" "cl_state (gs_calls s ! k) = Answered st"
  shows "k < length (gs_calls s') \<and> gs_calls s' ! k = gs_calls s ! k"
proof (cases e)
  case (Dispatch_card p)
  then show ?thesis using assms dispatch_frame(1) [of g p s s'] by simp
next
  case (Task i)
  then show ?thesis using assms task_step_frame(1) [of g i s s'] by simp
next
  case (Arrive r orig)
  then show ?thesis using assms
    by (auto simp: call_arrives_def take_sender_frame nth_append split: sum.splits prod.splits)
next
  case (Call j)
  then have j: "call_step j s = Some s'" using assms(1) by simp
  then have "j \<noteq> k" using assms(2,3) by (auto simp: call_step_def)
  moreover have "\<exists>y. gs_calls s' = (gs_calls s)[j := y]"
    using j by (auto simp: call_step_def send_verdict_def split: if_splits call_state.splits option.splits prod.splits bool.splits)
  ultimately show ?thesis using assms(2) by auto
qed (use assms in auto)

lemma calls_kept:
  "gw_run g es s = Some s' \<Longrightarrow> k < length (gs_calls s) \<Longrightarrow> cl_state (gs_calls s ! k) = Answered st \<Longrightarrow>
   k < length (gs_calls s') \<and> gs_calls s' ! k = gs_calls s ! k"
proof (induction es arbitrary: s)
  case (Cons e es)
  then obtain s1 where "gw_step g e s = Some s1" "gw_run g es s1 = Some s'" by (auto split: option.splits)
  with Cons call_kept_step [of g e s s1 k st] show ?case by auto
qed simp

section \<open>Properties\<close>

text \<open>C18: in every state that the dispatches, tasks, callbacks and clocks can reach together, the
  verdicts reported to the sink are, counted with their correlation ids, among the callbacks
  that were answered 200; no two callbacks took the sender of one dispatch; and a callback of
  the listener that was answered 200 carried a valid signature whenever a secret is set.\<close>

theorem gateway_verdicts_authentic:
  assumes "gw_reach g s"
  shows "reported s \<subseteq># resolved_calls g s \<and>
    single_owner cl_chan (gs_calls s) \<and>
    (\<forall>x \<in> set (gs_calls s). \<forall>secret body auth.
      cl_state x = Answered Resolved \<longrightarrow> cl_origin x = Http body auth \<longrightarrow> gw_secret g = Some secret \<longrightarrow>
        verify_hmac (gw_crates g) secret body auth)"
proof (intro conjI ballI allI impI)
  have inv: "gw_inv g s" using assms by (rule gw_reach_inv)
  then show "reported s \<subseteq># resolved_calls g s"
    unfolding gw_inv_def using mset_subset_eq_add_left subset_mset.order_trans by blast
  show "single_owner cl_chan (gs_calls s)" using inv by (simp add: gw_inv_def)
  fix x secret body auth
  assume x: "x \<in> set (gs_calls s)" "cl_state x = Answered Resolved" "cl_origin x = Http body auth"
    "gw_secret g = Some secret"
  have "call_ok g s x" using inv x(1) by (simp add: gw_inv_def)
  then have "call_verdict g x \<noteq> None" using x(2) by (auto simp: call_ok_def)
  then show "verify_hmac (gw_crates g) secret body auth"
    using x(3,4) by (auto simp: call_verdict_def origin_action_def callback_action_def split: if_splits)
qed

definition toy_crates :: crates where
  "toy_crates = \<lparr>cr_hmac = (\<lambda>key. Some (\<lambda>body. key @ body)), cr_base64 = Some,
     cr_from_slice = (\<lambda>b. Some (JObj [(''action'', JStr b)])),
     cr_to_vec = (\<lambda>v. case get_str ''action'' v of Some a \<Rightarrow> a | None \<Rightarrow> [])\<rparr>"

definition toy_gateway :: "string option \<Rightarrow> gateway" where
  "toy_gateway secret = \<lparr>gw_crates = toy_crates, gw_channels = [''log''], gw_secret = secret,
     gw_timeout_var = None, gw_later = (\<lambda>now secs. Some (now + secs))\<rparr>"

definition toy_card :: "string \<Rightarrow> webhook_payload" where
  "toy_card cid = \<lparr>wp_task_id = Some 7, wp_execution_id = cid, wp_correlation_id = cid,
     wp_cause = ''require_approval'', wp_command = ''make'', wp_reason = [], wp_scene = [], wp_resume_key = [],
     wp_blueprint = ''bp'', wp_step = ''flash'', wp_stdout_tail = [], wp_expires_at = []\<rparr>"

definition toy_events :: "gw_event list" where
  "toy_events = [Dispatch_card (toy_card ''c1''), Task 0, Task 0, Task 0,
     Arrive ''c1'' (Http ''approve'' (Some ''Hmac k'')), Arrive ''c1'' (Http ''reject'' (Some ''Hmac kreject'')),
     Arrive ''c1'' (Http ''approve'' (Some ''Hmac kapprove'')), Call 1, Task 0]"

lemma toy_run:
  "map_option (\<lambda>s. (gs_reports s, map cl_state (gs_calls s)))
     (gw_run (toy_gateway (Some ''k'')) toy_events (gw_init 0)) =
   Some ([(''c1'', ''bp'', Some 7, ''flash'', Reject)], [Answered Unauthorized, Answered Resolved, Answered Conflict])"
  by code_simp

lemma gateway_verdicts_authentic_witness:
  "\<exists>s. gw_run (toy_gateway (Some ''k'')) toy_events (gw_init 0) = Some s \<and>
     gs_reports s = [(''c1'', ''bp'', Some 7, ''flash'', Reject)] \<and>
     reported s \<subseteq># resolved_calls (toy_gateway (Some ''k'')) s"
proof -
  obtain s where s: "gw_run (toy_gateway (Some ''k'')) toy_events (gw_init 0) = Some s"
    "gs_reports s = [(''c1'', ''bp'', Some 7, ''flash'', Reject)]"
    using toy_run by auto
  with gateway_verdicts_authentic [OF gw_run_reach [OF gw_reach.init s(1)]] show ?thesis by blast
qed

text \<open>C19: a verdict whose callback was answered 200 while its task waits is not lost: whatever else
  happens, no matter how late the task goes on, it receives this verdict and reports it with
  the step that it looked up.\<close>

theorem gateway_verdict_delivered:
  assumes reach: "gw_reach g s" and i: "i < length (gs_tasks s)" "gs_tasks s ! i = Waiting cid c deadline (Some (bp, t, step))"
    and x: "x \<in> set (gs_calls s)" "cl_chan x = Some c" "cl_state x = Answered Resolved"
    and run: "gw_run g es s = Some s'" "\<forall>e \<in> set es. e \<noteq> Task i"
  shows "\<exists>v s''. call_verdict g x = Some v \<and> gw_step g (Task i) s' = Some s'' \<and>
    gs_reports s'' = gs_reports s' @ [(cid, bp, t, step, v)] \<and> gs_tasks s'' ! i = Finished"
proof -
  have inv: "gw_inv g s" using reach by (rule gw_reach_inv)
  have ok: "call_ok g s x" using inv x(1) by (simp add: gw_inv_def)
  then obtain v where v: "call_verdict g x = Some v" "c < gs_next s" using x(2) by (auto simp: call_ok_def)
  have "os_value (gs_chans s c) \<noteq> None" using resolved_value [OF reach x] v by simp
  note waits = sent_waits [OF run(2) i(1) run(1) this v(2)]
  have reach': "gw_reach g s'" using gw_run_reach [OF reach run(1)] .
  have inv': "gw_inv g s'" using reach' by (rule gw_reach_inv)
  obtain v' where v': "os_value (gs_chans s' c) = Some v'" using waits by blast
  have "v' = v"
  proof -
    obtain k where k: "k < length (gs_calls s)" "x = gs_calls s ! k" using x(1) by (auto simp: in_set_conv_nth)
    have "x \<in> set (gs_calls s')" using calls_kept [OF run(1) k(1), of Resolved] k(2) x(3) nth_mem by metis
    from resolved_value [OF reach' this x(2,3)] v' v(1) show ?thesis by simp
  qed
  then show ?thesis
    using waits i v v' by (auto simp: task_step_def poll_receiver_def report_verdict_def)
qed

lemma toy_waiting:
  "map_option (\<lambda>s. (gs_tasks s, map (\<lambda>x. (cl_chan x, cl_state x)) (gs_calls s), gs_reports s))
     (gw_run (toy_gateway (Some ''k'')) (take 8 toy_events) (gw_init 0)) =
   Some ([Waiting ''c1'' 0 1800000000000 (Some (''bp'', Some 7, ''flash''))],
     [(None, Answered Unauthorized), (Some 0, Answered Resolved), (None, Answered Conflict)], [])"
  by code_simp

lemma gateway_verdict_delivered_witness:
  "\<exists>s s'' v. gw_run (toy_gateway (Some ''k'')) (take 8 toy_events) (gw_init 0) = Some s \<and>
     gw_step (toy_gateway (Some ''k'')) (Task 0) (s\<lparr>gs_now := 5000, gs_timer := gs_timer s + 5000000000000\<rparr>) = Some s'' \<and>
     gs_reports s'' = [(''c1'', ''bp'', Some 7, ''flash'', v)]"
proof -
  obtain s where s: "gw_run (toy_gateway (Some ''k'')) (take 8 toy_events) (gw_init 0) = Some s"
    "gs_tasks s = [Waiting ''c1'' 0 1800000000000 (Some (''bp'', Some 7, ''flash''))]" "gs_reports s = []"
    "map (\<lambda>x. (cl_chan x, cl_state x)) (gs_calls s) =
      [(None, Answered Unauthorized), (Some 0, Answered Resolved), (None, Answered Conflict)]"
    using toy_waiting by auto
  then have "gs_calls s ! 1 \<in> set (gs_calls s)" "cl_chan (gs_calls s ! 1) = Some 0"
    "cl_state (gs_calls s ! 1) = Answered Resolved"
    by (auto simp: map_eq_Cons_conv)
  from gateway_verdict_delivered [OF gw_run_reach [OF gw_reach.init s(1)] _ _ this, of 0 "''c1''" "1800000000000"
      "''bp''" "Some 7" "''flash''" "[Clock 5000 5000000000000]"] s
  show ?thesis by auto
qed

text \<open>C20: without an answer the suspension fails closed. A task that waits past its deadline on an
  empty channel gives up in three steps, or in two when an entry that expired has dropped
  the sender: it reports no verdict and leaves no entry, and no callback for its
  correlation id is answered 200 after that.\<close>

theorem gateway_timeout_blocks:
  assumes "i < length (gs_tasks s)" "gs_tasks s ! i = Waiting cid c deadline info"
    "os_value (gs_chans s c) = None" "deadline \<le> gs_timer s"
  shows "\<exists>s'. gw_run g (replicate (if os_tx (gs_chans s c) then 3 else 2) (Task i)) s = Some s' \<and>
    gs_reports s' = gs_reports s \<and> gs_tasks s' ! i = Finished \<and> gs_pending s' cid = None \<and>
    (\<forall>body auth approve. fst (resolve_callback g cid body auth s') \<noteq> Resolved \<and>
      fst (resolve_tui g cid approve s') \<noteq> Resolved)"
proof -
  have gone: "fst (resolve_action cid act s') \<noteq> Resolved"
    if "gs_pending s' cid = None" "\<And>st. act = Inl st \<Longrightarrow> st \<noteq> Resolved" for act s'
    using that by (cases act) (auto simp: resolve_action_def take_sender_def)
  have acts: "callback_action g body auth = Inl st \<Longrightarrow> st \<noteq> Resolved" "tui_action g approve = Inl st \<Longrightarrow> st \<noteq> Resolved"
    for body auth approve st
    by (auto simp: callback_action_def tui_action_def split: option.splits if_splits)
  have steps: "task_step g i s = Some (if os_tx (gs_chans s c) then set_task i (Elapsed cid c) s
      else drop_rx (Some c) (set_task i (Failing cid (Channel_error ''verdict sender dropped'')) s))"
    using assms by (simp add: task_step_def poll_receiver_def)
  have fin: "task_step g i u = Some (remove_pending cid (set_task i Finished u))"
    if "i < length (gs_tasks u)" "gs_tasks u ! i = Failing cid err" for u err
    using that by (simp add: task_step_def)
  have "\<exists>s'. gw_run g (replicate (if os_tx (gs_chans s c) then 3 else 2) (Task i)) s = Some s' \<and>
      gs_reports s' = gs_reports s \<and> gs_tasks s' ! i = Finished \<and> gs_pending s' cid = None"
  proof (cases "os_tx (gs_chans s c)")
    case True
    let ?u = "drop_rx (Some c) (set_task i (Failing cid Timeout) (set_task i (Elapsed cid c) s))"
    have "task_step g i (set_task i (Elapsed cid c) s) = Some ?u"
      using assms(1) by (simp add: task_step_def)
    moreover have "task_step g i ?u = Some (remove_pending cid (set_task i Finished ?u))"
      using assms(1) by (intro fin) simp_all
    ultimately show ?thesis using steps True assms(1) by (simp add: numeral_3_eq_3)
  next
    case False
    let ?u = "drop_rx (Some c) (set_task i (Failing cid (Channel_error ''verdict sender dropped'')) s)"
    have "task_step g i ?u = Some (remove_pending cid (set_task i Finished ?u))"
      using assms(1) by (intro fin) simp_all
    then show ?thesis using steps False assms(1) by (simp add: numeral_2_eq_2)
  qed
  then obtain s' where s': "gw_run g (replicate (if os_tx (gs_chans s c) then 3 else 2) (Task i)) s = Some s'"
    "gs_reports s' = gs_reports s" "gs_tasks s' ! i = Finished" "gs_pending s' cid = None" by blast
  have "fst (resolve_callback g cid body auth s') \<noteq> Resolved" "fst (resolve_tui g cid approve s') \<noteq> Resolved"
    for body auth approve
    unfolding resolve_callback_def resolve_tui_def using gone [OF s'(4)] acts by blast+
  with s' show ?thesis by blast
qed

lemma toy_idle:
  "map_option (\<lambda>s. (gs_tasks s, os_value (gs_chans s 0), os_tx (gs_chans s 0), gs_timer s, gs_reports s))
     (gw_run (toy_gateway None) (take 4 toy_events) (gw_init 0)) =
   Some ([Waiting ''c1'' 0 1800000000000 (Some (''bp'', Some 7, ''flash''))], None, True, 0, [])"
  by code_simp

lemma gateway_timeout_blocks_witness:
  "\<exists>s s'. gw_run (toy_gateway None) (take 4 toy_events) (gw_init 0) = Some s \<and>
     gw_run (toy_gateway None) [Task 0, Task 0, Task 0] (s\<lparr>gs_now := 1800, gs_timer := 1800000000000\<rparr>) = Some s' \<and>
     gs_reports s' = [] \<and> gs_pending s' ''c1'' = None"
proof -
  obtain s where s: "gw_run (toy_gateway None) (take 4 toy_events) (gw_init 0) = Some s"
    "gs_tasks s = [Waiting ''c1'' 0 1800000000000 (Some (''bp'', Some 7, ''flash''))]" "os_value (gs_chans s 0) = None"
    "os_tx (gs_chans s 0)" "gs_reports s = []"
    using toy_idle by auto
  let ?s = "s\<lparr>gs_now := 1800, gs_timer := 1800000000000\<rparr>"
  have three: "replicate (if os_tx (gs_chans ?s 0) then 3 else 2) (Task 0) = [Task 0, Task 0, Task 0]"
    using s(4) by (simp add: numeral_3_eq_3)
  have "\<exists>s'. gw_run (toy_gateway None) [Task 0, Task 0, Task 0] ?s = Some s' \<and> gs_reports s' = gs_reports ?s \<and>
      gs_pending s' ''c1'' = None"
    using gateway_timeout_blocks [of 0 ?s "''c1''" 0 1800000000000 "Some (''bp'', Some 7, ''flash'')" "toy_gateway None",
        unfolded three] s by auto
  then show ?thesis using s(1,5) by auto
qed

lemmas gw_defs = gw_init_def dispatch_def insert_pending_def drop_entry_def set_task_def lookup_info_def
  task_step_def take_receiver_def update_pending_def call_arrives_def origin_action_def take_sender_def
  add_call_def call_step_def send_verdict_def set_call_def poll_receiver_def report_verdict_def
  drop_rx_def drop_tx_def remove_pending_def

lemma gw_run_append: "gw_run g (xs @ ys) u = Option.bind (gw_run g xs u) (gw_run g ys)"
  by (induction xs arbitrary: u) (auto split: option.splits)

lemma first_dispatch:
  assumes "gw_later g now (hitl_timeout_secs (gw_timeout_var g)) = Some e"
  shows "gw_run g [Dispatch_card p, Task 0, Task 0, Task 0] (gw_init now) =
    Some \<lparr>gs_now = now, gs_timer = 0,
      gs_pending = [wp_correlation_id p \<mapsto> \<lparr>pv_tx = Some 0, pv_rx = None, pv_blueprint = wp_blueprint p,
        pv_task_id = wp_task_id p, pv_step = wp_step p, pv_expires_at = e, pv_resolved = False\<rparr>],
      gs_chans = (\<lambda>_. no_chan)(0 := \<lparr>os_for = wp_correlation_id p, os_value = None, os_tx = True, os_rx = True\<rparr>),
      gs_next = 1,
      gs_tasks = [Waiting (wp_correlation_id p) 0 (hitl_timeout_secs (gw_timeout_var g) * 1000000000)
        (Some (wp_blueprint p, wp_task_id p, wp_step p))],
      gs_calls = [], gs_cards = map (\<lambda>ch. (ch, p)) (gw_channels g), gs_reports = []\<rparr>"
  using assms by (simp add: gw_defs Let_def)

text \<open>An entry whose verdict was delivered stays in the registry until a callback comes after its
  expiry. When the same task is suspended a second time, the terminal interface may find the
  first entry, and then its answer is refused as a duplicate and the second suspension stays
  unanswered.\<close>

theorem observer_finds_stale_entry:
  assumes later: "gw_later g now (hitl_timeout_secs (gw_timeout_var g)) = Some e" "now \<le> e"
    and same: "wp_task_id p1 = Some t" "wp_task_id p2 = Some t" "wp_correlation_id p1 \<noteq> wp_correlation_id p2"
    and act: "tui_action g True = Inr a" "tui_action g approve = Inr a'"
  shows "\<exists>s. gw_run g ([Dispatch_card p1, Task 0, Task 0, Task 0] @
      [Arrive (wp_correlation_id p1) (Observer True), Call 0, Task 0, Dispatch_card p2]) (gw_init now) = Some s \<and>
    gs_reports s = [(wp_correlation_id p1, wp_blueprint p1, Some t, wp_step p1, action_to_verdict a)] \<and>
    dom (gs_pending s) = {wp_correlation_id p1, wp_correlation_id p2} \<and>
    find_correlation_by_task [wp_correlation_id p1, wp_correlation_id p2] t s = Some (wp_correlation_id p1) \<and>
    resolve_tui g (wp_correlation_id p1) approve s = (Conflict, s) \<and>
    map_option pv_resolved (gs_pending s (wp_correlation_id p2)) = Some False"
  unfolding gw_run_append first_dispatch [OF later(1)]
  using later same act
  by (auto simp: gw_defs Let_def find_correlation_by_task_def resolve_tui_def resolve_action_def)

lemma toy_card_sel:
  "wp_correlation_id (toy_card cid) = cid" "wp_task_id (toy_card cid) = Some 7"
  "wp_blueprint (toy_card cid) = ''bp''" "wp_step (toy_card cid) = ''flash''"
  by (simp_all add: toy_card_def)

lemma toy_tui: "tui_action (toy_gateway secret) True = Inr Act_approve"
  by (simp add: tui_action_def toy_gateway_def toy_crates_def parse_action_def get_str_def)

lemma observer_finds_stale_entry_witness:
  "\<exists>s. gw_run (toy_gateway None) ([Dispatch_card (toy_card ''c1''), Task 0, Task 0, Task 0] @
      [Arrive ''c1'' (Observer True), Call 0, Task 0, Dispatch_card (toy_card ''c2'')]) (gw_init 0) = Some s \<and>
    find_correlation_by_task [''c1'', ''c2''] 7 s = Some ''c1'' \<and> resolve_tui (toy_gateway None) ''c1'' True s = (Conflict, s)"
proof -
  have later: "gw_later (toy_gateway None) 0 (hitl_timeout_secs (gw_timeout_var (toy_gateway None))) =
      Some (hitl_timeout_secs None)"
    by (simp add: toy_gateway_def)
  have ids: "''c1'' \<noteq> ''c2''" by simp
  have "0 \<le> hitl_timeout_secs None" using hitl_timeout_positive [of None] by simp
  from observer_finds_stale_entry [OF later this, of "toy_card ''c1''" 7 "toy_card ''c2''" Act_approve True Act_approve]
  have "\<exists>s. gw_run (toy_gateway None) ([Dispatch_card (toy_card ''c1''), Task 0, Task 0, Task 0] @
      [Arrive ''c1'' (Observer True), Call 0, Task 0, Dispatch_card (toy_card ''c2'')]) (gw_init 0) = Some s \<and>
    gs_reports s = [(''c1'', ''bp'', Some 7, ''flash'', Approve)] \<and> dom (gs_pending s) = {''c1'', ''c2''} \<and>
    find_correlation_by_task [''c1'', ''c2''] 7 s = Some ''c1'' \<and>
    resolve_tui (toy_gateway None) ''c1'' True s = (Conflict, s) \<and>
    map_option pv_resolved (gs_pending s ''c2'') = Some False"
    unfolding toy_card_sel toy_tui action_to_verdict.simps using ids by blast
  then show ?thesis by blast
qed

text \<open>When a correlation id is dispatched again before its first card is answered, the first
  task finds its sender dropped and clears the registry, which drops the entry of the second
  card: both tasks end without a verdict, and no callback can be answered 200.\<close>

theorem redispatch_drops_both:
  assumes later: "gw_later g now (hitl_timeout_secs (gw_timeout_var g)) = Some e"
    and same: "wp_correlation_id p2 = wp_correlation_id p1"
  shows "\<exists>s. gw_run g ([Dispatch_card p1, Task 0, Task 0, Task 0] @
      [Dispatch_card p2, Task 0, Task 0, Task 1, Task 1, Task 1, Task 1]) (gw_init now) = Some s \<and>
    gs_tasks s = [Finished, Finished] \<and> gs_reports s = [] \<and> gs_pending s = Map.empty"
  unfolding gw_run_append first_dispatch [OF later]
  using later same
  by (simp add: gw_defs Let_def)

lemma redispatch_drops_both_witness:
  "\<exists>s. gw_run (toy_gateway None) ([Dispatch_card (toy_card ''c1''), Task 0, Task 0, Task 0] @
      [Dispatch_card (toy_card ''c1''), Task 0, Task 0, Task 1, Task 1, Task 1, Task 1]) (gw_init 0) = Some s \<and>
    gs_reports s = []"
proof -
  have "gw_later (toy_gateway None) 0 (hitl_timeout_secs (gw_timeout_var (toy_gateway None))) =
      Some (hitl_timeout_secs None)"
    by (simp add: toy_gateway_def)
  from redispatch_drops_both [OF this, of "toy_card ''c1''" "toy_card ''c1''"] show ?thesis by auto
qed

text \<open>C21: a callback that nothing interrupts is the run of its events, and its answer is decided by
  the entry that it finds: 410 for an unknown or expired id, 409 for a second answer, and
  200 exactly when the receiver still exists.\<close>

theorem resolve_callback_spec:
  assumes reach: "gw_reach g s" and act: "callback_action g body auth = Inr a"
  shows "fst (resolve_callback g run_id body auth s) =
      (case gs_pending s run_id of
         None \<Rightarrow> Gone
       | Some e \<Rightarrow>
           if pv_expires_at e < gs_now s then Gone
           else if pv_resolved e then Conflict
           else if os_rx (gs_chans s (the (pv_tx e))) then Resolved else Gone) \<and>
    (\<exists>es x. gw_run g (Arrive run_id (Http body auth) # es) s =
       Some ((snd (resolve_callback g run_id body auth s))\<lparr>gs_calls := gs_calls s @ [x]\<rparr>) \<and>
       cl_state x = Answered (fst (resolve_callback g run_id body auth s)))"
proof -
  have inv: "gw_inv g s" using reach by (rule gw_reach_inv)
  have sender: "\<exists>c. pv_tx e = Some c" if "gs_pending s run_id = Some e" "\<not> pv_resolved e" for e
    using inv that by (auto simp: gw_inv_def entry_ok_def)
  consider (unknown) "gs_pending s run_id = None"
    | (late) e where "gs_pending s run_id = Some e" "pv_expires_at e < gs_now s"
    | (second) e where "gs_pending s run_id = Some e" "\<not> pv_expires_at e < gs_now s" "pv_resolved e"
    | (sent) e c where "gs_pending s run_id = Some e" "\<not> pv_expires_at e < gs_now s" "\<not> pv_resolved e"
        "pv_tx e = Some c" "os_rx (gs_chans s c)"
    | (lost) e c where "gs_pending s run_id = Some e" "\<not> pv_expires_at e < gs_now s" "\<not> pv_resolved e"
        "pv_tx e = Some c" "\<not> os_rx (gs_chans s c)"
    using sender by (cases "gs_pending s run_id") blast+
  then show ?thesis
  proof cases
    case unknown
    then show ?thesis using act
      by (auto simp: resolve_callback_def resolve_action_def take_sender_def call_arrives_def origin_action_def add_call_def
          intro!: exI [of _ "[]"])
  next
    case late
    then show ?thesis using act
      by (auto simp: resolve_callback_def resolve_action_def take_sender_def call_arrives_def origin_action_def add_call_def
          intro!: exI [of _ "[]"])
  next
    case second
    then show ?thesis using act
      by (auto simp: resolve_callback_def resolve_action_def take_sender_def call_arrives_def origin_action_def add_call_def
          intro!: exI [of _ "[]"])
  next
    case sent
    then show ?thesis using act
      by (auto simp: resolve_callback_def resolve_action_def take_sender_def call_arrives_def origin_action_def add_call_def
          call_step_def send_verdict_def set_call_def update_pending_def nth_append
          intro!: exI [of _ "[Call (length (gs_calls s))]"])
  next
    case lost
    then show ?thesis using act
      by (auto simp: resolve_callback_def resolve_action_def take_sender_def call_arrives_def origin_action_def add_call_def
          call_step_def send_verdict_def set_call_def update_pending_def nth_append remove_pending_def drop_entry_def
          drop_tx_def drop_rx_def
          split: option.splits
          intro!: exI [of _ "[Call (length (gs_calls s)), Call (length (gs_calls s))]"])
  qed
qed

lemma resolve_callback_spec_witness:
  "fst (resolve_callback (toy_gateway None) ''c9'' ''approve'' None (gw_init 0)) = Gone"
proof -
  have "callback_action (toy_gateway None) ''approve'' None = Inr Act_approve"
    by (simp add: callback_action_def toy_gateway_def toy_crates_def parse_action_def get_str_def)
  from resolve_callback_spec [OF gw_reach.init this, of "''c9''" 0] show ?thesis by (simp add: gw_init_def)
qed

end
