(* ===== verification/Wire.thy ===== *)
theory Wire
  imports Protocol Json "HOL-Library.Monad_Syntax"
begin

text \<open>
  The wire format of \<open>src/janus/src/protocol.rs\<close>, and that what is written is read back.

  \<open>Request\<close> and \<open>Response\<close> derive serde's traits with the tag in the member \<open>type\<close>, snake case
  names and, for some options, \<open>skip_serializing_if\<close>. Serialisers and deserialisers are written
  out on JSON values. A derived deserialiser takes an object, in which it ignores unknown
  members and refuses a known one that is repeated, or the fields in order in an array; an
  absent option is \<open>None\<close>. The printer and the parser of JSON, the parser of UUIDs and the order
  in which a hash map is enumerated are parameters.
\<close>

section \<open>Writing\<close>

definition opt_member :: "string \<Rightarrow> ('a \<Rightarrow> json) \<Rightarrow> 'a option \<Rightarrow> (string \<times> json) list" where
  "opt_member k f x = (case x of None \<Rightarrow> [] | Some y \<Rightarrow> [(k, f y)])"

definition json_uuid :: "uuid \<Rightarrow> json" where
  "json_uuid u = JStr (uuid_string u)"

definition json_map :: "((string \<Rightarrow> string option) \<Rightarrow> string list) \<Rightarrow> (string \<Rightarrow> string option) \<Rightarrow> json" where
  "json_map order m = JObj (concat (map (\<lambda>k. opt_member k JStr (m k)) (order m)))"

definition variant :: "string \<Rightarrow> (string \<times> json) list \<Rightarrow> json" where
  "variant tag ms = JObj ((''type'', JStr tag) # ms)"

fun request_to_value :: "((string \<Rightarrow> string option) \<Rightarrow> string list) \<Rightarrow> request \<Rightarrow> json" where
  "request_to_value order Ping = variant ''ping'' []"
| "request_to_value order Blueprints = variant ''blueprints'' []"
| "request_to_value order (Progress bp) = variant ''progress'' [(''blueprint'', json_opt JStr bp)]"
| "request_to_value order (GuardCheck execution_id bp task_id step_name cwd argv env_snapshot) =
     variant ''guard_check''
       [(''execution_id'', JStr execution_id), (''blueprint_id'', json_opt JStr bp),
        (''task_id'', json_opt json_uuid task_id), (''step_name'', json_opt JStr step_name),
        (''cwd'', json_opt JStr cwd), (''argv'', json_strings argv),
        (''env_snapshot'', json_map order env_snapshot)]"
| "request_to_value order (Onboard name) = variant ''onboard'' [(''name'', JStr name)]"
| "request_to_value order (Offboard name) = variant ''offboard'' [(''name'', JStr name)]"
| "request_to_value order (Dispatch bp wn cmd) =
     variant ''dispatch'' ([(''blueprint'', JStr bp)] @ opt_member ''workflow'' JStr wn @
       opt_member ''inline_command'' JStr cmd)"
| "request_to_value order (Stop bp task_id) =
     variant ''stop'' (opt_member ''blueprint'' JStr bp @ opt_member ''task_id'' json_uuid task_id)"
| "request_to_value order (Continue bp task_id) =
     variant ''continue'' (opt_member ''blueprint'' JStr bp @ opt_member ''task_id'' json_uuid task_id)"
| "request_to_value order (GateAction task_id approve) =
     variant ''gate_action'' [(''task_id'', json_uuid task_id), (''approve'', JBool approve)]"
| "request_to_value order (ListWorkflows bp) = variant ''list_workflows'' (opt_member ''blueprint'' JStr bp)"
| "request_to_value order (GetWorkflow bp name) =
     variant ''get_workflow'' (opt_member ''blueprint'' JStr bp @ [(''name'', JStr name)])"
| "request_to_value order (SaveWorkflow bp name content) =
     variant ''save_workflow'' (opt_member ''blueprint'' JStr bp @
       [(''name'', JStr name), (''content'', JStr content)])"
| "request_to_value order ListHarvestRefs = variant ''list_harvest_refs'' []"
| "request_to_value order (ApplyHarvestRef ref_name) =
     variant ''apply_harvest_ref'' [(''ref_name'', JStr ref_name)]"

definition blueprint_info_to_value :: "blueprint_info \<Rightarrow> json" where
  "blueprint_info_to_value b =
     JObj [(''name'', JStr (bi_name b)), (''default_workflow'', JStr (bi_default_workflow b)),
       (''remote_host'', json_opt JStr (bi_remote_host b)), (''status'', JStr (bi_status b))]"

definition step_status_to_value :: "step_status \<Rightarrow> json" where
  "step_status_to_value s =
     JObj ([(''name'', JStr (ss_name s)), (''status'', JStr (ss_status s))] @
       opt_member ''exit_code'' (\<lambda>c. JInt (sint c)) (ss_exit_code s) @
       opt_member ''stdout_tail'' JStr (ss_stdout_tail s))"

text \<open>\<open>session_name\<close> is skipped.\<close>

definition active_task_to_value :: "active_task \<Rightarrow> json" where
  "active_task_to_value t =
     JObj [(''task_id'', json_uuid (at_task_id t)), (''blueprint_id'', JStr (at_blueprint_id t)),
       (''workflow_name'', JStr (at_workflow_name t)), (''status'', JStr (at_status t)),
       (''started_at'', json_opt JStr (at_started_at t)),
       (''elapsed_seconds'', json_opt JInt (at_elapsed_seconds t)),
       (''current_step'', json_opt JStr (at_current_step t)),
       (''tmux_alive'', JBool (at_tmux_alive t)),
       (''suspended_reason'', json_opt JStr (at_suspended_reason t)),
       (''steps'', JArr (map step_status_to_value (at_steps t)))]"

fun response_to_value :: "response \<Rightarrow> json" where
  "response_to_value RPong = variant ''pong'' []"
| "response_to_value (RBlueprints bs) =
     variant ''blueprints'' [(''blueprints'', JArr (map blueprint_info_to_value bs))]"
| "response_to_value (RProgress ts) =
     variant ''progress'' [(''active_tasks'', JArr (map active_task_to_value ts))]"
| "response_to_value (RWorkflows names) = variant ''workflows'' [(''names'', json_strings names)]"
| "response_to_value (RWorkflowContent name content) =
     variant ''workflow_content'' [(''name'', JStr name), (''content'', JStr content)]"
| "response_to_value (RHarvestRefs refs) = variant ''harvest_refs'' [(''refs'', json_strings refs)]"
| "response_to_value (RHarvestApplied ref_name applied) =
     variant ''harvest_applied'' [(''ref_name'', JStr ref_name), (''applied'', JBool applied)]"
| "response_to_value (RGuardVerdict execution_id verdict reason rewritten cid cognitive_context) =
     variant ''guard_verdict''
       ([(''execution_id'', JStr execution_id), (''verdict'', JStr verdict),
         (''reason'', json_opt JStr reason), (''rewritten_argv'', json_opt json_strings rewritten),
         (''correlation_id'', JStr cid)] @ opt_member ''cognitive_context'' JStr cognitive_context)"
| "response_to_value (ROk message) = variant ''ok'' [(''message'', JStr message)]"
| "response_to_value (RDispatch task_id) = variant ''dispatch'' [(''task_id'', json_uuid task_id)]"
| "response_to_value (RError message) = variant ''error'' [(''message'', JStr message)]"

section \<open>Reading\<close>

text \<open>What the fields of a struct are read from.\<close>

datatype body = Members "(string \<times> json) list" | Items "json list"

fun body_of :: "json \<Rightarrow> body option" where
  "body_of (JObj ms) = Some (Members ms)"
| "body_of (JArr vs) = Some (Items vs)"
| "body_of v = None"

text \<open>The tag and the rest.\<close>

fun tagged :: "json \<Rightarrow> (string \<times> body) option" where
  "tagged (JObj ms) =
     (case filter (\<lambda>m. fst m = ''type'') ms of
        [m] \<Rightarrow> map_option (\<lambda>t. (t, Members (filter (\<lambda>m. fst m \<noteq> ''type'') ms))) (as_str (snd m))
      | _ \<Rightarrow> None)"
| "tagged (JArr (v # vs)) = map_option (\<lambda>t. (t, Items vs)) (as_str v)"
| "tagged v = None"

definition arity :: "nat \<Rightarrow> body \<Rightarrow> unit option" where
  "arity n b = (case b of Members _ \<Rightarrow> Some () | Items vs \<Rightarrow> if length vs = n then Some () else None)"

text \<open>The field \<open>k\<close>, the \<open>i\<close>-th one: an error, absent, or a value.\<close>

definition field :: "nat \<Rightarrow> string \<Rightarrow> body \<Rightarrow> json option option" where
  "field i k b =
     (case b of
        Members ms \<Rightarrow>
          (case filter (\<lambda>m. fst m = k) ms of
             [] \<Rightarrow> Some None | [m] \<Rightarrow> Some (Some (snd m)) | _ \<Rightarrow> None)
      | Items vs \<Rightarrow> if i < length vs then Some (Some (vs ! i)) else None)"

definition required :: "nat \<Rightarrow> string \<Rightarrow> (json \<Rightarrow> 'a option) \<Rightarrow> body \<Rightarrow> 'a option" where
  "required i k f b = (case field i k b of Some (Some v) \<Rightarrow> f v | _ \<Rightarrow> None)"

definition optional :: "nat \<Rightarrow> string \<Rightarrow> (json \<Rightarrow> 'a option) \<Rightarrow> body \<Rightarrow> 'a option option" where
  "optional i k f b =
     (case field i k b of
        None \<Rightarrow> None
      | Some None \<Rightarrow> Some None
      | Some (Some v) \<Rightarrow> if v = JNull then Some None else map_option Some (f v))"

definition read_list :: "(json \<Rightarrow> 'a option) \<Rightarrow> json \<Rightarrow> 'a list option" where
  "read_list f v = (case v of JArr vs \<Rightarrow> those (map f vs) | _ \<Rightarrow> None)"

definition read_uuid :: "(string \<Rightarrow> uuid option) \<Rightarrow> json \<Rightarrow> uuid option" where
  "read_uuid parse_uuid v = as_str v \<bind> parse_uuid"

definition read_i32 :: "json \<Rightarrow> i32 option" where
  "read_i32 v = as_i64 v \<bind> (\<lambda>i. if - (2 ^ 31) \<le> i \<and> i < 2 ^ 31 then Some (word_of_int i) else None)"

text \<open>A hash map keeps the last of repeated keys.\<close>

definition read_map :: "json \<Rightarrow> (string \<Rightarrow> string option) option" where
  "read_map v =
     (case v of
        JObj ms \<Rightarrow> map_option (\<lambda>vs. map_of (rev (zip (map fst ms) vs))) (those (map (\<lambda>m. as_str (snd m)) ms))
      | _ \<Rightarrow> None)"

text \<open>\<open>pu\<close> is the parser of UUIDs.\<close>

definition read_variant :: "(string \<Rightarrow> uuid option) \<Rightarrow> string \<Rightarrow> body \<Rightarrow> request option" where
  "read_variant pu tag b =
     (if tag = ''ping'' then do { arity 0 b; Some Ping }
      else if tag = ''blueprints'' then do { arity 0 b; Some Blueprints }
      else if tag = ''progress'' then
        do { arity 1 b; bp \<leftarrow> optional 0 ''blueprint'' as_str b; Some (Progress bp) }
      else if tag = ''guard_check'' then
        do { arity 7 b;
             execution_id \<leftarrow> required 0 ''execution_id'' as_str b;
             bp \<leftarrow> optional 1 ''blueprint_id'' as_str b;
             task_id \<leftarrow> optional 2 ''task_id'' (read_uuid pu) b;
             step_name \<leftarrow> optional 3 ''step_name'' as_str b;
             cwd \<leftarrow> optional 4 ''cwd'' as_str b;
             argv \<leftarrow> required 5 ''argv'' (read_list as_str) b;
             env_snapshot \<leftarrow> required 6 ''env_snapshot'' read_map b;
             Some (GuardCheck execution_id bp task_id step_name cwd argv env_snapshot) }
      else if tag = ''onboard'' then
        do { arity 1 b; name \<leftarrow> required 0 ''name'' as_str b; Some (Onboard name) }
      else if tag = ''offboard'' then
        do { arity 1 b; name \<leftarrow> required 0 ''name'' as_str b; Some (Offboard name) }
      else if tag = ''dispatch'' then
        do { arity 3 b;
             bp \<leftarrow> required 0 ''blueprint'' as_str b;
             wn \<leftarrow> optional 1 ''workflow'' as_str b;
             cmd \<leftarrow> optional 2 ''inline_command'' as_str b;
             Some (Dispatch bp wn cmd) }
      else if tag = ''stop'' then
        do { arity 2 b;
             bp \<leftarrow> optional 0 ''blueprint'' as_str b;
             task_id \<leftarrow> optional 1 ''task_id'' (read_uuid pu) b;
             Some (Stop bp task_id) }
      else if tag = ''continue'' then
        do { arity 2 b;
             bp \<leftarrow> optional 0 ''blueprint'' as_str b;
             task_id \<leftarrow> optional 1 ''task_id'' (read_uuid pu) b;
             Some (Continue bp task_id) }
      else if tag = ''gate_action'' then
        do { arity 2 b;
             task_id \<leftarrow> required 0 ''task_id'' (read_uuid pu) b;
             approve \<leftarrow> required 1 ''approve'' as_bool b;
             Some (GateAction task_id approve) }
      else if tag = ''list_workflows'' then
        do { arity 1 b; bp \<leftarrow> optional 0 ''blueprint'' as_str b; Some (ListWorkflows bp) }
      else if tag = ''get_workflow'' then
        do { arity 2 b;
             bp \<leftarrow> optional 0 ''blueprint'' as_str b;
             name \<leftarrow> required 1 ''name'' as_str b;
             Some (GetWorkflow bp name) }
      else if tag = ''save_workflow'' then
        do { arity 3 b;
             bp \<leftarrow> optional 0 ''blueprint'' as_str b;
             name \<leftarrow> required 1 ''name'' as_str b;
             content \<leftarrow> required 2 ''content'' as_str b;
             Some (SaveWorkflow bp name content) }
      else if tag = ''list_harvest_refs'' then do { arity 0 b; Some ListHarvestRefs }
      else if tag = ''apply_harvest_ref'' then
        do { arity 1 b; ref_name \<leftarrow> required 0 ''ref_name'' as_str b; Some (ApplyHarvestRef ref_name) }
      else None)"

definition request_from_value :: "(string \<Rightarrow> uuid option) \<Rightarrow> json \<Rightarrow> request option" where
  "request_from_value pu v = do { (tag, b) \<leftarrow> tagged v; read_variant pu tag b }"

definition read_blueprint_info :: "json \<Rightarrow> blueprint_info option" where
  "read_blueprint_info v =
     do { b \<leftarrow> body_of v; arity 4 b;
          name \<leftarrow> required 0 ''name'' as_str b;
          wn \<leftarrow> required 1 ''default_workflow'' as_str b;
          host \<leftarrow> optional 2 ''remote_host'' as_str b;
          status \<leftarrow> required 3 ''status'' as_str b;
          Some \<lparr>bi_name = name, bi_default_workflow = wn, bi_remote_host = host, bi_status = status\<rparr> }"

definition read_step_status :: "json \<Rightarrow> step_status option" where
  "read_step_status v =
     do { b \<leftarrow> body_of v; arity 4 b;
          name \<leftarrow> required 0 ''name'' as_str b;
          status \<leftarrow> required 1 ''status'' as_str b;
          exit_code \<leftarrow> optional 2 ''exit_code'' read_i32 b;
          tail \<leftarrow> optional 3 ''stdout_tail'' as_str b;
          Some \<lparr>ss_name = name, ss_status = status, ss_exit_code = exit_code, ss_stdout_tail = tail\<rparr> }"

definition read_active_task :: "(string \<Rightarrow> uuid option) \<Rightarrow> json \<Rightarrow> active_task option" where
  "read_active_task pu v =
     do { b \<leftarrow> body_of v; arity 10 b;
          task_id \<leftarrow> required 0 ''task_id'' (read_uuid pu) b;
          bp \<leftarrow> required 1 ''blueprint_id'' as_str b;
          wn \<leftarrow> required 2 ''workflow_name'' as_str b;
          status \<leftarrow> required 3 ''status'' as_str b;
          started_at \<leftarrow> optional 4 ''started_at'' as_str b;
          elapsed \<leftarrow> optional 5 ''elapsed_seconds'' as_i64 b;
          current_step \<leftarrow> optional 6 ''current_step'' as_str b;
          alive \<leftarrow> required 7 ''tmux_alive'' as_bool b;
          reason \<leftarrow> optional 8 ''suspended_reason'' as_str b;
          steps \<leftarrow> required 9 ''steps'' (read_list read_step_status) b;
          Some \<lparr>at_task_id = task_id, at_blueprint_id = bp, at_workflow_name = wn, at_status = status,
            at_started_at = started_at, at_elapsed_seconds = elapsed, at_current_step = current_step,
            at_tmux_alive = alive, at_session_name = None, at_suspended_reason = reason,
            at_steps = steps\<rparr> }"

definition read_response :: "(string \<Rightarrow> uuid option) \<Rightarrow> string \<Rightarrow> body \<Rightarrow> response option" where
  "read_response pu tag b =
     (if tag = ''pong'' then do { arity 0 b; Some RPong }
      else if tag = ''blueprints'' then
        do { arity 1 b; bs \<leftarrow> required 0 ''blueprints'' (read_list read_blueprint_info) b;
             Some (RBlueprints bs) }
      else if tag = ''progress'' then
        do { arity 1 b; ts \<leftarrow> required 0 ''active_tasks'' (read_list (read_active_task pu)) b;
             Some (RProgress ts) }
      else if tag = ''workflows'' then
        do { arity 1 b; names \<leftarrow> required 0 ''names'' (read_list as_str) b; Some (RWorkflows names) }
      else if tag = ''workflow_content'' then
        do { arity 2 b;
             name \<leftarrow> required 0 ''name'' as_str b;
             content \<leftarrow> required 1 ''content'' as_str b;
             Some (RWorkflowContent name content) }
      else if tag = ''harvest_refs'' then
        do { arity 1 b; refs \<leftarrow> required 0 ''refs'' (read_list as_str) b; Some (RHarvestRefs refs) }
      else if tag = ''harvest_applied'' then
        do { arity 2 b;
             ref_name \<leftarrow> required 0 ''ref_name'' as_str b;
             applied \<leftarrow> required 1 ''applied'' as_bool b;
             Some (RHarvestApplied ref_name applied) }
      else if tag = ''guard_verdict'' then
        do { arity 6 b;
             execution_id \<leftarrow> required 0 ''execution_id'' as_str b;
             verdict \<leftarrow> required 1 ''verdict'' as_str b;
             reason \<leftarrow> optional 2 ''reason'' as_str b;
             rewritten \<leftarrow> optional 3 ''rewritten_argv'' (read_list as_str) b;
             cid \<leftarrow> required 4 ''correlation_id'' as_str b;
             ctx \<leftarrow> optional 5 ''cognitive_context'' as_str b;
             Some (RGuardVerdict execution_id verdict reason rewritten cid ctx) }
      else if tag = ''ok'' then
        do { arity 1 b; message \<leftarrow> required 0 ''message'' as_str b; Some (ROk message) }
      else if tag = ''dispatch'' then
        do { arity 1 b; task_id \<leftarrow> required 0 ''task_id'' (read_uuid pu) b; Some (RDispatch task_id) }
      else if tag = ''error'' then
        do { arity 1 b; message \<leftarrow> required 0 ''message'' as_str b; Some (RError message) }
      else None)"

definition response_from_value :: "(string \<Rightarrow> uuid option) \<Rightarrow> json \<Rightarrow> response option" where
  "response_from_value pu v = do { (tag, b) \<leftarrow> tagged v; read_response pu tag b }"

section \<open>Round trips\<close>

lemmas field_simps' = field_def required_def optional_def arity_def opt_member_def json_opt_def variant_def

lemma field_members_Nil [simp]: "field i k (Members []) = Some None"
  by (simp add: field_def)

lemma read_uuid_json [simp]: "pu (uuid_string u) = Some u \<Longrightarrow> read_uuid pu (json_uuid u) = Some u"
  by (simp add: read_uuid_def json_uuid_def)

lemma json_uuid_not_null [simp]: "json_uuid u \<noteq> JNull" "json_strings xs \<noteq> JNull"
  by (simp_all add: json_uuid_def json_strings_def)

lemma those_map_total: "(\<And>x. x \<in> set xs \<Longrightarrow> f (g x) = Some (h x)) \<Longrightarrow> those (map (\<lambda>x. f (g x)) xs) = Some (map h xs)"
  by (induction xs) auto

lemma read_list_map: "(\<And>x. x \<in> set xs \<Longrightarrow> f (g x) = Some (h x)) \<Longrightarrow> read_list f (JArr (map g xs)) = Some (map h xs)"
  by (simp add: read_list_def comp_def those_map_total)

lemma read_list_strings [simp]: "read_list as_str (json_strings xs) = Some xs"
  using read_list_map [of xs as_str JStr "\<lambda>x. x"] by (simp add: json_strings_def)

lemma read_i32_sint [simp]: "read_i32 (JInt (sint (c :: i32))) = Some c"
  using sint_ge [of c] sint_lt [of c] by (simp add: read_i32_def as_i64_def)

lemma read_map_json_map:
  assumes "set (order m) = dom m"
  shows "read_map (json_map order m) = Some m"
proof -
  have ms: "concat (map (\<lambda>k. opt_member k JStr (m k)) ks) = map (\<lambda>k. (k, JStr (the (m k)))) ks"
    if "set ks \<subseteq> dom m" for ks
    using that by (induction ks) (auto simp: opt_member_def)
  have "those (map (\<lambda>k. as_str (JStr (the (m k)))) ks) = Some (map (\<lambda>k. the (m k)) ks)" for ks
    by (rule those_map_total) simp
  then have "read_map (json_map order m) =
      Some (map_of (rev (map (\<lambda>k. (k, the (m k))) (order m))))"
    using assms by (simp add: read_map_def json_map_def ms comp_def zip_map2 zip_same_conv_map)
  also have "map_of (rev (map (\<lambda>k. (k, the (m k))) (order m))) = m"
    using assms by (force simp: rev_map map_of_map_restrict restrict_map_def fun_eq_iff)
  finally show ?thesis .
qed


definition uuids_read :: "(string \<Rightarrow> uuid option) \<Rightarrow> bool" where
  "uuids_read pu = (\<forall>u. pu (uuid_string u) = Some u)"

text \<open>A hash map is enumerated completely.\<close>

definition enumerates :: "((string \<Rightarrow> string option) \<Rightarrow> string list) \<Rightarrow> request \<Rightarrow> bool" where
  "enumerates order r =
     (case r of GuardCheck _ _ _ _ _ _ env_snapshot \<Rightarrow> set (order env_snapshot) = dom env_snapshot | _ \<Rightarrow> True)"

lemmas reading = request_from_value_def read_variant_def response_from_value_def read_response_def
  field_def required_def optional_def arity_def opt_member_def json_opt_def variant_def

lemma request_roundtrip:
  assumes "uuids_read pu" "enumerates order r"
  shows "request_from_value pu (request_to_value order r) = Some r"
  using assms
  by (cases r) (simp_all add: uuids_read_def enumerates_def reading read_map_json_map
      split: option.split)


text \<open>What arrives of a response: the session names stay behind.\<close>

definition without_session :: "active_task \<Rightarrow> active_task" where
  "without_session t = t\<lparr>at_session_name := None\<rparr>"

definition received :: "response \<Rightarrow> response" where
  "received r = (case r of RProgress ts \<Rightarrow> RProgress (map without_session ts) | _ \<Rightarrow> r)"

definition elapsed_in_range :: "active_task \<Rightarrow> bool" where
  "elapsed_in_range t =
     (case at_elapsed_seconds t of None \<Rightarrow> True | Some i \<Rightarrow> - (2 ^ 63) \<le> i \<and> i < 2 ^ 63)"

definition response_ok :: "response \<Rightarrow> bool" where
  "response_ok r = (case r of RProgress ts \<Rightarrow> list_all elapsed_in_range ts | _ \<Rightarrow> True)"

lemma read_blueprint_info_value [simp]: "read_blueprint_info (blueprint_info_to_value b) = Some b"
  by (simp add: read_blueprint_info_def blueprint_info_to_value_def reading split: option.split)

lemma read_step_status_value [simp]: "read_step_status (step_status_to_value s) = Some s"
  by (simp add: read_step_status_def step_status_to_value_def reading split: option.split)

lemma read_active_task_value:
  "uuids_read pu \<Longrightarrow> elapsed_in_range t \<Longrightarrow>
     read_active_task pu (active_task_to_value t) = Some (without_session t)"
  using read_list_map [of "at_steps t" read_step_status step_status_to_value "\<lambda>x. x"]
  by (cases t; cases "at_elapsed_seconds t") (simp_all add: read_active_task_def
      active_task_to_value_def reading uuids_read_def elapsed_in_range_def without_session_def
      as_i64_def split: option.split)

lemma response_roundtrip:
  assumes "uuids_read pu" "response_ok r"
  shows "response_from_value pu (response_to_value r) = Some (received r)"
proof (cases r)
  case (RBlueprints bs)
  then show ?thesis using read_list_map [of bs read_blueprint_info blueprint_info_to_value "\<lambda>x. x"]
    by (simp add: reading received_def)
next
  case (RProgress ts)
  then have "read_list (read_active_task pu) (JArr (map active_task_to_value ts)) = Some (map without_session ts)"
    using assms by (intro read_list_map) (auto simp: response_ok_def list_all_iff read_active_task_value)
  then show ?thesis using RProgress by (simp add: reading received_def)
qed (use assms in \<open>simp_all add: uuids_read_def reading received_def split: option.split\<close>)

end
