(* ===== verification/Uds.thy ===== *)
theory Uds
  imports Wire Paths
begin

text \<open>
  The two ends of the daemon's socket, \<open>src/janus/src/uds.rs\<close> and \<open>handle_conn\<close> of
  \<open>src/janus/src/bin/janus_daemon.rs\<close>, and the start of the daemon, \<open>src/janus/src/spawn.rs\<close>.

  A request is one line of JSON, and so is its response. The socket and the JSON crate are
  parameters; \<open>peer\<close> is the socket whose other end is the daemon, so that a client and the
  handler of the daemon can be put together. \<open>request_answered\<close> says that a client receives
  what the handler answered.
\<close>

section \<open>Lines\<close>

text \<open>serde's side: the printer, the parser, the text of an error, the parser of UUIDs and the
  order of a hash map.\<close>

record codec =
  sj_to_string :: "json \<Rightarrow> string"
  sj_from_str :: "string \<Rightarrow> json option"
  sj_error :: "string \<Rightarrow> string"
  sj_parse_uuid :: "string \<Rightarrow> uuid option"
  sj_order :: "(string \<Rightarrow> string option) \<Rightarrow> string list"

text \<open>\<open>read_line\<close> on the bytes that arrive before the end of the stream.\<close>

definition first_line :: "string \<Rightarrow> string" where
  "first_line s = takeWhile (\<lambda>c. c \<noteq> newline) s @ (if newline \<in> set s then [newline] else [])"

definition read_line :: "string \<Rightarrow> string option" where
  "read_line s = (if valid_utf8 (first_line s) then Some (first_line s) else None)"

definition decode_request :: "codec \<Rightarrow> string \<Rightarrow> request option" where
  "decode_request cd s = Option.bind (sj_from_str cd s) (request_from_value (sj_parse_uuid cd))"

definition decode_response :: "codec \<Rightarrow> string \<Rightarrow> response option" where
  "decode_response cd s = Option.bind (sj_from_str cd s) (response_from_value (sj_parse_uuid cd))"

definition encode_request :: "codec \<Rightarrow> request \<Rightarrow> string" where
  "encode_request cd r = sj_to_string cd (request_to_value (sj_order cd) r)"

definition encode_response :: "codec \<Rightarrow> response \<Rightarrow> string" where
  "encode_response cd r = sj_to_string cd (response_to_value r)"

section \<open>The client\<close>

record ('c, 'w) socket_ops =
  so_connect :: "string \<Rightarrow> (string, 'w, 'c) io"
  so_set_read_timeout :: "'c \<Rightarrow> nat \<Rightarrow> (string, 'w, unit) io"
  so_set_write_timeout :: "'c \<Rightarrow> nat \<Rightarrow> (string, 'w, unit) io"
  so_write_all :: "'c \<Rightarrow> string \<Rightarrow> (string, 'w, unit) io"
  so_read_line :: "'c \<Rightarrow> (string, 'w, string) io"

text \<open>Time-outs are in milliseconds.\<close>

definition DEFAULT_TIMEOUT :: nat where
  "DEFAULT_TIMEOUT = 3000"

definition request_to :: "('c, 'w) socket_ops \<Rightarrow> codec \<Rightarrow> string \<Rightarrow> request \<Rightarrow> nat \<Rightarrow>
    (string, 'w, response) io" where
  "request_to so cd sock req timeout =
     bindE (with_context ''connect janus.sock'' (so_connect so sock)) (\<lambda>c.
     bindE (so_set_read_timeout so c timeout) (\<lambda>_.
     bindE (so_set_write_timeout so c timeout) (\<lambda>_.
     bindE (so_write_all so c (encode_request cd req)) (\<lambda>_.
     bindE (so_write_all so c [newline]) (\<lambda>_.
     bindE (with_context ''read response'' (so_read_line so c)) (\<lambda>line.
       case decode_response cd (trim line) of
         None \<Rightarrow> fail ''decode response''
       | Some resp \<Rightarrow> ret resp))))))"

definition uds_request :: "('c, 'w) socket_ops \<Rightarrow> codec \<Rightarrow> env \<Rightarrow> request \<Rightarrow> (string, 'w, response) io" where
  "uds_request so cd env req = request_to so cd (sock_path env) req DEFAULT_TIMEOUT"

definition is_daemon_listening :: "('c, 'w) socket_ops \<Rightarrow> env \<Rightarrow> (string, 'w, bool) io" where
  "is_daemon_listening so env =
     bindE (attempt (so_connect so (sock_path env))) (\<lambda>r. ret (case r of Inr _ \<Rightarrow> True | Inl _ \<Rightarrow> False))"

section \<open>The server\<close>

type_synonym 'w handler = "request \<Rightarrow> 'w \<Rightarrow> (response \<times> 'w) option"

text \<open>The bytes that a connection writes; a handler that panics or does not return is \<open>None\<close>.\<close>

definition handle_conn :: "codec \<Rightarrow> 'w handler \<Rightarrow> string option \<Rightarrow> 'w \<Rightarrow> (string \<times> 'w) option" where
  "handle_conn cd handler line w =
     (case line of
        None \<Rightarrow> Some ([], w)
      | Some l \<Rightarrow>
          if trim l = [] then Some ([], w)
          else case decode_request cd (trim l) of
            Some req \<Rightarrow> map_option (\<lambda>(resp, w'). (encode_response cd resp @ [newline], w')) (handler req w)
          | None \<Rightarrow>
              Some (encode_response cd (RError (''bad request: '' @ sj_error cd (trim l))) @ [newline], w))"

section \<open>Both ends\<close>

text \<open>A connection to the daemon: the daemon's world, the bytes sent, and the bytes that came
  back. The daemon answers when the line is complete.\<close>

definition peer_read_line :: "codec \<Rightarrow> 'w handler \<Rightarrow> (string, 'w \<times> string, string) io" where
  "peer_read_line cd handler = (\<lambda>(w, sent).
     case handle_conn cd handler (read_line sent) w of
       None \<Rightarrow> None
     | Some (out, w') \<Rightarrow>
         (case read_line out of
            Some line \<Rightarrow> Some (Inr line, w', [])
          | None \<Rightarrow> Some (Inl ''stream did not contain valid UTF-8'', w', [])))"

definition peer :: "codec \<Rightarrow> 'w handler \<Rightarrow> (unit, 'w \<times> string) socket_ops" where
  "peer cd handler = \<lparr>so_connect = (\<lambda>_ (w, _). Some (Inr (), w, [])),
     so_set_read_timeout = (\<lambda>_ _. ret ()), so_set_write_timeout = (\<lambda>_ _. ret ()),
     so_write_all = (\<lambda>_ s (w, sent). Some (Inr (), w, sent @ s)),
     so_read_line = (\<lambda>_. peer_read_line cd handler)\<rparr>"

text \<open>What the crate documents of a value that it prints: one line of valid UTF-8 without space
  around it, which is read back.\<close>

definition carries :: "codec \<Rightarrow> json \<Rightarrow> bool" where
  "carries cd v =
     (let s = sj_to_string cd v in
      s \<noteq> [] \<and> newline \<notin> set s \<and> valid_utf8 (s @ [newline]) \<and> trim (s @ [newline]) = s \<and>
      sj_from_str cd s = Some v)"

lemma read_line_carried:
  "carries cd v \<Longrightarrow> read_line (sj_to_string cd v @ [newline]) = Some (sj_to_string cd v @ [newline])"
proof -
  assume c: "carries cd v"
  let ?s = "sj_to_string cd v"
  have "takeWhile (\<lambda>c. c \<noteq> newline) (?s @ [newline]) = ?s"
    by (subst takeWhile_append2) (use c in \<open>auto simp: carries_def Let_def\<close>)
  then show ?thesis using c by (simp add: read_line_def first_line_def carries_def Let_def)
qed

lemma handle_conn_carried:
  assumes "carries cd (request_to_value (sj_order cd) req)" "uuids_read (sj_parse_uuid cd)"
    "enumerates (sj_order cd) req"
  shows "handle_conn cd handler (read_line (encode_request cd req @ [newline])) w =
     map_option (\<lambda>(resp, w'). (encode_response cd resp @ [newline], w')) (handler req w)"
proof -
  have "trim (encode_request cd req @ [newline]) = encode_request cd req" "encode_request cd req \<noteq> []"
    "decode_request cd (encode_request cd req) = Some req"
    using assms request_roundtrip [of "sj_parse_uuid cd" "sj_order cd" req]
    by (simp_all add: carries_def encode_request_def decode_request_def Let_def)
  then show ?thesis
    using read_line_carried [OF assms(1)] by (simp add: handle_conn_def encode_request_def)
qed

lemma peer_answers:
  assumes "carries cd (request_to_value (sj_order cd) req)" "uuids_read (sj_parse_uuid cd)"
    "enumerates (sj_order cd) req" "handler req w = Some (resp, w')"
    "carries cd (response_to_value resp)" "response_ok resp"
  shows "request_to (peer cd handler) cd sock req timeout (w, junk) = Some (Inr (received resp), w', [])"
proof -
  have "peer_read_line cd handler (w, encode_request cd req @ [newline]) =
      Some (Inr (encode_response cd resp @ [newline]), w', [])"
    using handle_conn_carried [OF assms(1-3), of handler w] assms(4) read_line_carried [OF assms(5)]
    by (simp add: peer_read_line_def encode_response_def)
  moreover have "decode_response cd (trim (encode_response cd resp @ [newline])) = Some (received resp)"
    using assms(5) response_roundtrip [OF assms(2,6)]
    by (simp add: encode_response_def decode_response_def carries_def Let_def)
  ultimately show ?thesis
    by (simp add: request_to_def peer_def bindE_def with_context_def ret_def)
qed

text \<open>C23: a client that is connected to the daemon receives what the daemon's handler answered to
  exactly the request that the client sent, and the daemon is left as the handler left it; of a
  progress report the session names stay behind.\<close>

theorem request_answered:
  assumes "carries cd (request_to_value (sj_order cd) req)" "uuids_read (sj_parse_uuid cd)"
    "enumerates (sj_order cd) req" "handler req w = Some (resp, w')"
    "carries cd (response_to_value resp)" "response_ok resp"
  shows "request_to (peer cd handler) cd sock req timeout (w, junk) = Some (Inr (received resp), w', [])"
  using assms by (rule peer_answers)

definition ping_pong :: codec where
  "ping_pong = \<lparr>sj_to_string = (\<lambda>v. if v = request_to_value (\<lambda>_. []) Ping then ''{\"type\":\"ping\"}'' else ''{\"type\":\"pong\"}''),
     sj_from_str = (\<lambda>s. if s = ''{\"type\":\"ping\"}'' then Some (request_to_value (\<lambda>_. []) Ping)
       else Some (response_to_value RPong)),
     sj_error = (\<lambda>_. []), sj_parse_uuid = uuid_read, sj_order = (\<lambda>_. [])\<rparr>"

lemma request_answered_witness:
  "request_to (peer ping_pong (\<lambda>r n. Some (RPong, Suc n))) ping_pong ''janus.sock'' Ping 3000 (7, []) =
     Some (Inr RPong, 8 :: nat, [])"
proof -
  have "uuids_read (sj_parse_uuid ping_pong)" by (simp add: uuids_read_def ping_pong_def uuid_read_string)
  moreover have "carries ping_pong (request_to_value (sj_order ping_pong) Ping)"
    "carries ping_pong (response_to_value RPong)" "response_ok RPong" by code_simp+
  moreover have "enumerates (sj_order ping_pong) Ping" by (simp add: enumerates_def)
  ultimately show ?thesis
    using request_answered [of ping_pong Ping "\<lambda>r n. Some (RPong, Suc n)" 7 RPong 8 "''janus.sock''" 3000 "[]"]
    by (simp add: received_def)
qed

section \<open>Starting the daemon\<close>

text \<open>The executables: a variable, beside the current program, or the plugin's \<open>bin\<close>.\<close>

definition resolve_exe :: "string \<Rightarrow> string \<Rightarrow> env \<Rightarrow> string option \<Rightarrow> (string \<Rightarrow> bool) \<Rightarrow> string + string" where
  "resolve_exe var name env current_exe exists =
     (case env var of
        Some p \<Rightarrow> Inr p
      | None \<Rightarrow>
          let sibling = map_option (\<lambda>dir. path_join dir name) (Option.bind current_exe path_parent);
              plugin = map_option (\<lambda>root. path_join (path_join root ''bin'') name) (env ''HERDR_PLUGIN_ROOT'') in
          (case List.find exists ((case sibling of Some p \<Rightarrow> [p] | None \<Rightarrow> []) @
              (case plugin of Some p \<Rightarrow> [p] | None \<Rightarrow> [])) of
             Some p \<Rightarrow> Inr p
           | None \<Rightarrow> Inl (name @ '' binary not found; run `make compile` or set '' @ var)))"

definition resolve_daemon_exe :: "env \<Rightarrow> string option \<Rightarrow> (string \<Rightarrow> bool) \<Rightarrow> string + string" where
  "resolve_daemon_exe = resolve_exe ''JANUS_DAEMON_BIN'' ''janus-daemon''"

definition resolve_janush_exe :: "env \<Rightarrow> string option \<Rightarrow> (string \<Rightarrow> bool) \<Rightarrow> string + string" where
  "resolve_janush_exe = resolve_exe ''JANUS_JANUSH_BIN'' ''janush''"

text \<open>\<open>spawn\<close> starts a program with its standard streams on \<open>/dev/null\<close>, in a session of its own.
  \<open>sleep\<close> sleeps for some milliseconds and says by how much longer it took, the connection
  attempt that follows included.\<close>

record 'w starter =
  st_env :: env
  st_current_exe :: "string option"
  st_exists :: "string \<Rightarrow> bool"
  st_spawn :: "string \<Rightarrow> (string, 'w, unit) io"
  st_listening :: "'w \<Rightarrow> bool \<times> 'w"
  st_sleep :: "nat \<Rightarrow> 'w \<Rightarrow> nat \<times> 'w"

definition spawn_daemon_detached :: "'w starter \<Rightarrow> (string, 'w, unit) io" where
  "spawn_daemon_detached st =
     (case resolve_daemon_exe (st_env st) (st_current_exe st) (st_exists st) of
        Inl e \<Rightarrow> fail e
      | Inr exe \<Rightarrow> with_context (''spawn '' @ exe) (st_spawn st exe))"

function await_daemon :: "'w starter \<Rightarrow> nat \<Rightarrow> nat \<Rightarrow> 'w \<Rightarrow> bool \<times> 'w" where
  "await_daemon st now deadline w =
     (if now < deadline then
        (let (late, w1) = st_sleep st 100 w; (up, w2) = st_listening st w1 in
         if up then (True, w2) else await_daemon st (now + 100 + late) deadline w2)
      else (False, w))"
  by pat_completeness auto
termination
  by (relation "measure (\<lambda>(st, now, deadline, w). deadline - now)") auto

declare await_daemon.simps [simp del]

definition ensure_daemon :: "'w starter \<Rightarrow> (nat \<Rightarrow> string) \<Rightarrow> nat \<Rightarrow> (string, 'w, unit) io" where
  "ensure_daemon st show_duration timeout w =
     (let (up, w1) = st_listening st w in
      if up then ret () w1
      else bindE (spawn_daemon_detached st) (\<lambda>_ w2.
        let (up', w3) = await_daemon st 0 timeout w2 in
        if up' then ret () w3
        else fail (''janus-daemon did not become reachable within '' @ show_duration timeout @
          '' (check '' @ log_path (st_env st) @ '')'') w3) w1)"

end
