(* ===== verification/Cognitive.thy ===== *)
theory Cognitive
  imports Uds Recipe
begin

text \<open>
  The cognitive layer, \<open>src/janus/src/cognitive/mod.rs\<close>: an optional adviser of a blueprint that
  may object to a command and that adds to the report of an offboarded blueprint.

  The trait is the record \<open>provider\<close>. The provider of the code-base memory speaks JSON-RPC to a
  child process, one process per call; processes and pipes are the parameter \<open>child_ops\<close>. Both
  pipes are requested at the start, so their handles are there. A call that ends leaves no process
  behind, whichever way it ends; the daemon does not wait for one that takes too long, and nothing
  then bounds the life of its process.
\<close>

section \<open>Providers\<close>

datatype cognitive_error = Unreachable string | Query_timeout

text \<open>In milliseconds.\<close>

definition VALIDATE_TIMEOUT :: nat where
  "VALIDATE_TIMEOUT = 2000"

record 'g provider =
  validate_command :: "string \<Rightarrow> string list \<Rightarrow> string option \<Rightarrow> (cognitive_error, 'g, string option) io"
  extract_knowledge :: "string \<Rightarrow> (cognitive_error, 'g, string) io"

definition noop_provider :: "'g provider" where
  "noop_provider = \<lparr>validate_command = (\<lambda>_ _ _. ret None), extract_knowledge = (\<lambda>_. ret [])\<rparr>"

section \<open>One call\<close>

text \<open>\<open>ch_recv\<close> waits for the line of the reader thread: \<open>None\<close> when the time has passed.
  \<open>ch_kill\<close> kills the process and waits for it.\<close>

record ('c, 'g) child_ops =
  ch_spawn :: "string \<Rightarrow> string list \<Rightarrow> (string, 'g, 'c) io"
  ch_write_all :: "'c \<Rightarrow> string \<Rightarrow> (string, 'g, unit) io"
  ch_flush :: "'c \<Rightarrow> (string, 'g, unit) io"
  ch_close_stdin :: "'c \<Rightarrow> 'g \<Rightarrow> 'g"
  ch_recv :: "'c \<Rightarrow> nat \<Rightarrow> 'g \<Rightarrow> (string + string) option \<times> 'g"
  ch_kill :: "'c \<Rightarrow> 'g \<Rightarrow> 'g"

definition map_err :: "('e \<Rightarrow> 'f) \<Rightarrow> ('e, 'w, 'a) io \<Rightarrow> ('f, 'w, 'a) io" where
  "map_err f m w = map_option (\<lambda>(r, w'). (map_sum f id r, w')) (m w)"

text \<open>A guard whose destructor is \<open>f\<close>.\<close>

definition with_guard :: "('w \<Rightarrow> 'w) \<Rightarrow> ('e, 'w, 'a) io \<Rightarrow> ('e, 'w, 'a) io" where
  "with_guard f m w = map_option (\<lambda>(r, w'). (r, f w')) (m w)"

definition rpc_request :: "string \<Rightarrow> json \<Rightarrow> json" where
  "rpc_request tool arguments =
     JObj [(''jsonrpc'', JStr ''2.0''), (''id'', JInt 1), (''method'', JStr ''tools/call''),
       (''params'', JObj [(''name'', JStr tool), (''arguments'', arguments)])]"

definition receive_line :: "('c, 'g) child_ops \<Rightarrow> 'c \<Rightarrow> nat \<Rightarrow> (cognitive_error, 'g, string) io" where
  "receive_line co c timeout g =
     (let (r, g') = ch_recv co c timeout g in
      case r of
        Some (Inr line) \<Rightarrow> ret line g'
      | Some (Inl e) \<Rightarrow> fail (Unreachable (''read: '' @ e)) g'
      | None \<Rightarrow> fail Query_timeout g')"

definition rpc_result :: "codec \<Rightarrow> string \<Rightarrow> (cognitive_error, 'g, json) io" where
  "rpc_result cd line =
     (case sj_from_str cd (trim line) of
        None \<Rightarrow> fail (Unreachable (''parse response: '' @ sj_error cd (trim line)))
      | Some v \<Rightarrow> ret (case json_get ''result'' v of Some r \<Rightarrow> r | None \<Rightarrow> JNull))"

definition mcp_exchange :: "('c, 'g) child_ops \<Rightarrow> codec \<Rightarrow> string \<Rightarrow> json \<Rightarrow> nat \<Rightarrow> 'c \<Rightarrow>
    (cognitive_error, 'g, json) io" where
  "mcp_exchange co cd tool arguments timeout c =
     bindE (map_err (\<lambda>e. Unreachable (''write: '' @ e))
       (ch_write_all co c (sj_to_string cd (rpc_request tool arguments) @ [newline]))) (\<lambda>_.
     bindE (map_err (\<lambda>e. Unreachable (''flush: '' @ e)) (ch_flush co c)) (\<lambda>_.
     bindE (modify (ch_close_stdin co c)) (\<lambda>_.
     bindE (receive_line co c timeout) (\<lambda>line. rpc_result cd line))))"

definition mcp_call :: "('c, 'g) child_ops \<Rightarrow> codec \<Rightarrow> string \<Rightarrow> string list \<Rightarrow> string \<Rightarrow> json \<Rightarrow> nat \<Rightarrow>
    (cognitive_error, 'g, json) io" where
  "mcp_call co cd command args tool arguments timeout =
     bindE (map_err (\<lambda>e. Unreachable (''spawn `'' @ command @ ''`: '' @ e)) (ch_spawn co command args)) (\<lambda>c.
       with_guard (ch_kill co c) (mcp_exchange co cd tool arguments timeout c))"

section \<open>The provider of the code-base memory\<close>

definition json_index :: "nat \<Rightarrow> json \<Rightarrow> json option" where
  "json_index i v = (case v of JArr vs \<Rightarrow> if i < length vs then Some (vs ! i) else None | _ \<Rightarrow> None)"

definition extract_text :: "json \<Rightarrow> string option" where
  "extract_text result =
     Option.bind (Option.bind (Option.bind (json_get ''content'' result) (json_index 0)) (json_get ''text''))
       as_str"

definition mcp_provider :: "('c, 'g) child_ops \<Rightarrow> codec \<Rightarrow> string \<Rightarrow> string list \<Rightarrow> nat \<Rightarrow> 'g provider" where
  "mcp_provider co cd command args timeout_secs =
     \<lparr>validate_command = (\<lambda>bp argv cwd.
        bindE (mcp_call co cd command args ''validate_command''
          (JObj [(''blueprint'', JStr bp), (''argv'', json_strings argv), (''cwd'', json_opt JStr cwd)])
          VALIDATE_TIMEOUT) (\<lambda>result.
          ret (case extract_text result of Some t \<Rightarrow> if t \<noteq> [] then Some t else None | None \<Rightarrow> None))),
      extract_knowledge = (\<lambda>bp.
        bindE (mcp_call co cd command args ''extract_knowledge'' (JObj [(''blueprint'', JStr bp)])
          (1000 * max timeout_secs 1)) (\<lambda>result.
          ret (case extract_text result of Some t \<Rightarrow> t | None \<Rightarrow> [])))\<rparr>"

definition load_for_blueprint :: "('c, 'g) child_ops \<Rightarrow> codec \<Rightarrow> blueprint_recipe \<Rightarrow> 'g provider" where
  "load_for_blueprint co cd recipe =
     (case br_cognitive recipe of
        Some (Some cm) \<Rightarrow> mcp_provider co cd (cm_command cm) (cm_args cm) (cm_timeout_secs cm)
      | _ \<Rightarrow> noop_provider)"

section \<open>The daemon's questions\<close>

text \<open>\<open>cognitive_check\<close> of the daemon. The call runs on a thread of its own under a time-out of two
  seconds. \<open>late\<close> says that the time-out comes before the end of the call, and \<open>expired\<close> is the
  machine at the time-out: the thread still runs then, and its process may still live. An
  endless call meets the time-out whatever \<open>late\<close> is.\<close>

definition cognitive_check :: "('c, 'g) child_ops \<Rightarrow> codec \<Rightarrow> toml_parsers \<Rightarrow> fs \<Rightarrow> string \<Rightarrow> bool \<Rightarrow>
    'g \<Rightarrow> string \<Rightarrow> string list \<Rightarrow> string option \<Rightarrow> 'g \<Rightarrow> string option \<times> 'g" where
  "cognitive_check co cd toml fs root late expired bp argv cwd g =
     (case load_recipe toml fs bp root of
        Inl _ \<Rightarrow> (None, g)
      | Inr recipe \<Rightarrow>
          (case validate_command (load_for_blueprint co cd recipe) bp argv cwd g of
             None \<Rightarrow> (None, expired)
           | Some (r, g') \<Rightarrow>
               if late then (None, expired)
               else ((case r of Inr reason \<Rightarrow> reason | Inl _ \<Rightarrow> None), g')))"

text \<open>\<open>cognitive_supplement\<close> of the life cycle. The call has no time-out of its own around it, so
  one that does not return keeps the offboarding from returning.\<close>

definition cognitive_supplement :: "('c, 'g) child_ops \<Rightarrow> codec \<Rightarrow> toml_parsers \<Rightarrow> fs \<Rightarrow> string \<Rightarrow>
    string \<Rightarrow> string \<Rightarrow> ('e, 'g, string) io" where
  "cognitive_supplement co cd toml fs root report name g =
     (case load_recipe toml fs name root of
        Inl _ \<Rightarrow> ret report g
      | Inr recipe \<Rightarrow>
          (case extract_knowledge (load_for_blueprint co cd recipe) name g of
             None \<Rightarrow> None
           | Some (r, g') \<Rightarrow>
               ret (case r of
                   Inr t \<Rightarrow>
                     if trim t \<noteq> []
                     then report @ [newline, newline] @ ''## Cognitive Provider Summary'' @
                       [newline, newline] @ t @ [newline]
                     else report
                 | Inl _ \<Rightarrow> report) g'))"

section \<open>No process is left behind\<close>

text \<open>The processes that are alive, and what the operations do to them.\<close>

definition reaps :: "('c, 'g) child_ops \<Rightarrow> ('g \<Rightarrow> 'c set) \<Rightarrow> bool" where
  "reaps co live =
     ((\<forall>cmd args g r g'. ch_spawn co cmd args g = Some (r, g') \<longrightarrow>
         (case r of Inl _ \<Rightarrow> live g' = live g | Inr c \<Rightarrow> c \<notin> live g \<and> live g' = insert c (live g))) \<and>
      (\<forall>c s. keeps (\<lambda>g g'. live g' = live g) (ch_write_all co c s)) \<and>
      (\<forall>c. keeps (\<lambda>g g'. live g' = live g) (ch_flush co c)) \<and>
      (\<forall>c g. live (ch_close_stdin co c g) = live g) \<and>
      (\<forall>c t g. live (snd (ch_recv co c t g)) = live g) \<and>
      (\<forall>c g. live (ch_kill co c g) = live g - {c}))"

lemma map_err_io [io_simps]:
  "map_err f m w = Some (r, w') \<longleftrightarrow>
     (\<exists>e. m w = Some (Inl e, w') \<and> r = Inl (f e)) \<or> (\<exists>x. m w = Some (Inr x, w') \<and> r = Inr x)"
proof (cases "m w")
  case (Some a)
  then show ?thesis by (cases a; cases "fst a") (auto simp: map_err_def)
qed (simp add: map_err_def)

lemma keeps_map_err [keeps_intros]: "keeps R m \<Longrightarrow> keeps R (map_err f m)"
  by (auto simp: keeps_def map_err_io)

lemma mcp_exchange_live:
  assumes "reaps co live"
  shows "keeps (\<lambda>g g'. live g' = live g) (mcp_exchange co cd tool arguments timeout c)"
proof -
  have refl: "reflp (\<lambda>g g'. live g' = live g)" and trans: "transp (\<lambda>g g'. live g' = live g)"
    by (auto intro: reflpI transpI)
  have "keeps (\<lambda>g g'. live g' = live g) (modify (ch_close_stdin co c))"
    using assms by (auto simp: keeps_def modify_io reaps_def)
  moreover have "keeps (\<lambda>g g'. live g' = live g) (receive_line co c timeout)"
    using assms by (auto simp: keeps_def receive_line_def reaps_def io_simps split: prod.splits
        option.splits sum.splits) (metis snd_conv)+
  moreover have "keeps (\<lambda>g g'. live g' = live g) (rpc_result cd line :: (_, _, _) io)" for line
    by (auto simp: rpc_result_def intro: keeps_intros refl split: option.split)
  ultimately show ?thesis unfolding mcp_exchange_def
    using assms by (auto simp: reaps_def intro!: keeps_intros refl trans)
qed

lemma mcp_call_live:
  assumes "reaps co live" "mcp_call co cd command args tool arguments timeout g = Some (r, g')"
  shows "live g' = live g"
proof -
  consider (no) e where "ch_spawn co command args g = Some (Inl e, g')"
    | (yes) c g1 r' g2 where "ch_spawn co command args g = Some (Inr c, g1)"
      "mcp_exchange co cd tool arguments timeout c g1 = Some (r', g2)" "g' = ch_kill co c g2"
    using assms(2) by (auto simp: mcp_call_def io_simps with_guard_def)
  then show ?thesis
  proof cases
    case no
    with assms(1) show ?thesis by (fastforce simp: reaps_def)
  next
    case yes
    have "c \<notin> live g" "live g1 = insert c (live g)"
      using assms(1) yes(1) by (fastforce simp: reaps_def)+
    moreover have "live g2 = live g1"
      using keepsD [OF mcp_exchange_live [OF assms(1)] yes(2)] .
    ultimately show ?thesis using assms(1) yes(3) by (simp add: reaps_def)
  qed
qed


lemma provider_live:
  assumes "reaps co live"
  shows "validate_command (load_for_blueprint co cd recipe) bp argv cwd g = Some (r, g') \<Longrightarrow> live g' = live g"
    and "extract_knowledge (load_for_blueprint co cd recipe) bp g = Some (r2, g') \<Longrightarrow> live g' = live g"
  by (auto simp: load_for_blueprint_def noop_provider_def mcp_provider_def io_simps
      split: option.splits dest: mcp_call_live [OF assms])

lemma validate_reason:
  "validate_command (load_for_blueprint co cd recipe) bp argv cwd g = Some (Inr (Some reason), g') \<Longrightarrow>
     reason \<noteq> [] \<and> (\<exists>cm. br_cognitive recipe = Some (Some cm))"
  by (auto simp: load_for_blueprint_def noop_provider_def mcp_provider_def io_simps
      split: option.splits if_splits)

text \<open>C26: what a provider can add to a check, and what its call leaves behind. The check objects only
  with a non-empty reason from the provider that the recipe of the blueprint configures, and only
  when the call ends before the time-out; every process of such a call is gone when the check
  returns. When the time-out comes first, or the call never ends, the command passes on, and
  the machine is as the time-out finds it: nothing is said of the process of that call.\<close>

theorem cognitive_check_advice:
  assumes "reaps co live"
    and "cognitive_check co cd toml fs root late expired bp argv cwd g = (advice, g')"
  shows "case load_recipe toml fs bp root of
      Inl _ \<Rightarrow> advice = None \<and> g' = g
    | Inr recipe \<Rightarrow>
        (if late \<or> validate_command (load_for_blueprint co cd recipe) bp argv cwd g = None
         then advice = None \<and> g' = expired
         else live g' = live g \<and>
           (case advice of None \<Rightarrow> True
            | Some reason \<Rightarrow> reason \<noteq> [] \<and> (\<exists>cm. br_cognitive recipe = Some (Some cm))))"
proof (cases "load_recipe toml fs bp root")
  case (Inl e)
  then show ?thesis using assms(2) by (simp add: cognitive_check_def)
next
  case (Inr recipe)
  show ?thesis
  proof (cases "validate_command (load_for_blueprint co cd recipe) bp argv cwd g")
    case None
    then show ?thesis using assms(2) Inr by (simp add: cognitive_check_def)
  next
    case (Some rg)
    obtain r g2 where rg: "rg = (r, g2)" by force
    then have live: "live g2 = live g"
      using provider_live(1) [OF assms(1), of cd recipe bp argv cwd g r g2] Some by simp
    show ?thesis
    proof (cases "late \<or> advice = None")
      case True
      then show ?thesis using assms(2) Inr Some rg live
        by (auto simp: cognitive_check_def split: if_splits)
    next
      case False
      then obtain reason where "r = Inr (Some reason)" "advice = Some reason" "g' = g2"
        using assms(2) Inr Some rg by (auto simp: cognitive_check_def split: sum.splits)
      then show ?thesis
        using validate_reason [of co cd recipe bp argv cwd g reason g2] Some rg live Inr False by simp
    qed
  qed
qed

text \<open>The write of the request has no time limit, so a server that never reads its input and fills
  the pipe keeps the call from ending: the check passes the command on after its two
  seconds, and the process is never killed.\<close>

theorem unread_request_never_ends:
  assumes "load_recipe toml fs bp root = Inr recipe" "br_cognitive recipe = Some (Some cm)"
    and "ch_spawn co (cm_command cm) (cm_args cm) g = Some (Inr c, g1)"
    and "\<And>request. ch_write_all co c request g1 = None"
  shows "cognitive_check co cd toml fs root late expired bp argv cwd g = (None, expired)"
proof -
  have "validate_command (load_for_blueprint co cd recipe) bp argv cwd g = None"
    using assms(2-4)
    by (simp add: load_for_blueprint_def mcp_provider_def mcp_call_def mcp_exchange_def bindE_def
        map_err_def with_guard_def)
  then show ?thesis using assms(1) by (simp add: cognitive_check_def)
qed

text \<open>A process table, and a server that always objects.\<close>

definition toy_children :: "(nat, nat list) child_ops" where
  "toy_children = \<lparr>ch_spawn = (\<lambda>_ _ g. Some (Inr (Suc (sum_list g)), Suc (sum_list g) # g)),
     ch_write_all = (\<lambda>_ _. ret ()), ch_flush = (\<lambda>_. ret ()), ch_close_stdin = (\<lambda>_ g. g),
     ch_recv = (\<lambda>_ _ g. (Some (Inr ''no''), g)), ch_kill = (\<lambda>c g. filter (\<lambda>d. d \<noteq> c) g)\<rparr>"

definition toy_codec :: codec where
  "toy_codec = \<lparr>sj_to_string = (\<lambda>_. []),
     sj_from_str = (\<lambda>s. Some (JObj [(''result'', JObj [(''content'',
       JArr [JObj [(''type'', JStr ''text''), (''text'', JStr s)]])])])),
     sj_error = (\<lambda>_. []), sj_parse_uuid = uuid_read, sj_order = (\<lambda>_. [])\<rparr>"

definition advised_recipe :: blueprint_recipe where
  "advised_recipe = \<lparr>br_blueprint = \<lparr>bs_name = ''bp'', bs_default_workflow = ''dev''\<rparr>, br_remote = None,
     br_openwiki_scope = [''s''],
     br_cognitive = Some (Some \<lparr>cm_transport = ''stdio'', cm_command = ''mcp'', cm_args = [], cm_timeout_secs = 5\<rparr>)\<rparr>"

definition advised_toml :: toml_parsers where
  "advised_toml = \<lparr>toml_recipe = (\<lambda>_. Some advised_recipe), toml_workflow = (\<lambda>_. None),
     toml_dag = (\<lambda>_. None)\<rparr>"

lemma toy_reaps: "reaps toy_children set"
proof -
  have "Suc (sum_list g) \<notin> set g" for g :: "nat list"
    using member_le_sum_list [of "Suc (sum_list g)" g] by auto
  then show ?thesis by (auto simp: reaps_def toy_children_def keeps_def ret_def)
qed

lemma cognitive_check_advice_witness:
  "\<exists>g'. cognitive_check toy_children toy_codec advised_toml (\<lambda>_. Some (File [])) ''/r'' False [4, 3] ''bp'' [''ls''] None [3]
     = (Some ''no'', g') \<and> set g' = {3}"
proof -
  have c: "cognitive_check toy_children toy_codec advised_toml (\<lambda>_. Some (File [])) ''/r'' False [4, 3] ''bp'' [''ls''] None [3]
     = (Some ''no'', [3])" by code_simp
  from cognitive_check_advice [OF toy_reaps c] c show ?thesis
    by (auto simp: cognitive_check_def split: sum.splits if_splits)
qed

text \<open>A server that never reads.\<close>

lemma unread_request_never_ends_witness:
  "cognitive_check (toy_children\<lparr>ch_write_all := (\<lambda>_ _ _. None)\<rparr>) toy_codec advised_toml
     (\<lambda>_. Some (File [])) ''/r'' False [4, 3] ''bp'' [''ls''] None [3] = (None, [4, 3])"
  by (rule unread_request_never_ends [where recipe = advised_recipe and c = 4 and ?g1.0 = "[4, 3]" and
      cm = "\<lparr>cm_transport = ''stdio'', cm_command = ''mcp'', cm_args = [], cm_timeout_secs = 5\<rparr>"])
     (code_simp, simp_all add: advised_recipe_def toy_children_def)

end
