(* ===== verification/Guard_Service.thy ===== *)
theory Guard_Service
  imports Workflow_Engine Tool_Guard Gateway Cognitive
begin

text \<open>
  The daemon's answer to a proxy shell, \<open>GuardCheck\<close> in \<open>handle_request\<close> of
  \<open>src/janus/src/bin/janus_daemon.rs\<close>, with the suspension that it starts in the background, the
  approval of a step by the terminal interface (\<open>GateAction\<close>) and the sink of the gateway's
  verdicts (\<open>DbVerdictSink\<close>); and the proxy shell itself, \<open>src/janus/src/bin/janush.rs\<close>.

  The state of the daemon is the world of the workflow engine with the tool guard, the
  gateway and the tasks that were spawned. \<open>dm_others\<close> is what the other tasks of the daemon do
  while a handler waits, with the time that passes.
\<close>

section \<open>The daemon's state\<close>

text \<open>Tasks that are spawned: a suspension, with the step that is suspended; a run of a workflow on
  a pool, with the path of the proxy shell; and the driver of the levels of a DAG, with the
  tasks of its first level.\<close>

datatype background =
    Suspension "(string \<times> uuid \<times> string) option" string webhook_payload
  | Workflow_run string validated_recipe string uuid string
  | Dag_driver "uuid list" "dag_node list list" "string \<Rightarrow> workflow option" string

text \<open>How the task of a run has ended.\<close>

datatype join_result = Joined_ok | Joined_err string | Joined_panic

record ('e, 'b, 'g) service =
  sv_world :: "('e, 'b, 'g) world"
  sv_guard :: guard_engine
  sv_gateway :: gw_state
  sv_spawned :: "background list"

type_synonym ('e, 'b, 'g, 'a) svc = "(string, ('e, 'b, 'g) service, 'a) io"

text \<open>The configuration, and the crates and processes that the daemon uses. \<open>dm_engine\<close> is the
  adapter on a pool, \<open>dm_factory\<close> the backends for a remote user, \<open>dm_local\<close> the local backend,
  \<open>dm_base\<close> the rest of what the workflow engine needs. \<open>dm_join\<close> waits for the task of a run and
  does what happens meanwhile; \<open>dm_set_retry_none\<close> and \<open>dm_expire_claim\<close> are the two statements
  on the tables of the engine that the cold start issues; \<open>dm_late\<close> says that the time-out of a
  cognitive check comes before the end of its call, and \<open>dm_expired\<close> is the machine at the time-out;
  \<open>dm_uuid\<close> draws a random UUID. The files
  are read from the state of the machine.\<close>

record ('c, 'e, 'b, 'g) server =
  dm_base :: "('e, 'b, 'g) daemon"
  dm_engine :: "string \<Rightarrow> 'e engine"
  dm_factory :: "string option \<Rightarrow> 'b factory"
  dm_others :: "nat \<Rightarrow> ('e, 'b, 'g) service \<Rightarrow> ('e, 'b, 'g) service"
  dm_codec :: codec
  dm_rx :: regex_crate
  dm_rules :: "'g \<Rightarrow> rule_env"
  dm_toml :: toml_parsers
  dm_fs :: "'g \<Rightarrow> fs"
  dm_children :: "('c, 'g) child_ops"
  dm_late :: "string \<Rightarrow> string list \<Rightarrow> 'g \<Rightarrow> bool"
  dm_expired :: "string \<Rightarrow> string list \<Rightarrow> 'g \<Rightarrow> 'g"
  dm_gateway :: gateway
  dm_pending_order :: "gw_state \<Rightarrow> string list"
  dm_rfc3339 :: "int \<Rightarrow> string"
  dm_current_exe :: "string option"
  dm_local :: "'b backend"
  dm_join :: "uuid \<Rightarrow> ('e, 'b, 'g) service \<Rightarrow> join_result \<times> ('e, 'b, 'g) service"
  dm_set_retry_none :: "string \<Rightarrow> string \<Rightarrow> uuid \<Rightarrow> (string, 'e, unit) io"
  dm_expire_claim :: "string \<Rightarrow> string \<Rightarrow> uuid \<Rightarrow> (string, 'e, unit) io"
  dm_uuid :: "('e, 'b, 'g) service \<Rightarrow> uuid"

definition machine_of :: "('e, 'b, 'g) service \<Rightarrow> 'g" where
  "machine_of s = wl_machine (sv_world s)"

definition files_of :: "('c, 'e, 'b, 'g) server \<Rightarrow> ('e, 'b, 'g) service \<Rightarrow> fs" where
  "files_of d s = dm_fs d (machine_of s)"

definition root_of :: "('c, 'e, 'b, 'g) server \<Rightarrow> string" where
  "root_of d = dn_root (dm_base d)"

text \<open>An await point, and operations at one.\<close>

definition awaits :: "('c, 'e, 'b, 'g) server \<Rightarrow> nat \<Rightarrow> ('e, 'b, 'g, unit) svc" where
  "awaits d ms = modify (dm_others d ms)"

definition in_world :: "('e, 'b, 'g, 'a) act \<Rightarrow> ('e, 'b, 'g, 'a) svc" where
  "in_world m s = map_option (\<lambda>(r, w). (r, s\<lparr>sv_world := w\<rparr>)) (m (sv_world s))"

definition svc_db :: "('c, 'e, 'b, 'g) server \<Rightarrow> 'a db_op \<Rightarrow> ('e, 'b, 'g, 'a) svc" where
  "svc_db d m = bindE (awaits d 0) (\<lambda>_. in_world (lift_db m))"

definition svc_engine :: "('c, 'e, 'b, 'g) server \<Rightarrow> (string, 'e, 'a) io \<Rightarrow> ('e, 'b, 'g, 'a) svc" where
  "svc_engine d m = bindE (awaits d 0) (\<lambda>_. in_world (lift_engine m))"

definition spawn_background :: "background \<Rightarrow> ('e, 'b, 'g, unit) svc" where
  "spawn_background b = modify (\<lambda>s. s\<lparr>sv_spawned := sv_spawned s @ [b]\<rparr>)"

section \<open>A command is checked\<close>

definition svc_evaluate :: "('c, 'e, 'b, 'g) server \<Rightarrow> string \<Rightarrow> string list \<Rightarrow> (string \<Rightarrow> string option) \<Rightarrow>
    ('e, 'b, 'g, verdict) svc" where
  "svc_evaluate d execution_id argv env s =
     (let (v, g) = guard_evaluate (dm_rx d) (dm_rules d (machine_of s)) execution_id argv env (sv_guard s) in
      ret v (s\<lparr>sv_guard := g\<rparr>))"

definition svc_cognitive :: "('c, 'e, 'b, 'g) server \<Rightarrow> string option \<Rightarrow> string list \<Rightarrow> string option \<Rightarrow>
    ('e, 'b, 'g, string option) svc" where
  "svc_cognitive d bp argv cwd =
     (case bp of
        None \<Rightarrow> ret None
      | Some b \<Rightarrow> bindE (awaits d 0) (\<lambda>_ s.
          let (advice, g) = cognitive_check (dm_children d) (dm_codec d) (dm_toml d) (files_of d s)
                (root_of d) (dm_late d b argv (machine_of s)) (dm_expired d b argv (machine_of s))
                b argv cwd (machine_of s) in
          ret advice (s\<lparr>sv_world := (sv_world s)\<lparr>wl_machine := g\<rparr>\<rparr>)))"

definition escalate :: "string option \<Rightarrow> verdict \<Rightarrow> verdict" where
  "escalate cognitive_context v =
     (case cognitive_context of
        Some ctx \<Rightarrow> \<lparr>v_kind = Block, v_reason = Some ctx, v_rewritten_argv = None,
          v_correlation_id = v_correlation_id v, v_cause = Some ''cognitive''\<rparr>
      | None \<Rightarrow> v)"

definition allow_approved :: "verdict \<Rightarrow> verdict" where
  "allow_approved v = \<lparr>v_kind = Allow, v_reason = None, v_rewritten_argv = None,
     v_correlation_id = v_correlation_id v, v_cause = None\<rparr>"

text \<open>The step that a request names.\<close>

definition named_step :: "string option \<Rightarrow> uuid option \<Rightarrow> string option \<Rightarrow> (string \<times> uuid \<times> string) option" where
  "named_step bp task_id step_name =
     (case (bp, task_id, step_name) of
        (Some b, Some t, Some s) \<Rightarrow> Some (b, t, s) | _ \<Rightarrow> None)"

definition resume_approved :: "('c, 'e, 'b, 'g) server \<Rightarrow> (string \<times> uuid \<times> string) option \<Rightarrow> verdict \<Rightarrow>
    ('e, 'b, 'g, verdict) svc" where
  "resume_approved d step v =
     (if v_cause v = Some ''require_approval'' then
        case step of
          Some (bp, tid, sn) \<Rightarrow>
            bindE (attempt (svc_db d (hitl_verdict bp tid sn))) (\<lambda>r.
              ret (if r = Inr (Some ''APPROVED'') then allow_approved v else v))
        | None \<Rightarrow> ret v
      else ret v)"

definition text_or_empty :: "string option \<Rightarrow> string" where
  "text_or_empty x = (case x of Some t \<Rightarrow> t | None \<Rightarrow> [])"

definition suspend_blocked :: "('c, 'e, 'b, 'g) server \<Rightarrow> string \<Rightarrow> string option \<Rightarrow> uuid option \<Rightarrow>
    string option \<Rightarrow> string list \<Rightarrow> verdict \<Rightarrow> ('e, 'b, 'g, unit) svc" where
  "suspend_blocked d execution_id bp task_id step_name argv v =
     (if v_cause v \<in> {Some ''blacklist'', Some ''require_approval''} then
        bindE (gets (\<lambda>s. webhook_build (gw_timeout_var (dm_gateway d)) (dm_rfc3339 d)
          (gs_now (sv_gateway s)) task_id execution_id (v_correlation_id v) (text_or_empty (v_cause v))
          (join '' '' argv) (text_or_empty (v_reason v)) (text_or_empty bp) (text_or_empty step_name)))
        (\<lambda>payload. spawn_background
          (Suspension (named_step bp task_id step_name) (text_or_empty (v_reason v)) payload))
      else ret ())"

definition guard_check :: "('c, 'e, 'b, 'g) server \<Rightarrow> string \<Rightarrow> string option \<Rightarrow> uuid option \<Rightarrow>
    string option \<Rightarrow> string option \<Rightarrow> string list \<Rightarrow> (string \<Rightarrow> string option) \<Rightarrow>
    ('e, 'b, 'g, response) svc" where
  "guard_check d execution_id bp task_id step_name cwd argv env =
     bindE (svc_evaluate d execution_id argv env) (\<lambda>v1.
     bindE (svc_cognitive d bp argv cwd) (\<lambda>cognitive_context.
     bindE (resume_approved d (named_step bp task_id step_name) (escalate cognitive_context v1)) (\<lambda>v.
     bindE (suspend_blocked d execution_id bp task_id step_name argv v) (\<lambda>_.
     ret (RGuardVerdict execution_id (kind_str (v_kind v)) (v_reason v) (v_rewritten_argv v)
       (v_correlation_id v) cognitive_context)))))"

text \<open>The suspension itself: the row, if the request names a step, then the gateway. An error of
  the database is only logged.\<close>

definition run_suspension :: "('c, 'e, 'b, 'g) server \<Rightarrow> (string \<times> uuid \<times> string) option \<Rightarrow> string \<Rightarrow>
    webhook_payload \<Rightarrow> ('e, 'b, 'g, unit) svc" where
  "run_suspension d step reason payload =
     bindE (case step of
         Some (bp, tid, sn) \<Rightarrow> ignore (svc_db d (suspend_step bp tid sn reason))
       | None \<Rightarrow> ret ()) (\<lambda>_ s.
       case Gateway.dispatch (dm_gateway d) payload (sv_gateway s) of
         None \<Rightarrow> None
       | Some g \<Rightarrow> ret () (s\<lparr>sv_gateway := g\<rparr>))"

section \<open>A step is approved\<close>

definition quoted :: "string \<Rightarrow> string" where
  "quoted t = [CHR 0x22] @ t @ [CHR 0x22]"

definition gate_action :: "('c, 'e, 'b, 'g) server \<Rightarrow> uuid \<Rightarrow> bool \<Rightarrow> ('e, 'b, 'g, response) svc" where
  "gate_action d task_id approve s =
     (case find_correlation_by_task (dm_pending_order d (sv_gateway s)) task_id (sv_gateway s) of
        None \<Rightarrow> ret (RError ''no pending HITL verdict for this task'') s
      | Some cid \<Rightarrow>
          (let (st, g) = resolve_tui (dm_gateway d) cid approve (sv_gateway s) in
           ret (if st = Gateway.Resolved then ROk ''verdict delivered''
                else RError (''gateway: '' @ quoted (snd (status_parts st)))) (s\<lparr>sv_gateway := g\<rparr>)))"

fun verdict_str :: "gateway_verdict \<Rightarrow> string" where
  "verdict_str Protocol.Approve = ''APPROVED''"
| "verdict_str Protocol.Reject = ''REJECTED''"
| "verdict_str (Protocol.Override cmd) = ''OVERRIDDEN''"

text \<open>The task that the sink spawns for a verdict: the column of the step, then the event that
  wakes its run.\<close>

definition emit_verdict :: "('c, 'e, 'b, 'g) server \<Rightarrow> string \<Rightarrow> uuid \<Rightarrow> string \<Rightarrow> gateway_verdict \<Rightarrow>
    ('e, 'b, 'g, unit) svc" where
  "emit_verdict d bp tid wn v =
     bindE (attempt (svc_db d (blueprint_pool bp))) (\<lambda>p.
       case p of
         Inr (Some pool) \<Rightarrow>
           ignore (svc_engine d (emit_event (dm_engine d pool) (queue_name bp wn) (hitl_event tid)
             (JObj [(''hitl_verdict'', JStr (verdict_str v))])))
       | _ \<Rightarrow> ret ())"

definition on_verdict :: "('c, 'e, 'b, 'g) server \<Rightarrow> string \<Rightarrow> string \<Rightarrow> uuid option \<Rightarrow> string \<Rightarrow>
    gateway_verdict \<Rightarrow> ('e, 'b, 'g, unit) svc" where
  "on_verdict d cid bp task_id step v =
     (case task_id of
        None \<Rightarrow> ret ()
      | Some tid \<Rightarrow>
          bindE (ignore (svc_db d (record_hitl_resolution bp tid step (verdict_str v)))) (\<lambda>_.
          bindE (attempt (svc_db d (step_workflow_name bp tid step))) (\<lambda>r.
            case r of
              Inr (Some wn) \<Rightarrow> emit_verdict d bp tid wn v
            | _ \<Rightarrow> ret ())))"

section \<open>The proxy shell\<close>

text \<open>The process is replaced by \<open>/bin/sh\<close> with these arguments, or it exits with a message.\<close>

datatype shell_outcome = Ran "string list" | Exited nat string

definition VERDICT_TIMEOUT :: nat where
  "VERDICT_TIMEOUT = 30000"

definition EXIT_BLOCKED :: nat where
  "EXIT_BLOCKED = 126"

definition snapshot_keys :: "string list" where
  "snapshot_keys = [''USER'', ''SHELL'', ''JANUS_AGENT'', ''JANUS_BLUEPRINT'', ''JANUS_TASK_ID'',
     ''JANUS_STEP'', ''JANUS_WORKFLOW'']"

definition snapshot_env :: "env \<Rightarrow> string \<Rightarrow> string option" where
  "snapshot_env env = (\<lambda>k. if k \<in> set snapshot_keys then nonempty_var env k else None)"

definition build_guard_check :: "codec \<Rightarrow> env \<Rightarrow> string option \<Rightarrow> uuid \<Rightarrow> string list \<Rightarrow> request" where
  "build_guard_check cd env cwd execution_id args =
     GuardCheck (uuid_string execution_id) (env ''JANUS_BLUEPRINT'')
       (Option.bind (env ''JANUS_TASK_ID'') (sj_parse_uuid cd)) (env ''JANUS_STEP'')
       (map_option from_utf8_lossy cwd) args (snapshot_env env)"

text \<open>\<open>exec_error\<close> is the error when \<open>/bin/sh\<close> cannot be executed.\<close>

definition exec_sh :: "string option \<Rightarrow> string list \<Rightarrow> shell_outcome" where
  "exec_sh exec_error args =
     (case exec_error of
        None \<Rightarrow> Ran args
      | Some err \<Rightarrow> Exited EXIT_BLOCKED (''janush: exec /bin/sh failed: '' @ err))"

definition obey :: "string option \<Rightarrow> string list \<Rightarrow> response \<Rightarrow> shell_outcome" where
  "obey exec_error args resp =
     (case resp of
        RGuardVerdict _ verdict reason rewritten_argv _ _ \<Rightarrow>
          if verdict = ''ALLOW'' then exec_sh exec_error args
          else if verdict = ''REWRITE'' then
            exec_sh exec_error [''-c'', join '' '' (case rewritten_argv of Some a \<Rightarrow> a | None \<Rightarrow> [])]
          else if verdict = ''BLOCK'' then
            Exited EXIT_BLOCKED (''janush: BLOCKED by Tool Guard: '' @
              (case reason of Some r \<Rightarrow> r | None \<Rightarrow> ''unspecified''))
          else Exited EXIT_BLOCKED (''janush: unknown verdict '' @ [CHR 0x27] @ verdict @ [CHR 0x27] @
            ''; fail-closed BLOCK'')
      | _ \<Rightarrow> Exited EXIT_BLOCKED ''janush: unexpected daemon response; fail-closed BLOCK'')"

definition janush_main :: "('k, 'w) socket_ops \<Rightarrow> codec \<Rightarrow> env \<Rightarrow> string option \<Rightarrow> uuid \<Rightarrow> string option \<Rightarrow>
    string list \<Rightarrow> (string, 'w, shell_outcome) io" where
  "janush_main so cd env cwd execution_id exec_error args =
     (if args = [] then
        ret (Exited EXIT_BLOCKED (''janush: interactive shell disabled by Tool Guard policy. Use '' @
          [CHR 0x27] @ ''janush -c <command>'' @ [CHR 0x27] @ ''.''))
      else
        bindE (attempt (request_to so cd (sock_path env)
          (build_guard_check cd env cwd execution_id args) VERDICT_TIMEOUT)) (\<lambda>r.
          ret (case r of
              Inl e \<Rightarrow> Exited EXIT_BLOCKED (''janush: daemon unreachable ('' @ e @ ''); fail-closed BLOCK'')
            | Inr resp \<Rightarrow> obey exec_error args resp)))"

end
