(* ===== verification/Lifecycle.thy ===== *)
theory Lifecycle
  imports Guard_Service
begin

text \<open>
  Onboarding and offboarding of a blueprint, \<open>src/janus/src/lifecycle.rs\<close>.

  Onboarding validates the recipe, registers the blueprint, creates its database and hands on
  the incidents of the last report. Offboarding reads the traces of the steps, has a language
  model condense them or writes them out, asks the cognitive provider for a supplement,
  writes the report, deletes the rows, marks the blueprint and commits the report. The HTTP
  client, the pretty printer and the toml crate are parameters.
\<close>

section \<open>Configuration\<close>

record llm_config =
  lc_endpoint :: string
  lc_api_key_env :: string
  lc_model :: string
  lc_max_input_tokens :: nat
  lc_timeout_seconds :: nat

record input_config =
  ic_recent_steps :: nat
  ic_per_step_truncate_bytes :: nat

record offboard_config =
  oc_llm :: llm_config
  oc_input :: input_config

text \<open>A file gives a value or leaves it to the default.\<close>

record offboard_file =
  of_endpoint :: string
  of_api_key_env :: string
  of_model :: string
  of_max_input_tokens :: "nat option"
  of_timeout_seconds :: "nat option"
  of_input :: "(nat option \<times> nat option) option"

definition default_max_tokens :: nat where "default_max_tokens = 60000"
definition default_timeout :: nat where "default_timeout = 120"
definition default_recent_steps :: nat where "default_recent_steps = 50"
definition default_per_step_truncate :: nat where "default_per_step_truncate = 16 * 1024"

definition or_default :: "'a \<Rightarrow> 'a option \<Rightarrow> 'a" where
  "or_default d x = (case x of Some y \<Rightarrow> y | None \<Rightarrow> d)"

definition fill_config :: "offboard_file \<Rightarrow> offboard_config" where
  "fill_config f =
     \<lparr>oc_llm = \<lparr>lc_endpoint = of_endpoint f, lc_api_key_env = of_api_key_env f, lc_model = of_model f,
        lc_max_input_tokens = or_default default_max_tokens (of_max_input_tokens f),
        lc_timeout_seconds = or_default default_timeout (of_timeout_seconds f)\<rparr>,
      oc_input = (case of_input f of
          None \<Rightarrow> \<lparr>ic_recent_steps = default_recent_steps,
            ic_per_step_truncate_bytes = default_per_step_truncate\<rparr>
        | Some (steps, bytes) \<Rightarrow> \<lparr>ic_recent_steps = or_default default_recent_steps steps,
            ic_per_step_truncate_bytes = or_default default_per_step_truncate bytes\<rparr>)\<rparr>"

definition offboard_config_load :: "(string \<Rightarrow> offboard_file option) \<Rightarrow> fs \<Rightarrow> string \<Rightarrow> string + offboard_config" where
  "offboard_config_load from_toml fs path =
     (case read_to_string fs path of
        None \<Rightarrow> Inl (''read offboard config '' @ path)
      | Some txt \<Rightarrow>
          (case from_toml txt of
             None \<Rightarrow> Inl (''parse '' @ path)
           | Some f \<Rightarrow> Inr (fill_config f)))"

text \<open>What the two operations use of the outside: programs run for their exit, a POST of a JSON
  body that gives a status and then a body to parse, the pretty printer, the configuration.\<close>

record 'g outside =
  ou_run :: "string \<Rightarrow> string list \<Rightarrow> (string, 'g, bool) io"
  ou_post :: "string \<Rightarrow> (string \<times> string) list \<Rightarrow> nat \<Rightarrow> json \<Rightarrow> (string, 'g, string + json) io"
  ou_pretty :: "json \<Rightarrow> string option"
  ou_offboard_toml :: "string \<Rightarrow> offboard_file option"
  ou_show_error :: "recipe_error \<Rightarrow> string"

definition svc_machine :: "('c, 'e, 'b, 'g) server \<Rightarrow> (string, 'g, 'a) io \<Rightarrow> ('e, 'b, 'g, 'a) svc" where
  "svc_machine d m = bindE (awaits d 0) (\<lambda>_. in_world (on_machine m))"

section \<open>Onboarding\<close>

record onboard_result =
  on_message :: string
  on_previous_incidents :: "string list"
  on_reactivated :: bool

text \<open>\<open>trim_start_matches\<close> of a pattern that is not empty.\<close>

function trim_start_matches :: "string \<Rightarrow> string \<Rightarrow> string" where
  "trim_start_matches p s =
     (if p \<noteq> [] \<and> prefix p s then trim_start_matches p (drop (length p) s) else s)"
  by pat_completeness auto
termination
  by (relation "measure (\<lambda>(p, s). length s)") (auto simp: prefix_def)

declare trim_start_matches.simps [simp del]

definition parse_incidents :: "string \<Rightarrow> string list" where
  "parse_incidents report =
     filter (\<lambda>l. l \<noteq> []) (map (\<lambda>l. trim (trim_start_matches ''- '' l))
       (filter (prefix ''- '') (map trim_start (lines report))))"

definition report_file :: "string \<Rightarrow> string" where
  "report_file root = path_join root ''.janus/openwiki/production_report.md''"

definition load_previous_incidents :: "fs \<Rightarrow> string \<Rightarrow> string list" where
  "load_previous_incidents fs root =
     (case read_to_string fs (report_file root) of None \<Rightarrow> [] | Some t \<Rightarrow> parse_incidents t)"

definition tmux_ready :: "'g outside \<Rightarrow> (string, 'g, bool) io" where
  "tmux_ready ou = bindE (attempt (ou_run ou ''tmux'' [''-V''])) (\<lambda>r.
     ret (case r of Inr _ \<Rightarrow> True | Inl _ \<Rightarrow> False))"

definition ssh_probe :: "'g outside \<Rightarrow> string \<Rightarrow> (string, 'g, bool) io" where
  "ssh_probe ou host =
     bindE (attempt (ou_run ou ''ssh'' [''-o'', ''ConnectTimeout=5'', ''-o'', ''BatchMode=yes'', ''-o'',
       ''StrictHostKeyChecking=accept-new'', host, ''true''])) (\<lambda>r.
       ret (case r of Inr success \<Rightarrow> success | Inl _ \<Rightarrow> False))"

text \<open>The checks only warn.\<close>

definition pre_ignition_checks :: "('c, 'e, 'b, 'g) server \<Rightarrow> 'g outside \<Rightarrow> validated_recipe \<Rightarrow>
    ('e, 'b, 'g, unit) svc" where
  "pre_ignition_checks d ou recipe =
     bindE (svc_machine d (tmux_ready ou)) (\<lambda>_.
       case vr_remote_host recipe of
         Some host \<Rightarrow> bindE (svc_machine d (ssh_probe ou host)) (\<lambda>_. ret ())
       | None \<Rightarrow> ret ())"

definition svc_validate :: "('c, 'e, 'b, 'g) server \<Rightarrow> 'g outside \<Rightarrow> string \<Rightarrow> ('e, 'b, 'g, validated_recipe) svc" where
  "svc_validate d ou name s =
     (case recipe_validate (dm_toml d) (files_of d s) name (root_of d) of
        None \<Rightarrow> None
      | Some (Inl e) \<Rightarrow> fail (ou_show_error ou e) s
      | Some (Inr recipe) \<Rightarrow> ret recipe s)"

definition svc_online :: "('c, 'e, 'b, 'g) server \<Rightarrow> ('e, 'b, 'g, bool) svc" where
  "svc_online d = bindE (awaits d 0) (\<lambda>_. gets (\<lambda>s. pg_online (wl_db (sv_world s))))"

definition onboard_message :: "string \<Rightarrow> bool \<Rightarrow> validated_recipe \<Rightarrow> nat \<Rightarrow> string" where
  "onboard_message name reactivated recipe incidents =
     ''blueprint `'' @ name @ ''` '' @ (if reactivated then ''reactivated'' else ''registered'') @
     '' (workflow: '' @ vr_default_workflow recipe @ '', host: '' @
     (case vr_remote_host recipe of Some h \<Rightarrow> h | None \<Rightarrow> ''local'') @ '')'' @
     (if incidents = 0 then [] else ''; inherited '' @ dec incidents @ '' previous-incident(s)'')"

definition onboard :: "('c, 'e, 'b, 'g) server \<Rightarrow> 'g outside \<Rightarrow> string \<Rightarrow> ('e, 'b, 'g, onboard_result) svc" where
  "onboard d ou name =
     bindE (svc_validate d ou name) (\<lambda>recipe.
     bindE (svc_online d) (\<lambda>online.
     if \<not> online then fail ''Absurd Postgres not reachable - cannot register tenant (start it with `make db-up`)''
     else
       bindE (pre_ignition_checks d ou recipe) (\<lambda>_.
       bindE (svc_db d (register_blueprint recipe)) (\<lambda>reactivated.
       bindE (svc_db d (ensure_blueprint_db name)) (\<lambda>_.
       bindE (gets (\<lambda>s. load_previous_incidents (files_of d s) (root_of d))) (\<lambda>incidents.
       ret \<lparr>on_message = onboard_message name reactivated recipe (length incidents),
         on_previous_incidents = incidents, on_reactivated = reactivated\<rparr>))))))"

section \<open>Offboarding\<close>

record offboard_result =
  ob_message :: string
  ob_report_path :: string
  ob_purged_rows :: nat
  ob_git :: "string option"
  ob_llm_used :: bool

definition truncate_bytes :: "string \<Rightarrow> nat \<Rightarrow> string" where
  "truncate_bytes s cap = (if length s \<le> cap then s else take (cut_back s cap) s)"

definition trace_section :: "nat \<Rightarrow> step_trace \<Rightarrow> string" where
  "trace_section cap t =
     ''### task '' @ uuid_string (st_task_id t) @ '' step `'' @ st_step_name t @ ''` ['' @ st_status t @ '']'' @
     [newline] @ truncate_bytes (text_or_empty (st_result_cache t)) cap @ [newline, newline]"

definition build_llm_input :: "step_trace list \<Rightarrow> offboard_config \<Rightarrow> string" where
  "build_llm_input traces cfg =
     concat (map (trace_section (ic_per_step_truncate_bytes (oc_input cfg)))
       (take (ic_recent_steps (oc_input cfg)) (rev traces)))"

definition smelter_prompt :: "string \<Rightarrow> string" where
  "smelter_prompt name =
     ''You are the MetaMach Offboard smelter for blueprint `'' @ name @ ''`. Summarize the '' @
     ''execution traces into a high-density Markdown production report with exactly '' @
     ''these four sections: `## Compile Error History`, `## Pin Conflict Details`, '' @
     ''`## Tool Guard Interception Logs`, `## Successful Patches Applied`. Be terse.''"

definition llm_body :: "string \<Rightarrow> string \<Rightarrow> offboard_config \<Rightarrow> json" where
  "llm_body input name cfg =
     JObj [(''model'', JStr (lc_model (oc_llm cfg))), (''max_tokens'', JInt 2048),
       (''messages'', JArr [
          JObj [(''role'', JStr ''system''), (''content'', JStr (smelter_prompt name))],
          JObj [(''role'', JStr ''user''), (''content'', JStr input)]])]"

text \<open>Indexing a value that has no such member gives \<open>null\<close>, which is no string.\<close>

definition llm_answer :: "json \<Rightarrow> string option" where
  "llm_answer v =
     Option.bind (Option.bind (Option.bind (Option.bind (json_get ''choices'' v) (json_index 0))
       (json_get ''message'')) (json_get ''content'')) as_str"

definition llm_summarize :: "'g outside \<Rightarrow> env \<Rightarrow> string \<Rightarrow> string \<Rightarrow> offboard_config \<Rightarrow> (string, 'g, string) io" where
  "llm_summarize ou env input name cfg =
     (case env (lc_api_key_env (oc_llm cfg)) of
        None \<Rightarrow> fail (''LLM api key env var '' @ lc_api_key_env (oc_llm cfg) @ '' not set'')
      | Some api_key \<Rightarrow>
          bindE (ou_post ou (lc_endpoint (oc_llm cfg))
            [(''Authorization'', ''Bearer '' @ api_key), (''Content-Type'', ''application/json'')]
            (1000 * lc_timeout_seconds (oc_llm cfg)) (llm_body input name cfg)) (\<lambda>resp.
            case resp of
              Inl e \<Rightarrow> fail (''parse LLM response JSON: '' @ e)
            | Inr v \<Rightarrow>
                (case llm_answer v of
                   None \<Rightarrow> fail ''LLM response missing choices[0].message.content''
                 | Some md \<Rightarrow> ret md)))"

definition trace_value :: "step_trace \<Rightarrow> json" where
  "trace_value t =
     JObj [(''task_id'', json_uuid (st_task_id t)), (''step_name'', JStr (st_step_name t)),
       (''status'', JStr (st_status t)), (''result_cache'', json_opt JStr (st_result_cache t))]"

definition snapshot_value :: "step_trace list \<Rightarrow> string \<Rightarrow> json" where
  "snapshot_value traces name =
     JObj [(''blueprint'', JStr name),
       (''note'', JStr ''LLM unavailable - raw trace snapshot (SPEC.md Part 1 Contract 4.1 degradation)''),
       (''traces'', JArr (map trace_value traces))]"

definition raw_json_snapshot :: "'g outside \<Rightarrow> step_trace list \<Rightarrow> string \<Rightarrow> string" where
  "raw_json_snapshot ou traces name =
     ''# '' @ name @ '' - Production Report (raw snapshot)'' @ [newline, newline] @ ''```json'' @ [newline] @
     text_or_empty (ou_pretty ou (snapshot_value traces name)) @ [newline] @ ''```'' @ [newline]"

definition smelt :: "'g outside \<Rightarrow> env \<Rightarrow> step_trace list \<Rightarrow> string \<Rightarrow> offboard_config \<Rightarrow>
    (string, 'g, string \<times> bool) io" where
  "smelt ou env traces name cfg =
     bindE (attempt (llm_summarize ou env (build_llm_input traces cfg) name cfg)) (\<lambda>r.
       ret (case r of
           Inr md \<Rightarrow> (md, True)
         | Inl _ \<Rightarrow> (raw_json_snapshot ou traces name, False)))"

text \<open>A command that was started and succeeded.\<close>

definition git_ok :: "'g machine \<Rightarrow> string \<Rightarrow> string list \<Rightarrow> (string, 'g, string option) io" where
  "git_ok m root args =
     bindE (attempt (m_git m root args)) (\<lambda>r.
       ret (case r of Inr out \<Rightarrow> if co_success out then Some (co_stdout out) else None | Inl _ \<Rightarrow> None))"

text \<open>\<open>Path::strip_prefix\<close> of a directory, for paths joined from it.\<close>

definition relative_to :: "string \<Rightarrow> string \<Rightarrow> string" where
  "relative_to root p =
     (case strip_prefix (if root = [] \<or> suffix ''/'' root then root else root @ ''/'') p of
        Some r \<Rightarrow> r | None \<Rightarrow> p)"

definition git_commit_report :: "'g machine \<Rightarrow> string \<Rightarrow> string \<Rightarrow> string \<Rightarrow> (string, 'g, string option) io" where
  "git_commit_report m root name report =
     bindE (git_ok m root [''add'', from_utf8_lossy (relative_to root report)]) (\<lambda>a.
       if a = None then ret None
       else
         bindE (git_ok m root [''commit'', ''-m'',
           ''feat(blueprint): '' @ name @ '' offboard production_report.md'']) (\<lambda>c.
           if c = None then ret None
           else
             bindE (git_ok m root [''push'']) (\<lambda>_.
             bindE (git_ok m root [''rev-parse'', ''--short'', ''HEAD'']) (\<lambda>out.
             ret (map_option (\<lambda>t. trim (from_utf8_lossy t)) out)))))"

definition offboard_message :: "string \<Rightarrow> nat \<Rightarrow> bool \<Rightarrow> nat \<Rightarrow> string" where
  "offboard_message name traces llm_used purged =
     ''offboarded `'' @ name @ ''` - smelted '' @ dec traces @ '' step trace(s) ('' @
     (if llm_used then ''LLM'' else ''raw-JSON fallback'') @ ''), purged '' @ dec purged @ '' row(s)''"

text \<open>The report is condensed, supplemented and written.\<close>

definition write_report :: "('c, 'e, 'b, 'g) server \<Rightarrow> 'g outside \<Rightarrow> step_trace list \<Rightarrow> string \<Rightarrow>
    offboard_config \<Rightarrow> ('e, 'b, 'g, bool) svc" where
  "write_report d ou traces name cfg =
     bindE (svc_machine d (smelt ou (dn_env (dm_base d)) traces name cfg)) (\<lambda>(report, llm_used).
     bindE (gets (files_of d)) (\<lambda>fs.
     bindE (svc_machine d (cognitive_supplement (dm_children d) (dm_codec d) (dm_toml d) fs
       (root_of d) report name)) (\<lambda>report'.
     bindE (in_world (on_machine (with_context ''create openwiki dir''
       (m_create_dir_all (dn_machine (dm_base d)) (path_join (root_of d) ''.janus/openwiki''))))) (\<lambda>_.
     bindE (in_world (on_machine (with_context ''write production_report.md''
       (m_write (dn_machine (dm_base d)) (report_file (root_of d)) report')))) (\<lambda>_.
     ret llm_used)))))"

text \<open>The rows are purged, the blueprint is marked and the report is committed.\<close>

definition close_blueprint :: "('c, 'e, 'b, 'g) server \<Rightarrow> string \<Rightarrow> nat \<Rightarrow> bool \<Rightarrow>
    ('e, 'b, 'g, offboard_result) svc" where
  "close_blueprint d name traces llm_used =
     bindE (svc_db d (offboard_blueprint_data name)) (\<lambda>purged_rows.
     bindE (svc_db d (set_blueprint_offboarded name)) (\<lambda>_.
     bindE (svc_machine d (git_commit_report (dn_machine (dm_base d)) (root_of d) name
       (report_file (root_of d)))) (\<lambda>git.
     ret \<lparr>ob_message = offboard_message name traces llm_used purged_rows,
       ob_report_path = report_file (root_of d), ob_purged_rows = purged_rows, ob_git = git,
       ob_llm_used = llm_used\<rparr>)))"

definition offboard :: "('c, 'e, 'b, 'g) server \<Rightarrow> 'g outside \<Rightarrow> string \<Rightarrow> offboard_config \<Rightarrow>
    ('e, 'b, 'g, offboard_result) svc" where
  "offboard d ou name cfg =
     bindE (svc_online d) (\<lambda>online.
     if \<not> online then fail ''Absurd Postgres not reachable - cannot offboard (start it with `make db-up`)''
     else
       bindE (svc_db d (scan_offboard_traces name (ic_recent_steps (oc_input cfg)))) (\<lambda>traces.
       bindE (write_report d ou traces name cfg) (\<lambda>llm_used.
       close_blueprint d name (length traces) llm_used)))"

section \<open>The report comes before the purge\<close>

text \<open>A daemon in which nothing else runs.\<close>

definition quiet :: "('c, 'e, 'b, 'g) server \<Rightarrow> bool" where
  "quiet d = (dm_others d = (\<lambda>_ s. s))"

lemma awaits_quiet: "quiet d \<Longrightarrow> awaits d n s = Some (Inr (), s)"
  by (simp add: quiet_def awaits_def modify_def)

lemma bind_awaits_quiet: "quiet d \<Longrightarrow> bindE (awaits d n) f s = f () s"
  by (simp add: bindE_Inr [OF awaits_quiet])

definition server_of :: "('e, 'b, 'g) service \<Rightarrow> pg_server" where
  "server_of s = ad_server (wl_db (sv_world s))"

definition same_server :: "('e, 'b, 'g) service \<Rightarrow> ('e, 'b, 'g) service \<Rightarrow> bool" where
  "same_server s s' = (server_of s' = server_of s)"

definition same_machine :: "('e, 'b, 'g) service \<Rightarrow> ('e, 'b, 'g) service \<Rightarrow> bool" where
  "same_machine s s' = (machine_of s' = machine_of s)"

lemma reflp_same [intro!]: "reflp same_server" "reflp same_machine"
  by (simp_all add: reflp_def same_server_def same_machine_def)

lemma transp_same [intro!]: "transp same_server" "transp same_machine"
  by (simp_all add: transp_def same_server_def same_machine_def)

lemma in_world_io: "in_world m s = Some (r, s') \<longleftrightarrow>
    (\<exists>w. m (sv_world s) = Some (r, w) \<and> s' = s\<lparr>sv_world := w\<rparr>)"
  by (auto simp: in_world_def)

lemma in_machine_io: "in_world (on_machine m) s = Some (r, s') \<longleftrightarrow>
    (\<exists>g. m (machine_of s) = Some (r, g) \<and> s' = s\<lparr>sv_world := (sv_world s)\<lparr>wl_machine := g\<rparr>\<rparr>)"
  by (auto simp: in_world_def on_machine_def machine_of_def)

lemma in_db_io: "in_world (lift_db m) s = Some (r, s') \<longleftrightarrow>
    (\<exists>x. m (wl_db (sv_world s)) = Some (r, x) \<and> s' = s\<lparr>sv_world := (sv_world s)\<lparr>wl_db := x\<rparr>\<rparr>)"
  by (auto simp: in_world_def lift_db_def)

lemma machine_same_server: "keeps same_server (in_world (on_machine m))"
  by (auto simp: keeps_def in_machine_io same_server_def server_of_def)

lemma db_same_machine: "keeps same_machine (in_world (lift_db m))"
  by (auto simp: keeps_def in_db_io same_machine_def machine_of_def)

lemma svc_machine_same_server: "quiet d \<Longrightarrow> keeps same_server (svc_machine d m)"
  using machine_same_server [of m] by (simp add: svc_machine_def bind_awaits_quiet keeps_def)

lemma svc_db_same_machine: "quiet d \<Longrightarrow> keeps same_machine (svc_db d m)"
  using db_same_machine [of m] by (simp add: svc_db_def bind_awaits_quiet keeps_def)

lemma write_report_same_server:
  assumes "quiet d"
  shows "keeps same_server (write_report d ou traces name cfg)"
  unfolding write_report_def
  by (auto intro!: keeps_bindE keeps_gets keeps_ret svc_machine_same_server assms machine_same_server
      split: prod.split)

lemma scan_same_server: "scan_offboard_traces name n x = Some (r, x') \<Longrightarrow> ad_server x' = ad_server x"
  by (auto simp: scan_offboard_traces_def with_pool_def io_simps blueprint_pool_def on_overlay_def
      add_pool_def Let_def fun_upd_idem split: if_splits option.splits)

lemma svc_scan_same_server: "quiet d \<Longrightarrow> keeps same_server (svc_db d (scan_offboard_traces name n))"
  by (auto simp: keeps_def svc_db_def bind_awaits_quiet in_db_io same_server_def server_of_def
      dest: scan_same_server)

text \<open>What the file system and git promise about the report: once written it can be read, and the four
  git commands that follow, which stage, commit and push the report and ask for the hash of
  the commit, do not change it. What they do to any other file is left open.\<close>

definition keeps_report :: "('c, 'e, 'b, 'g) server \<Rightarrow> bool" where
  "keeps_report d =
     ((\<forall>t g g'. m_write (dn_machine (dm_base d)) (report_file (root_of d)) t g = Some (Inr (), g') \<longrightarrow>
         read_to_string (dm_fs d g') (report_file (root_of d)) = Some t) \<and>
      (\<forall>command args. command \<in> {''add'', ''commit'', ''push'', ''rev-parse''} \<longrightarrow>
         keeps (\<lambda>g g'. read_to_string (dm_fs d g') (report_file (root_of d)) =
             read_to_string (dm_fs d g) (report_file (root_of d)))
           (m_git (dn_machine (dm_base d)) (root_of d) (command # args))))"

lemma write_report_stores:
  assumes "quiet d" "keeps_report d" "write_report d ou traces name cfg s = Some (Inr used, s')"
  shows "\<exists>report rest g. smelt ou (dn_env (dm_base d)) traces name cfg (machine_of s) = Some (Inr (report, used), g) \<and>
     read_to_string (files_of d s') (report_file (root_of d)) = Some (report @ rest)"
proof -
  obtain report s1 s2 report' s3 where
    a: "svc_machine d (smelt ou (dn_env (dm_base d)) traces name cfg) s = Some (Inr (report, used), s1)" and
    b: "svc_machine d (cognitive_supplement (dm_children d) (dm_codec d) (dm_toml d) (files_of d s1)
       (root_of d) report name) s1 = Some (Inr report', s2)" and
    c: "in_world (on_machine (with_context ''write production_report.md''
       (m_write (dn_machine (dm_base d)) (report_file (root_of d)) report'))) s3 = Some (Inr (), s')"
    using assms(3) unfolding write_report_def by (auto simp: io_simps split: prod.splits)
  have "\<exists>rest. report' = report @ rest"
    using b assms(1) by (auto simp: svc_machine_def bind_awaits_quiet in_machine_io
        cognitive_supplement_def io_simps split: sum.splits option.splits if_splits)
  moreover have "read_to_string (files_of d s') (report_file (root_of d)) = Some report'"
    using c assms(2) by (auto simp: in_machine_io io_simps keeps_report_def files_of_def machine_of_def)
  moreover have "\<exists>g. smelt ou (dn_env (dm_base d)) traces name cfg (machine_of s) = Some (Inr (report, used), g)"
    using a assms(1) by (auto simp: svc_machine_def bind_awaits_quiet in_machine_io)
  ultimately show ?thesis by blast
qed


definition keeps_file :: "('c, 'e, 'b, 'g) server \<Rightarrow> string \<Rightarrow> ('e, 'b, 'g) service \<Rightarrow> ('e, 'b, 'g) service \<Rightarrow> bool" where
  "keeps_file d p s s' = (read_to_string (files_of d s') p = read_to_string (files_of d s) p)"

lemma reflp_keeps_file [intro!]: "reflp (keeps_file d p)" and transp_keeps_file [intro!]: "transp (keeps_file d p)"
  by (simp_all add: reflp_def transp_def keeps_file_def)

lemma git_ok_file:
  assumes "keeps_report d" "command \<in> {''add'', ''commit'', ''push'', ''rev-parse''}"
  shows "keeps (\<lambda>g g'. read_to_string (dm_fs d g') (report_file (root_of d)) =
      read_to_string (dm_fs d g) (report_file (root_of d)))
     (git_ok (dn_machine (dm_base d)) (root_of d) (command # args))"
  using assms unfolding git_ok_def keeps_report_def
  by (intro keeps_bindE keeps_attempt keeps_ret) (auto simp: reflp_def transp_def)

lemma git_commit_file:
  assumes "keeps_report d"
  shows "keeps (\<lambda>g g'. read_to_string (dm_fs d g') (report_file (root_of d)) =
      read_to_string (dm_fs d g) (report_file (root_of d)))
     (git_commit_report (dn_machine (dm_base d)) (root_of d) name report)"
proof -
  let ?R = "\<lambda>g g'. read_to_string (dm_fs d g') (report_file (root_of d)) =
      read_to_string (dm_fs d g) (report_file (root_of d))"
  have r: "reflp ?R" and t: "transp ?R" by (simp_all add: reflp_def transp_def)
  note git = git_ok_file [OF assms]
  show ?thesis unfolding git_commit_report_def
    by (rule keeps_bindE [OF t git]) (auto intro!: keeps_bindE t git keeps_ret r)
qed

lemma svc_git_file:
  "quiet d \<Longrightarrow> keeps_report d \<Longrightarrow> keeps (keeps_file d (report_file (root_of d)))
     (svc_machine d (git_commit_report (dn_machine (dm_base d)) (root_of d) name report))"
  using git_commit_file [of d name report]
  by (auto simp: keeps_def svc_machine_def bind_awaits_quiet in_machine_io keeps_file_def files_of_def
      machine_of_def)

lemma svc_db_file: "quiet d \<Longrightarrow> keeps (keeps_file d p) (svc_db d m)"
  using svc_db_same_machine [of d m]
  by (auto simp: keeps_def same_machine_def keeps_file_def files_of_def)

lemma close_blueprint_file:
  "quiet d \<Longrightarrow> keeps_report d \<Longrightarrow> keeps (keeps_file d (report_file (root_of d))) (close_blueprint d name n used)"
  unfolding close_blueprint_def
  by (intro keeps_bindE transp_keeps_file svc_db_file svc_git_file keeps_ret reflp_keeps_file)

text \<open>The database changes only once the traces were read and the report was written.\<close>

lemma offboard_changes:
  assumes "quiet d" "offboard d ou name cfg s = Some (r, s')" "server_of s' \<noteq> server_of s"
  shows "\<exists>traces s1 used s2.
    svc_db d (scan_offboard_traces name (ic_recent_steps (oc_input cfg))) s = Some (Inr traces, s1) \<and>
    write_report d ou traces name cfg s1 = Some (Inr used, s2) \<and>
    close_blueprint d name (length traces) used s2 = Some (r, s')"
proof -
  have online: "svc_online d s = Some (Inr (pg_online (wl_db (sv_world s))), s)"
    using assms(1) by (simp add: svc_online_def bind_awaits_quiet gets_def)
  have "same_server s s'" if "\<not> pg_online (wl_db (sv_world s))"
    using assms(2) that by (simp add: offboard_def bindE_def online fail_def same_server_def)
  then have run: "bindE (svc_db d (scan_offboard_traces name (ic_recent_steps (oc_input cfg)))) (\<lambda>traces.
      bindE (write_report d ou traces name cfg) (close_blueprint d name (length traces))) s = Some (r, s')"
    using assms(2,3) by (simp add: offboard_def bindE_def [of "svc_online d"] online same_server_def split: if_splits)
  have scan: "server_of s1 = server_of s" if "svc_db d (scan_offboard_traces name n) s = Some (q, s1)" for n q s1
    using keepsD [OF svc_scan_same_server [OF assms(1)] that] by (simp add: same_server_def)
  have wr: "server_of s2 = server_of s1" if "write_report d ou traces name cfg s1 = Some (q, s2)" for traces q s1 s2
    using keepsD [OF write_report_same_server [OF assms(1)] that] by (simp add: same_server_def)
  from run show ?thesis unfolding bindE_io using scan wr assms(3) by metis
qed

text \<open>C24: when an offboarding, finished or not, has changed anything in the database, the report is
  on the disk: it was written from the traces that the database held at the start, it begins
  with what the language model made of them or with the raw snapshot, and nothing that
  follows has changed it: the purge and the catalog do not write files, and the git commands
  that follow are to leave the report as it is.\<close>

theorem offboard_report_before_purge:
  assumes "quiet d" "keeps_report d" "offboard d ou name cfg s = Some (r, s')" "server_of s' \<noteq> server_of s"
  shows "\<exists>traces x report used g rest.
    scan_offboard_traces name (ic_recent_steps (oc_input cfg)) (wl_db (sv_world s)) = Some (Inr traces, x) \<and>
    smelt ou (dn_env (dm_base d)) traces name cfg (machine_of s) = Some (Inr (report, used), g) \<and>
    read_to_string (files_of d s') (report_file (root_of d)) = Some (report @ rest)"
proof -
  obtain traces s1 used s2 where run:
    "svc_db d (scan_offboard_traces name (ic_recent_steps (oc_input cfg))) s = Some (Inr traces, s1)"
    "write_report d ou traces name cfg s1 = Some (Inr used, s2)"
    "close_blueprint d name (length traces) used s2 = Some (r, s')"
    using offboard_changes [OF assms(1,3,4)] by blast
  obtain report rest g where report:
    "smelt ou (dn_env (dm_base d)) traces name cfg (machine_of s1) = Some (Inr (report, used), g)"
    "read_to_string (files_of d s2) (report_file (root_of d)) = Some (report @ rest)"
    using write_report_stores [OF assms(1,2) run(2)] by blast
  have "read_to_string (files_of d s') (report_file (root_of d)) = read_to_string (files_of d s2) (report_file (root_of d))"
    using keepsD [OF close_blueprint_file [OF assms(1,2)] run(3)] by (simp add: keeps_file_def)
  moreover have "machine_of s1 = machine_of s"
    using keepsD [OF svc_db_same_machine [OF assms(1)] run(1)] by (simp add: same_machine_def)
  moreover obtain x where "scan_offboard_traces name (ic_recent_steps (oc_input cfg)) (wl_db (sv_world s)) = Some (Inr traces, x)"
    using run(1) assms(1) by (auto simp: svc_db_def bind_awaits_quiet in_db_io)
  ultimately show ?thesis using report by auto
qed

section \<open>A sample daemon\<close>

text \<open>A disk on which git succeeds without output and no other program starts.\<close>

type_synonym disk = "(string \<times> string) list"

definition disk_fs :: "disk \<Rightarrow> fs" where
  "disk_fs g = (\<lambda>p. map_option File (map_of g p))"

definition disk_machine :: "disk machine" where
  "disk_machine = \<lparr>m_git = (\<lambda>_ _. ret \<lparr>co_success = True, co_status = ''0'', co_stdout = [], co_stderr = []\<rparr>),
     m_exists = (\<lambda>p g. disk_fs g p \<noteq> None), m_remove_dir_all = (\<lambda>_. ret ()),
     m_create_dir_all = (\<lambda>_. ret ()), m_write = (\<lambda>p t. modify (\<lambda>g. (p, t) # g)),
     m_now = (\<lambda>_. []), m_dev = (\<lambda>_. None)\<rparr>"

definition no_children :: "(nat, disk) child_ops" where
  "no_children = \<lparr>ch_spawn = (\<lambda>_ _. fail ''not found''), ch_write_all = (\<lambda>_ _. ret ()), ch_flush = (\<lambda>_. ret ()),
     ch_close_stdin = (\<lambda>_ g. g), ch_recv = (\<lambda>_ _ g. (None, g)), ch_kill = (\<lambda>_ g. g)\<rparr>"

definition disk_daemon :: "(fake_engine, fake_backend, disk) daemon" where
  "disk_daemon = \<lparr>dn_engine = fake_ops, dn_factory = (\<lambda>_. ret fake_backend_ops),
     dn_socket_backend = (\<lambda>_. fake_backend_ops), dn_machine = disk_machine, dn_env = Map.empty,
     dn_parse_uuid = uuid_read, dn_root = ''/repo'', dn_janush = ''/bin/janush'', dn_others = (\<lambda>_ w. w)\<rparr>"

definition disk_server :: "codec \<Rightarrow> agent_rules \<Rightarrow> toml_parsers \<Rightarrow>
    (nat, fake_engine, fake_backend, disk) server" where
  "disk_server cd rules toml = \<lparr>dm_base = disk_daemon, dm_engine = (\<lambda>_. fake_ops),
     dm_factory = (\<lambda>_ _. ret fake_backend_ops), dm_others = (\<lambda>_ s. s), dm_codec = cd, dm_rx = sample_regex,
     dm_rules = (\<lambda>g. \<lparr>re_fs = disk_fs g, re_mtime = (\<lambda>_. None), re_toml = (\<lambda>_. Some rules)\<rparr>),
     dm_toml = toml, dm_fs = disk_fs, dm_children = no_children, dm_late = (\<lambda>_ _ _. False), dm_expired = (\<lambda>_ _ g. g),
     dm_gateway = toy_gateway None, dm_pending_order = (\<lambda>_. []), dm_rfc3339 = (\<lambda>_. []),
     dm_current_exe = Some ''/opt/janus-daemon'', dm_local = fake_backend_ops,
     dm_join = (\<lambda>_ s. (Joined_ok, s)), dm_set_retry_none = (\<lambda>_ _ _. ret ()),
     dm_expire_claim = (\<lambda>_ _ _. ret ()), dm_uuid = (\<lambda>_. 7)\<rparr>"

definition no_toml :: toml_parsers where
  "no_toml = \<lparr>toml_recipe = (\<lambda>_. None), toml_workflow = (\<lambda>_. None), toml_dag = (\<lambda>_. None)\<rparr>"

definition disk_service :: "guard_engine \<Rightarrow> disk \<Rightarrow> absurd_db \<Rightarrow> (fake_engine, fake_backend, disk) service" where
  "disk_service g files db = \<lparr>sv_world = \<lparr>wl_engine = fake_new of_nat 3, wl_db = db,
       wl_backend = fake_backend_new [], wl_machine = files\<rparr>,
     sv_guard = g, sv_gateway = gw_init 0, sv_spawned = []\<rparr>"

lemma disk_quiet: "quiet (disk_server cd rules toml)"
  by (simp add: quiet_def disk_server_def)

text \<open>The same machine with a git that writes into its own directory.\<close>

definition git_machine :: "disk machine" where
  "git_machine = disk_machine\<lparr>m_git := (\<lambda>root args. bindE (modify (\<lambda>g. (root @ ''/.git/index'', concat args) # g)) (\<lambda>_.
     ret \<lparr>co_success = True, co_status = ''0'', co_stdout = [], co_stderr = []\<rparr>))\<rparr>"

definition git_server :: "codec \<Rightarrow> agent_rules \<Rightarrow> toml_parsers \<Rightarrow>
    (nat, fake_engine, fake_backend, disk) server" where
  "git_server cd rules toml = (disk_server cd rules toml)\<lparr>dm_base := disk_daemon\<lparr>dn_machine := git_machine\<rparr>\<rparr>"

lemma git_keeps_report: "keeps_report (git_server cd rules toml)"
proof -
  have root: "root_of (git_server cd rules toml) = ''/repo''"
    by (simp add: root_of_def git_server_def disk_daemon_def)
  have report: "report_file ''/repo'' \<noteq> ''/repo/.git/index''" by code_simp
  show ?thesis unfolding keeps_report_def root using report
    by (auto simp: git_server_def disk_server_def git_machine_def disk_daemon_def disk_machine_def
        io_simps keeps_def disk_fs_def read_to_string_def simp del: insert_iff)
qed

definition no_llm :: "disk outside" where
  "no_llm = \<lparr>ou_run = (\<lambda>_ _. fail ''not found''), ou_post = (\<lambda>_ _ _ _. fail ''offline''),
     ou_pretty = (\<lambda>_. Some ''{}''), ou_offboard_toml = (\<lambda>_. None), ou_show_error = (\<lambda>_. [])\<rparr>"

definition sample_offboard :: offboard_config where
  "sample_offboard = \<lparr>oc_llm = \<lparr>lc_endpoint = [], lc_api_key_env = ''KEY'', lc_model = [], lc_max_input_tokens = 1,
     lc_timeout_seconds = 1\<rparr>, oc_input = \<lparr>ic_recent_steps = 2, ic_per_step_truncate_bytes = 10\<rparr>\<rparr>"

lemma git_quiet: "quiet (git_server cd rules toml)"
  by (simp add: quiet_def git_server_def disk_server_def)

lemma offboard_report_before_purge_witness:
  "\<exists>r s' report. offboard (git_server ping_pong Map.empty no_toml) no_llm ''bp'' sample_offboard
     (disk_service guard_empty [] sample_db) = Some (r, s') \<and>
   read_to_string (files_of (git_server ping_pong Map.empty no_toml) s') ''/repo/.janus/openwiki/production_report.md'' =
     Some report"
proof -
  let ?d = "git_server ping_pong Map.empty no_toml" and ?s = "disk_service guard_empty [] sample_db"
  let ?o = "offboard ?d no_llm ''bp'' sample_offboard ?s"
  have audit: "map_option (\<lambda>x. length (ps_audit (server_of (snd x)))) ?o = Some 1" by code_simp
  then obtain r s' where run: "?o = Some (r, s')" by (cases ?o) auto
  moreover have "ps_audit (server_of ?s) = []"
    by (simp add: server_of_def disk_service_def sample_db_def sample_server_def)
  ultimately have "server_of s' \<noteq> server_of ?s" using audit by auto
  moreover have "report_file (root_of ?d) = ''/repo/.janus/openwiki/production_report.md''"
    by code_simp
  ultimately show ?thesis
    using offboard_report_before_purge [OF git_quiet git_keeps_report run] run by auto
qed

section \<open>What the model is told\<close>

definition trace_of_row :: "meta_row \<Rightarrow> step_trace" where
  "trace_of_row r = \<lparr>st_task_id = mr_task_id r, st_step_name = mr_step_name r, st_status = mr_status r,
     st_result_cache = Some (text_or_empty (mr_stdout_tail r))\<rparr>"

lemma scan_rows:
  assumes "reachable x name"
  shows "scan_offboard_traces name n x = Some (Inr (map trace_of_row (take n
     (sort_key (\<lambda>r. - mr_updated_at r) (filter (\<lambda>r. mr_blueprint_name r = name) (table x name))))),
     set_table name (table x name) (pooled name x))"
proof -
  have "(\<lambda>r. \<lparr>st_task_id = mr_task_id r, st_step_name = mr_step_name r, st_status = mr_status r,
       st_result_cache = Some (case mr_stdout_tail r of None \<Rightarrow> [] | Some s \<Rightarrow> s)\<rparr>) = trace_of_row"
    by (auto simp: trace_of_row_def text_or_empty_def fun_eq_iff)
  then show ?thesis using assms
    by (simp add: scan_offboard_traces_def with_pool_reachable on_overlay_reachable)
qed

lemma sort_key_desc: "sorted (map f (rev (take n (sort_key (\<lambda>r. - f r) rows))))"
  for f :: "'x \<Rightarrow> int"
proof -
  have "sorted (map (\<lambda>r. - f r) (take n (sort_key (\<lambda>r. - f r) rows)))"
    by (metis sorted_sort_key sorted_wrt_take take_map)
  then have "sorted (map uminus (map f (take n (sort_key (\<lambda>r. - f r) rows))))" by (simp add: comp_def)
  then show ?thesis by (simp add: sorted_wrt_rev sorted_wrt_map rev_map)
qed

text \<open>What the language model is told of a blueprint are the sections of its most recently
  updated steps, at most as many as configured, in the order of their updates: the oldest of
  them comes first, and each output is cut to the configured number of bytes.\<close>

theorem llm_input_oldest_first:
  assumes "reachable x name" "scan_offboard_traces name (ic_recent_steps (oc_input cfg)) x = Some (Inr traces, x')"
  shows "\<exists>rows. build_llm_input traces cfg =
      concat (map (trace_section (ic_per_step_truncate_bytes (oc_input cfg)) \<circ> trace_of_row) rows) \<and>
    sorted (map mr_updated_at rows) \<and> length rows \<le> ic_recent_steps (oc_input cfg) \<and>
    (\<forall>r \<in> set rows. r \<in> set (table x name) \<and> mr_blueprint_name r = name \<and>
       length (truncate_bytes (text_or_empty (mr_stdout_tail r)) (ic_per_step_truncate_bytes (oc_input cfg)))
         \<le> ic_per_step_truncate_bytes (oc_input cfg))"
proof -
  let ?n = "ic_recent_steps (oc_input cfg)" and ?cap = "ic_per_step_truncate_bytes (oc_input cfg)"
  define rows where "rows = take ?n (sort_key (\<lambda>r. - mr_updated_at r)
    (filter (\<lambda>r. mr_blueprint_name r = name) (table x name)))"
  have "traces = map trace_of_row rows" using assms by (simp add: scan_rows rows_def)
  then have "build_llm_input traces cfg = concat (map (trace_section ?cap \<circ> trace_of_row) (rev rows))"
    by (simp add: build_llm_input_def rev_map rows_def)
  moreover have "sorted (map mr_updated_at (rev rows))" unfolding rows_def by (rule sort_key_desc)
  moreover have "length (rev rows) \<le> ?n" by (simp add: rows_def)
  moreover have "\<forall>r \<in> set (rev rows). r \<in> set (table x name) \<and> mr_blueprint_name r = name"
    by (auto simp: rows_def dest!: in_set_takeD)
  moreover have "length (truncate_bytes s cap) \<le> cap" for s cap
    using cut_back_le [of s cap] by (simp add: truncate_bytes_def)
  ultimately show ?thesis by blast
qed

definition two_steps :: absurd_db where
  "two_steps = set_table ''bp'' [(blank_row 1 ''a'' ''bp'' ''COMPLETED'' 5)\<lparr>mr_stdout_tail := Some ''ok''\<rparr>,
     blank_row 1 ''b'' ''bp'' ''COMPLETED'' 9] sample_db"

lemma llm_input_oldest_first_witness:
  "\<exists>traces x' rows. scan_offboard_traces ''bp'' 2 two_steps = Some (Inr traces, x') \<and>
     build_llm_input traces sample_offboard =
       concat (map (trace_section 10 \<circ> trace_of_row) rows) \<and> sorted (map mr_updated_at rows)"
proof -
  have r: "reachable two_steps ''bp''" unfolding two_steps_def by (rule reachable_set_table) (rule sample_reachable)
  obtain traces x' where "scan_offboard_traces ''bp'' (ic_recent_steps (oc_input sample_offboard)) two_steps =
      Some (Inr traces, x')"
    using scan_rows [OF r] by blast
  from llm_input_oldest_first [OF r this] this show ?thesis by (auto simp: sample_offboard_def)
qed

section \<open>Active and offboarded\<close>

lemma validate_name: "recipe_validate toml fs name root = Some (Inr recipe) \<Longrightarrow> vr_name recipe = name"
  by (auto simp: recipe_validate_def check_recipe_def split: sum.splits option.splits if_splits prod.splits)

lemma register_row:
  "register_blueprint recipe x = Some (Inr b, x') \<Longrightarrow>
     \<exists>row \<in> set (ps_blueprints (ad_server x')). bp_name row = vr_name recipe \<and> bp_status row = ''ACTIVE''"
  by (auto simp: register_blueprint_def on_catalog_def Let_def list_ex_iff bex_Un split: if_splits)

lemma ensure_blueprints:
  "ensure_blueprint_db name x = Some (Inr (), x') \<Longrightarrow>
     ps_blueprints (ad_server x') = ps_blueprints (ad_server x) \<and> name \<in> set (ad_pools x')"
  by (auto simp: ensure_blueprint_db_def Let_def add_pool_def split: if_splits)

definition has_status :: "string \<Rightarrow> string \<Rightarrow> ('e, 'b, 'g) service \<Rightarrow> bool" where
  "has_status name st s = (\<exists>row \<in> set (ps_blueprints (server_of s)). bp_name row = name \<and> bp_status row = st)"

lemma onboard_result:
  assumes "quiet d" "onboard d ou name s = Some (Inr res, s')"
  shows "has_status name ''ACTIVE'' s' \<and> name \<in> set (ad_pools (wl_db (sv_world s'))) \<and>
    on_previous_incidents res = load_previous_incidents (files_of d s') (root_of d)"
proof -
  obtain recipe s1 where v: "svc_validate d ou name s = Some (Inr recipe, s1)" and rest:
    "bindE (svc_online d) (\<lambda>online.
       if \<not> online then fail ''Absurd Postgres not reachable - cannot register tenant (start it with `make db-up`)''
       else bindE (pre_ignition_checks d ou recipe) (\<lambda>_.
         bindE (svc_db d (register_blueprint recipe)) (\<lambda>reactivated.
         bindE (svc_db d (ensure_blueprint_db name)) (\<lambda>_.
         bindE (gets (\<lambda>s. load_previous_incidents (files_of d s) (root_of d))) (\<lambda>incidents.
         ret \<lparr>on_message = onboard_message name reactivated recipe (length incidents),
           on_previous_incidents = incidents, on_reactivated = reactivated\<rparr>))))) s1 = Some (Inr res, s')"
    using assms(2) unfolding onboard_def by (auto simp: bindE_io [of "svc_validate d ou name"])
  have n: "vr_name recipe = name"
    using v by (auto simp: svc_validate_def io_simps dest: validate_name split: option.splits sum.splits)
  obtain b s2 s3 where r: "svc_db d (register_blueprint recipe) s2 = Some (Inr b, s3)"
    and e: "svc_db d (ensure_blueprint_db name) s3 = Some (Inr (), s')"
    and i: "on_previous_incidents res = load_previous_incidents (files_of d s') (root_of d)"
    using rest by (auto simp: io_simps split: if_splits)
  obtain x where x: "register_blueprint recipe (wl_db (sv_world s2)) = Some (Inr b, x)" "wl_db (sv_world s3) = x"
    using r assms(1) by (auto simp: svc_db_def bind_awaits_quiet in_db_io)
  have y: "ensure_blueprint_db name x = Some (Inr (), wl_db (sv_world s'))"
    using e assms(1) x(2) by (auto simp: svc_db_def bind_awaits_quiet in_db_io)
  show ?thesis using register_row [OF x(1)] ensure_blueprints [OF y] n i
    by (auto simp: has_status_def server_of_def)
qed

lemma offboarded_rows:
  assumes "set_blueprint_offboarded name x = Some (Inr u, x')" "row \<in> set (ps_blueprints (ad_server x'))"
    "bp_name row = name"
  shows "bp_status row = ''OFFBOARDED''"
proof -
  define mark :: "blueprint_row \<Rightarrow> blueprint_row" where "mark = (\<lambda>r. if bp_name r = name
      then r\<lparr>bp_status := ''OFFBOARDED'', bp_offboarded_at := Some (ps_now (ad_server x))\<rparr> else r)"
  have "ps_blueprints (ad_server x') = map mark (ps_blueprints (ad_server x))"
    using assms(1) by (cases "ad_catalog x"; cases "ps_answers (ad_server x) catalog_db")
      (auto simp add: set_blueprint_offboarded_def on_catalog_def mark_def)
  then have "row \<in> mark ` set (ps_blueprints (ad_server x))" using assms(2) by simp
  then obtain r where "row = mark r" by (rule imageE)
  then show ?thesis using assms(3) by (cases "bp_name r = name") (simp_all add: mark_def)
qed

lemma offboard_result:
  assumes "quiet d" "offboard d ou name cfg s = Some (Inr res, s')"
  shows "\<forall>row \<in> set (ps_blueprints (server_of s')). bp_name row = name \<longrightarrow> bp_status row = ''OFFBOARDED''"
proof -
  obtain s1 s2 where o: "svc_db d (set_blueprint_offboarded name) s1 = Some (Inr (), s2)"
    and g: "\<exists>q. svc_machine d (git_commit_report (dn_machine (dm_base d)) (root_of d) name
       (report_file (root_of d))) s2 = Some (q, s')"
    using assms(2) unfolding offboard_def close_blueprint_def by (auto simp: io_simps split: if_splits)
  have "server_of s' = server_of s2"
    using g keepsD [OF svc_machine_same_server [OF assms(1)]] by (auto simp: same_server_def)
  moreover obtain x where "set_blueprint_offboarded name (wl_db (sv_world s1)) = Some (Inr (), x)"
      "wl_db (sv_world s2) = x"
    using o assms(1) by (auto simp: svc_db_def bind_awaits_quiet in_db_io)
  ultimately show ?thesis using offboarded_rows by (auto simp: server_of_def)
qed

text \<open>C25: an onboarding that succeeds leaves the blueprint active in the catalog with a pool to its
  database, and hands on the incidents of the report that is on the disk; an offboarding that
  succeeds leaves no row of the blueprint that is not marked as offboarded.\<close>

theorem blueprint_status:
  assumes "quiet d" "onboard d ou name s = Some (Inr res, s1)" "offboard d ou name cfg s1 = Some (Inr res', s2)"
  shows "has_status name ''ACTIVE'' s1 \<and> name \<in> set (ad_pools (wl_db (sv_world s1))) \<and>
    on_previous_incidents res = load_previous_incidents (files_of d s1) (root_of d) \<and>
    \<not> has_status name ''ACTIVE'' s2"
  using onboard_result [OF assms(1,2)] offboard_result [OF assms(1,3)] by (auto simp: has_status_def)

definition bp_toml :: toml_parsers where
  "bp_toml = \<lparr>toml_recipe = (\<lambda>_. Some \<lparr>br_blueprint = \<lparr>bs_name = ''bp'', bs_default_workflow = ''dev''\<rparr>,
       br_remote = None, br_openwiki_scope = [''s''], br_cognitive = None\<rparr>),
     toml_workflow = (\<lambda>_. Some \<lparr>wf_name = ''dev'', wf_description = None,
       wf_steps = [sample_step ''build'' (Some ''make'')]\<rparr>),
     toml_dag = (\<lambda>_. None)\<rparr>"

definition bp_files :: disk where
  "bp_files = [(''/repo/.janus/blueprint.toml'', []), (''/repo/.janus/workflows/dev.toml'', [])]"

lemma blueprint_status_witness:
  "\<exists>res s1 res' s2. onboard (disk_server ping_pong Map.empty bp_toml) no_llm ''bp''
       (disk_service guard_empty bp_files sample_db) = Some (Inr res, s1) \<and>
     offboard (disk_server ping_pong Map.empty bp_toml) no_llm ''bp'' sample_offboard s1 = Some (Inr res', s2) \<and>
     has_status ''bp'' ''ACTIVE'' s1 \<and> \<not> has_status ''bp'' ''ACTIVE'' s2"
proof -
  let ?d = "disk_server ping_pong Map.empty bp_toml"
  let ?run = "bindE (onboard ?d no_llm ''bp'') (\<lambda>_. offboard ?d no_llm ''bp'' sample_offboard)
      (disk_service guard_empty bp_files sample_db)"
  have "case ?run of Some (Inr _, _) \<Rightarrow> True | _ \<Rightarrow> False" by code_simp
  then obtain res' s2 where "?run = Some (Inr res', s2)" by (auto split: option.splits sum.splits)
  then obtain res s1 where "onboard ?d no_llm ''bp'' (disk_service guard_empty bp_files sample_db) = Some (Inr res, s1)"
    "offboard ?d no_llm ''bp'' sample_offboard s1 = Some (Inr res', s2)" by (auto simp: bindE_io)
  then show ?thesis using blueprint_status [OF disk_quiet] by blast
qed

end
