(* ===== verification/Dag_Runner.thy ===== *)
theory Dag_Runner
  imports Dag
begin

text \<open>
  The level barriers of a DAG workflow, from \<open>handle_dispatch_dag\<close> of
  \<open>src/janus/src/bin/janus_daemon.rs\<close>: the nodes of a level are dispatched one after the other,
  then their tasks are awaited, and only when all of them succeeded the next level starts.

  The functions take the two operations as arguments: \<open>launch\<close> dispatches the workflow of a
  node, \<open>settle\<close> waits for the end of a task and says whether it succeeded. The lemmas run them
  with a log of their results, which does not change what they do (\<open>drive_unlogged\<close>):
  \<open>needs_settled\<close> says that a node is launched only after all its needs were settled.
\<close>

section \<open>Levels\<close>

fun launch_all :: "(dag_node \<Rightarrow> ('e, 'w, uuid) io) \<Rightarrow> dag_node list \<Rightarrow> ('e, 'w, uuid list) io" where
  "launch_all launch [] = ret []"
| "launch_all launch (n # ns) =
     bindE (launch n) (\<lambda>t. bindE (launch_all launch ns) (\<lambda>ts. ret (t # ts)))"

text \<open>The tasks of a level are awaited in order; the first that did not succeed ends it.\<close>

fun settle_all :: "(uuid \<Rightarrow> ('e, 'w, bool) io) \<Rightarrow> uuid list \<Rightarrow> ('e, 'w, bool) io" where
  "settle_all settle [] = ret True"
| "settle_all settle (t # ts) =
     bindE (settle t) (\<lambda>ok. if ok then settle_all settle ts else ret False)"

text \<open>The background task, with the tasks of the level that was launched last. A level that
  cannot be launched ends it.\<close>

fun drive_levels :: "(dag_node \<Rightarrow> ('e, 'w, uuid) io) \<Rightarrow> (uuid \<Rightarrow> ('e, 'w, bool) io) \<Rightarrow> uuid list \<Rightarrow>
    dag_node list list \<Rightarrow> ('e, 'w, unit) io" where
  "drive_levels launch settle tids [] = bindE (settle_all settle tids) (\<lambda>_. ret ())"
| "drive_levels launch settle tids (level # levels) =
     bindE (settle_all settle tids) (\<lambda>ok.
       if ok then bindE (attempt (launch_all launch level)) (\<lambda>r.
         case r of Inl _ \<Rightarrow> ret () | Inr tids' \<Rightarrow> drive_levels launch settle tids' levels)
       else ret ())"

section \<open>Logged runs\<close>

datatype dag_event = Launched string uuid | Settled uuid bool

definition logged :: "('a \<Rightarrow> dag_event) \<Rightarrow> ('e, 'w, 'a) io \<Rightarrow> ('e, 'w \<times> dag_event list, 'a) io" where
  "logged ev m = (\<lambda>(w, l). map_option (\<lambda>(r, w').
     (r, w', case r of Inr x \<Rightarrow> l @ [ev x] | Inl _ \<Rightarrow> l)) (m w))"

abbreviation log_launch :: "(dag_node \<Rightarrow> ('e, 'w, uuid) io) \<Rightarrow> dag_node \<Rightarrow> ('e, 'w \<times> dag_event list, uuid) io" where
  "log_launch launch n \<equiv> logged (Launched (dn_id n)) (launch n)"

abbreviation log_settle :: "(uuid \<Rightarrow> ('e, 'w, bool) io) \<Rightarrow> uuid \<Rightarrow> ('e, 'w \<times> dag_event list, bool) io" where
  "log_settle settle t \<equiv> logged (Settled t) (settle t)"

lemma logged_io: "logged ev m (w, l) = Some (r, w', l') \<longleftrightarrow>
    m w = Some (r, w') \<and> l' = (case r of Inr x \<Rightarrow> l @ [ev x] | Inl _ \<Rightarrow> l)"
  by (auto simp: logged_def)

text \<open>\<open>erases m' m\<close>: \<open>m'\<close> is \<open>m\<close> with a log.\<close>

definition erases :: "('e, 'w \<times> 'l, 'a) io \<Rightarrow> ('e, 'w, 'a) io \<Rightarrow> bool" where
  "erases m' m = (\<forall>w l. map_option (\<lambda>(r, w', l'). (r, w')) (m' (w, l)) = m w)"

named_theorems erases_intros \<open>logged computations\<close>

lemma erases_logged [erases_intros]: "erases (logged ev m) m"
  by (auto simp: erases_def logged_def option.map_comp comp_def split_beta option.map_ident)

lemma erases_ret [erases_intros]: "erases (ret x) (ret x)"
  by (simp add: erases_def ret_def)

lemma erases_attempt [erases_intros]: "erases m' m \<Longrightarrow> erases (attempt m') (attempt m)"
proof -
  assume "erases m' m"
  then have m: "m w = map_option (\<lambda>(r, w', l'). (r, w')) (m' (w, l))" for w l by (simp add: erases_def)
  show ?thesis unfolding erases_def
  proof (intro allI)
    fix w l
    show "map_option (\<lambda>(r, w', l'). (r, w')) (attempt m' (w, l)) = attempt m w"
      by (simp add: attempt_def m [of w l] option.map_comp comp_def split_beta)
  qed
qed

lemma erases_bindE [erases_intros]:
  assumes "erases m' m" "\<And>x. erases (f' x) (f x)"
  shows "erases (bindE m' f') (bindE m f)"
  unfolding erases_def
proof (intro allI)
  fix w l
  have m: "m w = map_option (\<lambda>(r, w', l'). (r, w')) (m' (w, l))" using assms(1) by (simp add: erases_def)
  show "map_option (\<lambda>(r, w', l'). (r, w')) (bindE m' f' (w, l)) = bindE m f w"
  proof (cases "m' (w, l)")
    case (Some a)
    then show ?thesis using m assms(2) by (cases a; cases "fst a") (auto simp: bindE_def erases_def)
  qed (simp add: m bindE_def)
qed

lemma launch_unlogged [erases_intros]: "erases (launch_all (log_launch launch) ns) (launch_all launch ns)"
  by (induction ns) (auto intro!: erases_intros)

lemma settle_unlogged [erases_intros]: "erases (settle_all (log_settle settle) ts) (settle_all settle ts)"
  by (induction ts) (auto intro!: erases_intros)

lemma drive_unlogged: "erases (drive_levels (log_launch launch) (log_settle settle) ts levels)
    (drive_levels launch settle ts levels)"
  by (induction levels arbitrary: ts) (auto intro!: erases_intros split: sum.split)

section \<open>Barriers\<close>

lemma launch_log:
  "launch_all (log_launch launch) ns (w, l) = Some (r, w', l') \<Longrightarrow>
     \<exists>k ts. l' = l @ map2 Launched (map dn_id (take k ns)) ts \<and> length ts = length (take k ns) \<and>
       (\<forall>us. r = Inr us \<longrightarrow> us = ts \<and> length us = length ns \<and> take k ns = ns)"
proof (induction ns arbitrary: w l r w' l')
  case Nil
  then show ?case by (auto simp: io_simps)
next
  case (Cons n ns)
  from Cons.prems consider (fail) e where "l' = l" "r = Inl e"
    | (ok) t w1 where "launch n w = Some (Inr t, w1)"
      "bindE (launch_all (log_launch launch) ns) (\<lambda>ts. ret (t # ts)) (w1, l @ [Launched (dn_id n) t]) = Some (r, w', l')"
    by (auto simp: bindE_io [of "log_launch launch n"] logged_io)
  then show ?case
  proof cases
    case fail
    then show ?thesis by (intro exI [of _ 0] exI [of _ "[]"]) simp
  next
    case ok
    then obtain q where q: "launch_all (log_launch launch) ns (w1, l @ [Launched (dn_id n) t]) = Some (q, w', l')"
      "r = map_sum id ((#) t) q"
    proof -
      have "(\<exists>e. launch_all (log_launch launch) ns (w1, l @ [Launched (dn_id n) t]) = Some (Inl e, w', l') \<and> r = Inl e) \<or>
          (\<exists>us. launch_all (log_launch launch) ns (w1, l @ [Launched (dn_id n) t]) = Some (Inr us, w', l') \<and> r = Inr (t # us))"
        using ok(2) by (auto simp: io_simps)
      then show thesis by (elim disjE exE conjE) (rule that, assumption, simp)+
    qed
    from Cons.IH [OF q(1)] obtain k ts where
      "l' = (l @ [Launched (dn_id n) t]) @ map2 Launched (map dn_id (take k ns)) ts" "length ts = length (take k ns)"
      "\<forall>us. q = Inr us \<longrightarrow> us = ts \<and> length us = length ns \<and> take k ns = ns" by blast
    with q(2) show ?thesis
      by (intro exI [of _ "Suc k"] exI [of _ "t # ts"]) (cases q; simp)
  qed
qed

lemma settle_log:
  "settle_all (log_settle settle) ts (w, l) = Some (r, w', l') \<Longrightarrow>
     \<exists>us. l' = l @ us \<and> (\<forall>u \<in> set us. \<exists>t b. u = Settled t b) \<and>
       (r = Inr True \<longrightarrow> (\<forall>t \<in> set ts. Settled t True \<in> set us))"
proof (induction ts arbitrary: w l r w' l')
  case Nil
  then show ?case by (auto simp: io_simps)
next
  case (Cons t ts)
  from Cons.prems consider (fail) e where "l' = l" "r = Inl e"
    | (no) "l' = l @ [Settled t False]" "r = Inr False"
    | (yes) w1 where "settle_all (log_settle settle) ts (w1, l @ [Settled t True]) = Some (r, w', l')"
    by (auto simp: bindE_io [of "log_settle settle t"] logged_io io_simps split: if_splits)
  then show ?case
  proof cases
    case yes
    from Cons.IH [OF this] obtain us where "l' = (l @ [Settled t True]) @ us"
      "\<forall>u \<in> set us. \<exists>t b. u = Settled t b" "r = Inr True \<longrightarrow> (\<forall>t \<in> set ts. Settled t True \<in> set us)" by blast
    then show ?thesis by (intro exI [of _ "Settled t True # us"]) auto
  qed auto
qed

text \<open>What the events before a launch say of the levels below: each node was launched and settled.\<close>

definition settled_ids :: "dag_event list \<Rightarrow> string set" where
  "settled_ids l = {i. \<exists>t. Launched i t \<in> set l \<and> Settled t True \<in> set l}"

lemma settled_ids_append: "settled_ids l \<subseteq> settled_ids (l @ m)"
  by (auto simp: settled_ids_def)

definition launches_after :: "string set \<Rightarrow> dag_node list list \<Rightarrow> dag_event list \<Rightarrow> dag_event list \<Rightarrow> bool" where
  "launches_after base levels l us =
     (\<forall>i < length us. \<forall>x t. us ! i = Launched x t \<longrightarrow>
        (\<exists>j < length levels. x \<in> dn_id ` set (levels ! j) \<and>
           base \<union> dn_id ` set (concat (take j levels)) \<subseteq> settled_ids (l @ take i us)))"

lemma launches_after_none: "(\<And>x t. Launched x t \<notin> set us) \<Longrightarrow> launches_after base levels l us"
  by (force simp: launches_after_def in_set_conv_nth)

text \<open>One level: what was awaited, what is launched, and what the rest does.\<close>

lemma launches_after_level:
  assumes "\<And>x t. Launched x t \<notin> set us" "base \<subseteq> settled_ids (l @ us)"
    "vs = map2 Launched (map dn_id (take k level)) ts"
    "launches_after (base \<union> dn_id ` set level) levels (l @ us @ vs) ws"
  shows "launches_after base (level # levels) l (us @ vs @ ws)"
  unfolding launches_after_def
proof (intro allI impI)
  fix i x t
  assume i: "i < length (us @ vs @ ws)" and ev: "(us @ vs @ ws) ! i = Launched x t"
  let ?below = "\<lambda>j. base \<union> dn_id ` set (concat (take j (level # levels)))"
  have "length us \<le> i" using assms(1) ev by (metis nth_append nth_mem not_le)
  then consider "i < length us + length vs" | "length us + length vs \<le> i" by linarith
  then show "\<exists>j < length (level # levels). x \<in> dn_id ` set ((level # levels) ! j) \<and>
      ?below j \<subseteq> settled_ids (l @ take i (us @ vs @ ws))"
  proof cases
    case 1
    with \<open>length us \<le> i\<close> have "\<not> i < length us" and n: "i - length us < length vs" by linarith+
    then have "vs ! (i - length us) = Launched x t" using ev by (simp add: nth_append)
    with n have "Launched x t \<in> set vs" by (metis nth_mem)
    then have "x \<in> dn_id ` set level" unfolding assms(3) by (auto dest!: set_zip_leftD in_set_takeD)
    moreover have "base \<subseteq> settled_ids (l @ take i (us @ vs @ ws))"
      using assms(2) settled_ids_append [of "l @ us" "take (i - length us) (vs @ ws)"] \<open>length us \<le> i\<close> by simp
    ultimately show ?thesis by (intro exI [of _ 0]) simp
  next
    case 2
    define m where "m = i - length us - length vs"
    have e: "ws ! m = (us @ vs @ ws) ! i"
      using 2 nth_append_length_plus [of "us @ vs" ws m] by (simp add: m_def)
    have m: "m < length ws" "take i (us @ vs @ ws) = us @ vs @ take m ws"
      using i 2 by (simp_all add: m_def)
    moreover have "ws ! m = Launched x t" using e ev by (rule trans)
    ultimately obtain j where "j < length levels" "x \<in> dn_id ` set (levels ! j)"
      "(base \<union> dn_id ` set level) \<union> dn_id ` set (concat (take j levels)) \<subseteq> settled_ids ((l @ us @ vs) @ take m ws)"
      using assms(4) unfolding launches_after_def by blast
    then show ?thesis using m(2) by (intro exI [of _ "Suc j"]) (auto simp: image_Un)
  qed
qed

lemma drive_log:
  "drive_levels (log_launch launch) (log_settle settle) tids levels (w, l) = Some (r, w', l') \<Longrightarrow>
   (\<forall>b \<in> base - settled_ids l. \<exists>t \<in> set tids. Launched b t \<in> set l) \<Longrightarrow>
   \<exists>us. l' = l @ us \<and> launches_after base levels l us"
proof (induction levels arbitrary: tids w l base)
  case Nil
  then obtain q where "settle_all (log_settle settle) tids (w, l) = Some (q, w', l')" by (auto simp: io_simps)
  from settle_log [OF this] show ?case by (auto intro!: launches_after_none)
next
  case (Cons level levels)
  from Cons.prems(1) consider
    (stop) q where "settle_all (log_settle settle) tids (w, l) = Some (q, w', l')"
    | (go) w1 l1 q w2 l2 where "settle_all (log_settle settle) tids (w, l) = Some (Inr True, w1, l1)"
      "launch_all (log_launch launch) level (w1, l1) = Some (q, w2, l2)"
      "(case q of Inl _ \<Rightarrow> ret () | Inr tids' \<Rightarrow>
         drive_levels (log_launch launch) (log_settle settle) tids' levels) (w2, l2) = Some (r, w', l')"
    by (auto simp: io_simps split: if_splits) 
  then show ?case
  proof cases
    case stop
    from settle_log [OF this] show ?thesis by (auto intro!: launches_after_none)
  next
    case go
    from settle_log [OF go(1)] obtain us where us: "l1 = l @ us" "\<forall>u \<in> set us. \<exists>t b. u = Settled t b"
      "\<forall>t \<in> set tids. Settled t True \<in> set us" by auto
    from launch_log [OF go(2)] obtain k ts where vs: "l2 = l1 @ map2 Launched (map dn_id (take k level)) ts"
      "length ts = length (take k level)" "\<forall>ys. q = Inr ys \<longrightarrow> ys = ts \<and> take k level = level" by blast
    have base: "base \<subseteq> settled_ids (l @ us)"
    proof
      fix b assume "b \<in> base"
      then show "b \<in> settled_ids (l @ us)"
      proof (cases "b \<in> settled_ids l")
        case False
        then obtain t where "t \<in> set tids" "Launched b t \<in> set l" using Cons.prems(2) \<open>b \<in> base\<close> by blast
        then show ?thesis using us(3) by (auto simp: settled_ids_def)
      qed (use settled_ids_append [of l us] in blast)
    qed
    have "\<exists>ws. l' = l2 @ ws \<and> launches_after (base \<union> dn_id ` set level) levels l2 ws"
    proof (cases q)
      case (Inl e)
      then show ?thesis using go(3) by (auto simp: io_simps intro!: launches_after_none)
    next
      case (Inr ys)
      have "\<exists>t \<in> set ys. Launched (dn_id n) t \<in> set l2" if "n \<in> set level" for n
      proof -
        from that obtain i where i: "i < length level" "level ! i = n" by (auto simp: in_set_conv_nth)
        have ys: "ys = ts" "take k level = level" "length ts = length level"
          using vs Inr by simp_all
        then have "Launched (dn_id n) (ts ! i) \<in> set (map2 Launched (map dn_id level) ts)"
          using i nth_mem [of i "map2 Launched (map dn_id level) ts"] by simp
        then show ?thesis using ys vs(1) i by (auto intro!: bexI [of _ "ts ! i"])
      qed
      moreover have "base \<subseteq> settled_ids l2"
        using base settled_ids_append [of "l @ us"] us(1) vs(1) by auto
      ultimately show ?thesis
        using Cons.IH [of ys w2 l2 "base \<union> dn_id ` set level"] go(3) Inr by auto
    qed
    then obtain ws where ws: "l' = l2 @ ws" "launches_after (base \<union> dn_id ` set level) levels l2 ws" by blast
    have "launches_after base (level # levels) l (us @ map2 Launched (map dn_id (take k level)) ts @ ws)"
      using us(1,2) vs(1) ws(2) base by (intro launches_after_level [where k = k and ts = ts]) auto
    then show ?thesis using us(1) vs(1) ws(1) by auto
  qed
qed

text \<open>The log of a whole run: the first level by the handler, the others by the driver.\<close>

lemma launched_ids:
  assumes "length ts = length ns" "i < length (map2 Launched (map dn_id ns) ts)"
    "map2 Launched (map dn_id ns) ts ! i = Launched x t"
  shows "x \<in> dn_id ` set ns"
proof -
  have "Launched x t \<in> set (map2 Launched (map dn_id ns) ts)" using assms(2,3) by (metis nth_mem)
  then show ?thesis by (auto dest!: set_zip_leftD)
qed

lemma plan_node:
  assumes "distinct (map dn_id (dc_nodes c))" "dag_plan c = Some (Inr levels)" "n \<in> set (dc_nodes c)"
    "j < length levels" "dn_id n \<in> dn_id ` set (levels ! j)" "d \<in> set (dn_needs n)"
  shows "d \<in> dn_id ` set (concat (take j levels))"
proof -
  from assms(5) obtain m where m: "m \<in> set (levels ! j)" "dn_id m = dn_id n" by auto
  note plan = plan_topological [OF assms(1,2)]
  have "m \<in> set (concat levels)" using m(1) assms(4) by (auto intro: nth_mem)
  then have "m \<in> set (dc_nodes c)" using plan by (metis set_mset_mset)
  then have "m = n" using m(2) assms(1,3) by (auto simp: distinct_map inj_on_def)
  then show ?thesis using plan m(1) assms(4,6) by blast
qed

lemma needs_settled:
  assumes dist: "distinct (map dn_id (dc_nodes c))" and plan: "dag_plan c = Some (Inr (level # levels))"
    and first: "launch_all (log_launch launch) level (w, []) = Some (Inr tids, w1, l1)"
    and run: "drive_levels (log_launch launch) (log_settle settle) tids levels (w2, l1) = Some (r, w3, l)"
    and ev: "i < length l" "l ! i = Launched (dn_id n) t" and n: "n \<in> set (dc_nodes c)" "d \<in> set (dn_needs n)"
  shows "\<exists>u. Launched d u \<in> set (take i l) \<and> Settled u True \<in> set (take i l)"
proof -
  from launch_log [OF first] have l1: "l1 = map2 Launched (map dn_id level) tids" "length tids = length level"
    by auto
  have "\<exists>u \<in> set tids. Launched (dn_id m) u \<in> set l1" if m: "m \<in> set level" for m
  proof -
    from m obtain k where "k < length level" "level ! k = m" by (auto simp: in_set_conv_nth)
    then show ?thesis using l1 nth_mem [of k l1] by (auto intro!: bexI [of _ "tids ! k"])
  qed
  then have "\<forall>b \<in> dn_id ` set level - settled_ids l1. \<exists>u \<in> set tids. Launched b u \<in> set l1" by blast
  from drive_log [OF run this] obtain us where us: "l = l1 @ us" "launches_after (dn_id ` set level) levels l1 us"
    by blast
  show ?thesis
  proof (cases "i < length l1")
    case True
    then have "dn_id n \<in> dn_id ` set level" using ev us(1) l1
      by (intro launched_ids [of tids level i]) (auto simp: nth_append)
    then show ?thesis using plan_node [OF dist plan n(1), of 0 d] n(2) by simp
  next
    case False
    define k where "k = i - length l1"
    have "k < length us" "us ! k = Launched (dn_id n) t" using False ev us(1) by (auto simp: k_def nth_append)
    then obtain j where j: "j < length levels" "dn_id n \<in> dn_id ` set (levels ! j)"
      "dn_id ` set level \<union> dn_id ` set (concat (take j levels)) \<subseteq> settled_ids (l1 @ take k us)"
      using us(2) unfolding launches_after_def by blast
    have "d \<in> dn_id ` set (concat (take (Suc j) (level # levels)))"
      using j(1,2) n(2) by (intro plan_node [OF dist plan n(1), of "Suc j"]) auto
    then have "d \<in> dn_id ` set level \<union> dn_id ` set (concat (take j levels))" by (simp add: image_Un)
    with j(3) have "d \<in> settled_ids (l1 @ take k us)" by (rule subsetD)
    then show ?thesis using False us(1) by (auto simp: settled_ids_def k_def)
  qed
qed

end
