(* ===== verification/Credential.thy ===== *)
theory Credential
  imports Prelude "HOL-Library.AList"
begin

text \<open>
  Short-lived credentials of tasks, \<open>src/janus/src/credential.rs\<close>, and the sweep of the cold
  start, \<open>reconcile_credentials\<close> of \<open>src/janus/src/coldstart.rs\<close>.

  The trait \<open>CredentialProvider\<close> is the locale \<open>credential_provider\<close>: its laws say what each
  operation does to the credentials that a provider holds, and the lemmas about the sweep are
  proved from them. The two providers of the code interpret it. The clock is an argument in
  seconds, and \<open>later\<close> is chrono's addition, \<open>None\<close> where it overflows and panics.
\<close>

section \<open>Providers\<close>

record credential =
  cd_task_id :: uuid
  cd_key :: string
  cd_secret :: string
  cd_token :: "string option"
  cd_expires_at :: int
  cd_scopes :: "string list"

definition is_expired :: "int \<Rightarrow> credential \<Rightarrow> bool" where
  "is_expired now c = (cd_expires_at c < now)"

text \<open>The clock and its addition.\<close>

record clock =
  ck_now :: int
  ck_later :: "int \<Rightarrow> int \<Rightarrow> int option"

record 'p credential_ops =
  provision :: "clock \<Rightarrow> uuid \<Rightarrow> string list \<Rightarrow> int \<Rightarrow> (string, 'p, credential) io"
  revoke :: "uuid \<Rightarrow> (string, 'p, unit) io"
  cleanup_sweep :: "clock \<Rightarrow> uuid list \<Rightarrow> (string, 'p, nat) io"

definition noop_provision :: "clock \<Rightarrow> uuid \<Rightarrow> string list \<Rightarrow> int \<Rightarrow> (string, 'p, credential) io" where
  "noop_provision ck task_id scopes ttl_seconds p =
     (case ck_later ck (ck_now ck) ttl_seconds of
        None \<Rightarrow> None
      | Some expires_at \<Rightarrow>
          ret \<lparr>cd_task_id = task_id, cd_key = ''noop-key-'' @ uuid_simple task_id,
            cd_secret = ''noop-secret-'' @ uuid_simple task_id, cd_token = None,
            cd_expires_at = expires_at, cd_scopes = scopes\<rparr> p)"

definition noop_provider :: "'p credential_ops" where
  "noop_provider = \<lparr>provision = noop_provision, revoke = (\<lambda>_. ret ()), cleanup_sweep = (\<lambda>_ _. ret 0)\<rparr>"

text \<open>The in-memory provider: the map under its lock.\<close>

type_synonym active_keys = "(uuid \<times> credential) list"

definition memory_new :: active_keys where
  "memory_new = []"

definition active_count :: "active_keys \<Rightarrow> nat" where
  "active_count ks = length ks"

definition get_key :: "uuid \<Rightarrow> active_keys \<Rightarrow> string option" where
  "get_key task_id ks = map_option cd_key (map_of ks task_id)"

definition memory_provision :: "clock \<Rightarrow> uuid \<Rightarrow> string list \<Rightarrow> int \<Rightarrow> (string, active_keys, credential) io" where
  "memory_provision ck task_id scopes ttl_seconds ks =
     (case ck_later ck (ck_now ck) ttl_seconds of
        None \<Rightarrow> None
      | Some expires_at \<Rightarrow>
          let cred = \<lparr>cd_task_id = task_id, cd_key = ''mem-key-'' @ uuid_simple task_id,
            cd_secret = ''mem-secret-'' @ uuid_simple task_id, cd_token = Some ''mem-token'',
            cd_expires_at = expires_at, cd_scopes = scopes\<rparr> in
          Some (Inr cred, AList.update task_id cred ks))"

definition memory_revoke :: "uuid \<Rightarrow> (string, active_keys, unit) io" where
  "memory_revoke task_id ks = Some (Inr (), AList.delete task_id ks)"

definition keep_key :: "int \<Rightarrow> uuid list \<Rightarrow> uuid \<times> credential \<Rightarrow> bool" where
  "keep_key now active_task_ids = (\<lambda>(i, cred). i \<in> set active_task_ids \<and> now \<le> cd_expires_at cred)"

text \<open>\<open>retain\<close> with the count of what it drops.\<close>

fun retain_keys :: "int \<Rightarrow> uuid list \<Rightarrow> active_keys \<Rightarrow> nat \<Rightarrow> nat \<times> active_keys" where
  "retain_keys now active_task_ids [] revoked = (revoked, [])"
| "retain_keys now active_task_ids (k # ks) revoked =
     (if keep_key now active_task_ids k then
        (let (n, rest) = retain_keys now active_task_ids ks revoked in (n, k # rest))
      else retain_keys now active_task_ids ks (revoked + 1))"

definition memory_sweep :: "clock \<Rightarrow> uuid list \<Rightarrow> (string, active_keys, nat) io" where
  "memory_sweep ck active_task_ids ks =
     (let (revoked, ks') = retain_keys (ck_now ck) active_task_ids ks 0 in Some (Inr revoked, ks'))"

definition memory_provider :: "active_keys credential_ops" where
  "memory_provider = \<lparr>provision = memory_provision, revoke = memory_revoke, cleanup_sweep = memory_sweep\<rparr>"

text \<open>The sweep of the cold start.\<close>

definition reconcile_credentials :: "'p credential_ops \<Rightarrow> clock \<Rightarrow> uuid list \<Rightarrow> (string, 'p, nat) io" where
  "reconcile_credentials provider ck active_task_ids =
     bindE (cleanup_sweep provider ck active_task_ids) (\<lambda>revoked. ret revoked)"

section \<open>The contract\<close>

text \<open>\<open>held p\<close> is what a provider in state \<open>p\<close> holds, \<open>ok p\<close> its invariant.\<close>

definition still_valid :: "int \<Rightarrow> uuid list \<Rightarrow> (uuid \<Rightarrow> credential option) \<Rightarrow> uuid \<Rightarrow> credential option" where
  "still_valid now active h =
     (\<lambda>t. case h t of None \<Rightarrow> None | Some c \<Rightarrow> if t \<in> set active \<and> \<not> is_expired now c then Some c else None)"

locale credential_provider =
  fixes ops :: "'p credential_ops" and held :: "'p \<Rightarrow> uuid \<Rightarrow> credential option" and ok :: "'p \<Rightarrow> bool"
  assumes provision_ok: "ok p \<Longrightarrow> provision ops ck t scopes ttl p = Some (r, p') \<Longrightarrow>
      ok p' \<and> (\<exists>c. r = Inr c \<and> cd_task_id c = t \<and> cd_scopes c = scopes \<and>
        ck_later ck (ck_now ck) ttl = Some (cd_expires_at c) \<and>
        (\<forall>u. held p' u = held p u \<or> u = t \<and> held p' u = Some c))"
    and revoke_ok: "ok p \<Longrightarrow> \<exists>p'. revoke ops t p = Some (Inr (), p') \<and> ok p' \<and> held p' = (held p)(t := None)"
    and sweep_ok: "ok p \<Longrightarrow> \<exists>n p'. cleanup_sweep ops ck active p = Some (Inr n, p') \<and> ok p' \<and>
      held p' = still_valid (ck_now ck) active (held p) \<and> n = card (dom (held p)) - card (dom (held p')) \<and>
      finite (dom (held p))"
begin

lemma still_valid_dom: "dom (still_valid now active h) \<subseteq> dom h"
  by (auto simp: still_valid_def split: option.splits if_splits)

text \<open>The sweep keeps exactly what is valid and counts the rest; a second one revokes nothing.\<close>

lemma reconcile_ok:
  assumes "ok p"
  shows "\<exists>n p'. reconcile_credentials ops ck active p = Some (Inr n, p') \<and> ok p' \<and>
    held p' = still_valid (ck_now ck) active (held p) \<and>
    n = card {t. \<exists>c. held p t = Some c \<and> (t \<notin> set active \<or> is_expired (ck_now ck) c)}"
proof -
  obtain n p' where s: "cleanup_sweep ops ck active p = Some (Inr n, p')" "ok p'"
    "held p' = still_valid (ck_now ck) active (held p)"
    "n = card (dom (held p)) - card (dom (held p'))" "finite (dom (held p))"
    using sweep_ok [OF assms] by blast
  have "dom (held p') \<subseteq> dom (held p)" unfolding s(3) by (rule still_valid_dom)
  then have "n = card (dom (held p) - dom (held p'))"
    using s(4,5) by (simp add: card_Diff_subset finite_subset)
  also have "dom (held p) - dom (held p') =
      {t. \<exists>c. held p t = Some c \<and> (t \<notin> set active \<or> is_expired (ck_now ck) c)}"
    unfolding s(3) by (auto simp: still_valid_def split: option.splits if_splits)
  finally show ?thesis using s(1-3) by (auto simp: reconcile_credentials_def bindE_def ret_def)
qed

lemma reconcile_again:
  assumes "ok p" "reconcile_credentials ops ck active p = Some (r, p')"
    "reconcile_credentials ops ck active p' = Some (r', p'')"
  shows "r' = Inr 0 \<and> held p'' = held p'"
proof -
  have p': "ok p'" "held p' = still_valid (ck_now ck) active (held p)"
    using reconcile_ok [OF assms(1), of ck active] assms(2) by auto
  have none: "{t. \<exists>c. held p' t = Some c \<and> (t \<notin> set active \<or> is_expired (ck_now ck) c)} = {}"
    unfolding p'(2) by (auto simp: still_valid_def split: option.splits if_splits)
  have same: "still_valid (ck_now ck) active (held p') = held p'"
    unfolding p'(2) by (auto simp: still_valid_def fun_eq_iff split: option.splits)
  show ?thesis using reconcile_ok [OF p'(1), of ck active] assms(3) unfolding none same by auto
qed

end

interpretation noop: credential_provider "noop_provider :: unit credential_ops" "\<lambda>_ _. None" "\<lambda>_. True"
  by unfold_locales
    (auto simp: noop_provider_def noop_provision_def ret_def still_valid_def split: option.splits)

lemma keep_key_pair: "keep_key now active (t, c) \<longleftrightarrow> t \<in> set active \<and> \<not> is_expired now c"
  by (auto simp: keep_key_def is_expired_def)

lemma retain_keys_filter:
  "retain_keys now active ks n = (n + (length ks - length (filter (keep_key now active) ks)), filter (keep_key now active) ks)"
proof (induction ks arbitrary: n)
  case (Cons k ks)
  have "length (filter (keep_key now active) ks) \<le> length ks" by simp
  then show ?case by (simp add: Cons.IH, arith)
qed simp

lemma map_of_valid_keys:
  "distinct (map fst ks) \<Longrightarrow> map_of (filter (keep_key now active) ks) = still_valid now active (map_of ks)"
proof (induction ks)
  case (Cons k ks)
  obtain t c where k: "k = (t, c)" by force
  have t: "map_of ks t = None" using Cons.prems k by (auto simp: map_of_eq_None_iff)
  have ih: "map_of (filter (keep_key now active) ks) = still_valid now active (map_of ks)"
    using Cons by simp
  show ?case
    using t unfolding k by (auto simp: fun_eq_iff ih keep_key_pair still_valid_def split: option.splits)
qed (simp add: still_valid_def)

lemma card_dom_map_of: "distinct (map fst ks) \<Longrightarrow> card (dom (map_of ks)) = length ks"
  by (simp add: dom_map_of_conv_image_fst card_image distinct_map flip: set_map length_map)
     (metis distinct_card length_map set_map distinct_map)

interpretation memory: credential_provider memory_provider map_of "\<lambda>ks. distinct (map fst ks)"
proof
  fix ks :: active_keys and ck :: clock and t scopes ttl r ks'
  assume "distinct (map fst ks)" "provision memory_provider ck t scopes ttl ks = Some (r, ks')"
  then show "distinct (map fst ks') \<and> (\<exists>c. r = Inr c \<and> cd_task_id c = t \<and> cd_scopes c = scopes \<and>
      ck_later ck (ck_now ck) ttl = Some (cd_expires_at c) \<and>
      (\<forall>u. map_of ks' u = map_of ks u \<or> u = t \<and> map_of ks' u = Some c))"
    by (auto simp: memory_provider_def memory_provision_def Let_def AList.update_conv AList.distinct_update
        split: option.splits)
next
  fix ks :: active_keys and t
  assume "distinct (map fst ks)"
  then show "\<exists>ks'. revoke memory_provider t ks = Some (Inr (), ks') \<and> distinct (map fst ks') \<and>
      map_of ks' = (map_of ks)(t := None)"
    by (simp add: memory_provider_def memory_revoke_def AList.delete_conv' AList.distinct_delete)
next
  fix ks :: active_keys and ck :: clock and active
  assume d: "distinct (map fst ks)"
  let ?ks = "filter (keep_key (ck_now ck) active) ks"
  have d': "distinct (map fst ?ks)" using d by (simp add: distinct_map inj_on_def)
  show "\<exists>n ks'. cleanup_sweep memory_provider ck active ks = Some (Inr n, ks') \<and> distinct (map fst ks') \<and>
      map_of ks' = still_valid (ck_now ck) active (map_of ks) \<and>
      n = card (dom (map_of ks)) - card (dom (map_of ks')) \<and> finite (dom (map_of ks))"
    using d d' card_dom_map_of [OF d] card_dom_map_of [OF d']
    by (simp add: memory_provider_def memory_sweep_def retain_keys_filter map_of_valid_keys finite_dom_map_of)
qed

text \<open>C29: the sweep of the cold start over the in-memory provider leaves exactly the credentials of
  active tasks that have not expired and returns how many it revoked; the keys stay distinct,
  and a second sweep at the same time revokes nothing.\<close>

theorem memory_sweep_exact:
  assumes "distinct (map fst ks)"
  shows "\<exists>n ks'. reconcile_credentials memory_provider ck active ks = Some (Inr n, ks') \<and>
    distinct (map fst ks') \<and> map_of ks' = still_valid (ck_now ck) active (map_of ks) \<and>
    n = card {t. \<exists>c. map_of ks t = Some c \<and> (t \<notin> set active \<or> is_expired (ck_now ck) c)} \<and>
    (\<exists>ks''. reconcile_credentials memory_provider ck active ks' = Some (Inr 0, ks'') \<and> map_of ks'' = map_of ks')"
proof -
  obtain n ks' where s: "reconcile_credentials memory_provider ck active ks = Some (Inr n, ks')" "distinct (map fst ks')"
    "map_of ks' = still_valid (ck_now ck) active (map_of ks)"
    "n = card {t. \<exists>c. map_of ks t = Some c \<and> (t \<notin> set active \<or> is_expired (ck_now ck) c)}"
    using memory.reconcile_ok [OF assms] by blast
  obtain m ks'' where s': "reconcile_credentials memory_provider ck active ks' = Some (Inr m, ks'')"
    using memory.reconcile_ok [OF s(2), of ck active] by blast
  with memory.reconcile_again [OF assms s(1) s'] s show ?thesis by auto
qed

definition sample_keys :: active_keys where
  "sample_keys = map (\<lambda>(t, e). (t, \<lparr>cd_task_id = t, cd_key = [], cd_secret = [], cd_token = None,
     cd_expires_at = e, cd_scopes = []\<rparr>)) [(1, 10), (2, 3), (3, 10)]"

lemma memory_sweep_exact_witness:
  "\<exists>ks'. reconcile_credentials memory_provider \<lparr>ck_now = 5, ck_later = (\<lambda>_ _. None)\<rparr> [1, 2] sample_keys = Some (Inr 2, ks') \<and>
     map_of ks' = still_valid 5 [1, 2] (map_of sample_keys)"
proof -
  have "distinct (map fst sample_keys)" by (simp add: sample_keys_def)
  from memory_sweep_exact [OF this, of "\<lparr>ck_now = 5, ck_later = (\<lambda>_ _. None)\<rparr>" "[1, 2]"]
  show ?thesis
    by (auto simp: reconcile_credentials_def memory_provider_def memory_sweep_def sample_keys_def keep_key_def bindE_def ret_def)
qed

end
