(* ===== verification/Daemon.thy ===== *)
theory Daemon
  imports Lifecycle Dag_Runner Credential "HOL-Library.List_Lexorder" "HOL-Library.Char_ord"
begin

text \<open>
  The handlers of the daemon, \<open>handle_request\<close> of \<open>src/janus/src/bin/janus_daemon.rs\<close>, with the
  dispatch of workflows and DAGs, stop and continue, the workflow files of the studio and the
  harvested references; the reconciliation of the cold start, \<open>src/janus/src/coldstart.rs\<close>; and
  the lock on the process id.

  Handlers act on the service of \<open>Guard_Service\<close>. Tasks that a handler spawns are recorded and
  run by \<open>run_background\<close>; what they do meanwhile is part of \<open>dm_others\<close> and \<open>dm_join\<close>.
\<close>

section \<open>More of the outside\<close>

text \<open>Directory listings, temporary directories, the signal that probes a process (\<open>None\<close> for
  success, else the error number), and the texts of errors.\<close>

record 'g host =
  ho_outside :: "'g outside"
  ho_read_dir :: "fs \<Rightarrow> string \<Rightarrow> string list option"
  ho_tempdir :: "(string, 'g, string) io"
  ho_remove_tempdir :: "string \<Rightarrow> 'g \<Rightarrow> 'g"
  ho_kill0 :: "int \<Rightarrow> 'g \<Rightarrow> nat option"
  ho_pid :: nat
  ho_show_dag :: "dag_error \<Rightarrow> string"
  ho_read_error :: "string \<Rightarrow> string"

definition show_error :: "'g host \<Rightarrow> recipe_error \<Rightarrow> string" where
  "show_error h = ou_show_error (ho_outside h)"

section \<open>Dispatch\<close>

text \<open>The engine of a run: its pool, the backends for its remote user, the proxy shell.\<close>

definition daemon_for :: "('c, 'e, 'b, 'g) server \<Rightarrow> string \<Rightarrow> validated_recipe \<Rightarrow> string \<Rightarrow> ('e, 'b, 'g) daemon" where
  "daemon_for d pool recipe janush =
     (dm_base d)\<lparr>dn_engine := dm_engine d pool, dn_factory := dm_factory d (vr_remote_user recipe),
       dn_janush := janush\<rparr>"

definition find_janush :: "('c, 'e, 'b, 'g) server \<Rightarrow> ('e, 'b, 'g) service \<Rightarrow> string + string" where
  "find_janush d s = resolve_janush_exe (dn_env (dm_base d)) (dm_current_exe d) (file_exists (files_of d s))"

definition dispatch_workflow_handle :: "('c, 'e, 'b, 'g) server \<Rightarrow> 'g host \<Rightarrow> string \<Rightarrow> workflow \<Rightarrow>
    ('e, 'b, 'g, uuid) svc" where
  "dispatch_workflow_handle d h blueprint w =
     bindE (svc_online d) (\<lambda>online.
     if \<not> online then fail ''Absurd Postgres not reachable - cannot dispatch (start it with `make db-up`)''
     else
       bindE (gets (find_janush d)) (\<lambda>exe.
       case exe of
         Inl _ \<Rightarrow> fail ''resolve janush binary''
       | Inr janush \<Rightarrow>
           bindE (svc_validate d (ho_outside h) blueprint) (\<lambda>r.
           let recipe = r\<lparr>vr_workflow := w\<rparr> in
           bindE (svc_db d (ensure_blueprint_db blueprint)) (\<lambda>_.
           bindE (svc_db d (blueprint_pool blueprint)) (\<lambda>p.
           case p of
             None \<Rightarrow> fail (''blueprint DB unreachable for '' @ blueprint)
           | Some pool \<Rightarrow>
               bindE (in_world (spawn_workflow (daemon_for d pool recipe janush) recipe (wf_name w))) (\<lambda>task_id.
               bindE (spawn_background (Workflow_run pool recipe (wf_name w) task_id janush)) (\<lambda>_.
               ret task_id)))))))"

definition svc_load_workflow :: "('c, 'e, 'b, 'g) server \<Rightarrow> 'g host \<Rightarrow> string \<Rightarrow> ('e, 'b, 'g, workflow) svc" where
  "svc_load_workflow d h name s =
     (case load_workflow (dm_toml d) (files_of d s) name (root_of d) of
        Inl e \<Rightarrow> fail (show_error h e) s
      | Inr w \<Rightarrow> ret w s)"

definition svc_load_unified :: "('c, 'e, 'b, 'g) server \<Rightarrow> 'g host \<Rightarrow> string \<Rightarrow> ('e, 'b, 'g, unified_workflow) svc" where
  "svc_load_unified d h name s =
     (case load_unified_workflow (dm_toml d) (files_of d s) name (root_of d) of
        None \<Rightarrow> None
      | Some (Inl e) \<Rightarrow> fail (show_error h e) s
      | Some (Inr u) \<Rightarrow> ret u s)"

section \<open>DAGs\<close>

definition dag_launch :: "('c, 'e, 'b, 'g) server \<Rightarrow> 'g host \<Rightarrow> string \<Rightarrow> (string \<Rightarrow> workflow option) \<Rightarrow>
    dag_node \<Rightarrow> ('e, 'b, 'g, uuid) svc" where
  "dag_launch d h blueprint inline_register node =
     bindE (case inline_register (dn_workflow node) of
         Some w \<Rightarrow> ret w
       | None \<Rightarrow> svc_load_workflow d h (dn_workflow node))
       (dispatch_workflow_handle d h blueprint)"

text \<open>What the rows of a task say: all completed, some failed, or not yet known.\<close>

definition row_done :: "string \<times> i32 option \<Rightarrow> bool" where
  "row_done = (\<lambda>(status, exit_code). status = ''COMPLETED'' \<and> or_default 0 exit_code = 0)"

definition row_failed :: "string \<times> i32 option \<Rightarrow> bool" where
  "row_failed = (\<lambda>(status, exit_code). status = ''FAILED'' \<or> or_default 0 exit_code \<noteq> 0)"

definition steps_outcome :: "(string \<times> i32 option) list \<Rightarrow> bool option" where
  "steps_outcome steps =
     (if steps = [] then None
      else if list_all row_done steps then Some True
      else if list_ex row_failed steps then Some False
      else None)"

definition task_rows :: "uuid \<Rightarrow> string \<Rightarrow> (string \<times> i32 option) list db_op" where
  "task_rows task_id pool = on_overlay pool (\<lambda>now rows.
     (map (\<lambda>r. (mr_status r, mr_exit_code r)) (filter (\<lambda>r. mr_task_id r = task_id) rows), rows))"

definition query_steps :: "('c, 'e, 'b, 'g) server \<Rightarrow> string \<Rightarrow> uuid \<Rightarrow> ('e, 'b, 'g, bool option) svc" where
  "query_steps d blueprint task_id =
     bindE (attempt (svc_db d (blueprint_pool blueprint))) (\<lambda>p.
       case p of
         Inr (Some pool) \<Rightarrow>
           bindE (attempt (svc_db d (task_rows task_id pool))) (\<lambda>r.
             ret (case r of Inr steps \<Rightarrow> steps_outcome steps | Inl _ \<Rightarrow> None))
       | _ \<Rightarrow> ret None)"

fun is_task_successful :: "('c, 'e, 'b, 'g) server \<Rightarrow> string \<Rightarrow> uuid \<Rightarrow> nat \<Rightarrow> ('e, 'b, 'g, bool) svc" where
  "is_task_successful d blueprint task_id 0 = ret False"
| "is_task_successful d blueprint task_id (Suc n) =
     bindE (query_steps d blueprint task_id) (\<lambda>r.
       case r of
         Some b \<Rightarrow> ret b
       | None \<Rightarrow> bindE (awaits d 200) (\<lambda>_. is_task_successful d blueprint task_id n))"

definition dag_settle :: "('c, 'e, 'b, 'g) server \<Rightarrow> string \<Rightarrow> uuid \<Rightarrow> ('e, 'b, 'g, bool) svc" where
  "dag_settle d blueprint task_id s =
     (case dm_join d task_id s of
        (Joined_ok, s') \<Rightarrow> is_task_successful d blueprint task_id 5 s'
      | (Joined_err e, s') \<Rightarrow> ret False s'
      | (Joined_panic, s') \<Rightarrow> ret False s')"

text \<open>The first level is dispatched by the handler, the others by the driver that it spawns.\<close>

definition start_levels :: "('c, 'e, 'b, 'g) server \<Rightarrow> 'g host \<Rightarrow> string \<Rightarrow> (string \<Rightarrow> workflow option) \<Rightarrow>
    dag_node list list \<Rightarrow> ('e, 'b, 'g, uuid) svc" where
  "start_levels d h blueprint inline_register levels =
     (case levels of
        (n # ns) # rest \<Rightarrow>
          bindE (launch_all (dag_launch d h blueprint inline_register) (n # ns)) (\<lambda>tids.
            case tids of
              [] \<Rightarrow> fail ''no level 0 task created''
            | first # _ \<Rightarrow>
                bindE (spawn_background (Dag_driver tids rest inline_register blueprint)) (\<lambda>_. ret first))
      | _ \<Rightarrow> fail ''dag plan has no execution levels'')"

definition handle_dispatch_dag :: "('c, 'e, 'b, 'g) server \<Rightarrow> 'g host \<Rightarrow> string \<Rightarrow> dag_config \<Rightarrow>
    (string \<Rightarrow> workflow option) \<Rightarrow> ('e, 'b, 'g, uuid) svc" where
  "handle_dispatch_dag d h blueprint config inline_register =
     bindE (svc_online d) (\<lambda>online.
     if \<not> online then fail ''Absurd Postgres not reachable - cannot dispatch dag workflow''
     else case dag_plan config of
       None \<Rightarrow> (\<lambda>_. None)
     | Some (Inl e) \<Rightarrow> fail (ho_show_dag h e)
     | Some (Inr levels) \<Rightarrow> start_levels d h blueprint inline_register levels)"

text \<open>A spawned task runs; \<open>rounds\<close> and \<open>claims\<close> bound the loops of a workflow.\<close>

definition run_background :: "('c, 'e, 'b, 'g) server \<Rightarrow> 'g host \<Rightarrow> nat \<Rightarrow> nat \<Rightarrow> background \<Rightarrow>
    ('e, 'b, 'g, unit) svc" where
  "run_background d h rounds claims b =
     (case b of
        Suspension step reason payload \<Rightarrow> run_suspension d step reason payload
      | Workflow_run pool recipe wn task_id janush \<Rightarrow>
          ignore (in_world (run_workflow (daemon_for d pool recipe janush) recipe wn task_id rounds claims))
      | Dag_driver tids levels inline_register blueprint \<Rightarrow>
          drive_levels (dag_launch d h blueprint inline_register) (dag_settle d blueprint) tids levels)"

section \<open>The dispatch request\<close>

definition inline_command_workflow :: "uuid \<Rightarrow> string \<Rightarrow> workflow" where
  "inline_command_workflow u cmd =
     \<lparr>wf_name = ''inline_'' @ take 8 (uuid_string u),
      wf_description = Some ''Transient inline command execution'',
      wf_steps = [\<lparr>ws_name = ''run'', ws_agent = ''builder'', ws_command = Some cmd, ws_host = None,
        ws_toolset = None, ws_max_correction_attempts = None, ws_isolation = None, ws_best_of_n = None,
        ws_writes = None\<rparr>]\<rparr>"

definition default_workflow_name :: "('c, 'e, 'b, 'g) server \<Rightarrow> ('e, 'b, 'g, string) svc" where
  "default_workflow_name d s =
     (case read_blueprint_name (dm_toml d) (files_of d s) (root_of d) of
        Inl _ \<Rightarrow> ret ''dev-flow'' s
      | Inr name \<Rightarrow>
          (case recipe_validate (dm_toml d) (files_of d s) name (root_of d) of
             None \<Rightarrow> None
           | Some (Inl _) \<Rightarrow> ret ''dev-flow'' s
           | Some (Inr r) \<Rightarrow> ret (vr_default_workflow r) s))"

definition dispatch_request :: "('c, 'e, 'b, 'g) server \<Rightarrow> 'g host \<Rightarrow> string \<Rightarrow> string option \<Rightarrow>
    string option \<Rightarrow> ('e, 'b, 'g, uuid) svc" where
  "dispatch_request d h blueprint workflow_name inline_command =
     (case inline_command of
        Some cmd \<Rightarrow>
          bindE (gets (dm_uuid d)) (\<lambda>u.
            dispatch_workflow_handle d h blueprint (inline_command_workflow u cmd))
      | None \<Rightarrow>
          bindE (case workflow_name of Some n \<Rightarrow> ret n | None \<Rightarrow> default_workflow_name d) (\<lambda>name.
          bindE (svc_load_unified d h name) (\<lambda>u.
            case u of
              Linear w \<Rightarrow> dispatch_workflow_handle d h blueprint w
            | Dag_workflow config inline_register \<Rightarrow>
                handle_dispatch_dag d h blueprint config inline_register)))"

section \<open>Progress and stop\<close>

fun probe_sessions :: "'b backend \<Rightarrow> active_task list \<Rightarrow> (string, 'b, active_task list) io" where
  "probe_sessions bk [] = ret []"
| "probe_sessions bk (t # ts) =
     bindE (case at_session_name t of
         Some sn \<Rightarrow>
           bindE (attempt (has_session bk (SessionId sn))) (\<lambda>r.
             ret (t\<lparr>at_tmux_alive := (case r of Inr b \<Rightarrow> b | Inl _ \<Rightarrow> False)\<rparr>))
       | None \<Rightarrow> ret t) (\<lambda>t'.
     bindE (probe_sessions bk ts) (\<lambda>ts'. ret (t' # ts')))"

definition progress_request :: "('c, 'e, 'b, 'g) server \<Rightarrow> string option \<Rightarrow> ('e, 'b, 'g, active_task list) svc" where
  "progress_request d blueprint =
     bindE (svc_db d (progress_report (dm_rfc3339 d) blueprint)) (\<lambda>tasks.
     bindE (awaits d 0) (\<lambda>_. in_world (on_backend (probe_sessions (dm_local d) tasks))))"

fun kill_containing :: "'b backend \<Rightarrow> string \<Rightarrow> string list \<Rightarrow> (string, 'b, unit) io" where
  "kill_containing bk task_str [] = ret ()"
| "kill_containing bk task_str (s_name # names) =
     bindE (if contains task_str s_name then ignore (kill_session bk (SessionId s_name)) else ret ()) (\<lambda>_.
       kill_containing bk task_str names)"

definition stop_sessions :: "'b backend \<Rightarrow> uuid \<Rightarrow> (string, 'b, unit) io" where
  "stop_sessions bk task_id =
     bindE (attempt (list_sessions bk)) (\<lambda>r.
       case r of
         Inr active_sessions \<Rightarrow> kill_containing bk (uuid_string task_id) active_sessions
       | Inl _ \<Rightarrow> ignore (kill_session bk (new_for_task (uuid_string task_id @ ''-0''))))"

definition mark_stopped :: "uuid \<Rightarrow> string \<Rightarrow> string \<Rightarrow> unit db_op" where
  "mark_stopped task_id step_name pool = on_overlay pool (\<lambda>now rows.
     ((), update_rows (row_key task_id step_name) (\<lambda>r. r\<lparr>mr_status := ''STOPPED''\<rparr>) now rows))"

definition stop_task :: "('c, 'e, 'b, 'g) server \<Rightarrow> active_task \<Rightarrow> ('e, 'b, 'g, unit) svc" where
  "stop_task d t =
     bindE (in_world (on_backend (stop_sessions (dm_local d) (at_task_id t)))) (\<lambda>_.
     bindE (attempt (svc_db d (blueprint_pool (at_blueprint_id t)))) (\<lambda>p.
       case p of
         Inr (Some pool) \<Rightarrow>
           ignore (svc_db d (mark_stopped (at_task_id t) (or_default [] (at_current_step t)) pool))
       | _ \<Rightarrow> ret ()))"

fun stop_tasks :: "('c, 'e, 'b, 'g) server \<Rightarrow> uuid option \<Rightarrow> active_task list \<Rightarrow> nat \<Rightarrow> ('e, 'b, 'g, nat) svc" where
  "stop_tasks d task_id [] stopped = ret stopped"
| "stop_tasks d task_id (t # ts) stopped =
     (if (case task_id of Some tid \<Rightarrow> at_task_id t \<noteq> tid | None \<Rightarrow> False)
      then stop_tasks d task_id ts stopped
      else bindE (stop_task d t) (\<lambda>_. stop_tasks d task_id ts (stopped + 1)))"

definition handle_stop :: "('c, 'e, 'b, 'g) server \<Rightarrow> string option \<Rightarrow> uuid option \<Rightarrow> ('e, 'b, 'g, response) svc" where
  "handle_stop d blueprint task_id =
     bindE (attempt (svc_db d (progress_report (dm_rfc3339 d) blueprint))) (\<lambda>r.
       case r of
         Inl e \<Rightarrow> ret (RError (''stop failed: '' @ e))
       | Inr tasks \<Rightarrow>
           bindE (stop_tasks d task_id tasks 0) (\<lambda>n.
             ret (ROk (''Stopped '' @ dec n @ '' active step task(s)''))))"

section \<open>Cold start\<close>

text \<open>The sweep of the credentials goes over a provider that was just created.\<close>

definition fresh_sweep :: "clock \<Rightarrow> cold_start_task list \<Rightarrow> ((string + nat) \<times> active_keys) option" where
  "fresh_sweep ck tasks = reconcile_credentials memory_provider ck (map cs_task_id tasks) memory_new"

text \<open>The recipe that a task is resumed with; \<open>None\<close> skips the task. Of a DAG only the workflow of
  the first node is taken.\<close>

definition entry_workflow :: "toml_parsers \<Rightarrow> fs \<Rightarrow> string \<Rightarrow> dag_config \<Rightarrow> (string \<Rightarrow> workflow option) \<Rightarrow>
    validated_recipe \<Rightarrow> validated_recipe" where
  "entry_workflow toml fs root config inline_register r =
     (case dc_nodes config of
        [] \<Rightarrow> r
      | n # _ \<Rightarrow>
          (case inline_register (dn_workflow n) of
             Some w \<Rightarrow> r\<lparr>vr_workflow := w\<rparr>
           | None \<Rightarrow>
               (case load_workflow toml fs (dn_workflow n) root of
                  Inr w \<Rightarrow> r\<lparr>vr_workflow := w\<rparr>
                | Inl _ \<Rightarrow> r)))"

definition resume_recipe :: "toml_parsers \<Rightarrow> fs \<Rightarrow> string \<Rightarrow> cold_start_task \<Rightarrow> validated_recipe option option" where
  "resume_recipe toml fs root t =
     (case recipe_validate toml fs (cs_blueprint t) root of
        None \<Rightarrow> None
      | Some (Inl _) \<Rightarrow> Some None
      | Some (Inr r) \<Rightarrow>
          if cs_workflow_name t = vr_default_workflow r then Some (Some r)
          else
            (case load_unified_workflow toml fs (cs_workflow_name t) root of
               None \<Rightarrow> None
             | Some (Inl _) \<Rightarrow> Some None
             | Some (Inr (Linear w)) \<Rightarrow> Some (Some (r\<lparr>vr_workflow := w\<rparr>))
             | Some (Inr (Dag_workflow config inline_register)) \<Rightarrow>
                 Some (Some (entry_workflow toml fs root config inline_register r))))"

text \<open>The lease is broken, with both errors ignored, and the run is spawned.\<close>

definition resume_run :: "('c, 'e, 'b, 'g) server \<Rightarrow> string \<Rightarrow> validated_recipe \<Rightarrow> cold_start_task \<Rightarrow> string \<Rightarrow>
    ('e, 'b, 'g, unit) svc" where
  "resume_run d janush recipe t pool =
     (let queue = queue_name (cs_blueprint t) (cs_workflow_name t) in
      bindE (ignore (svc_engine d (dm_set_retry_none d pool queue (cs_task_id t)))) (\<lambda>_.
      bindE (ignore (svc_engine d (dm_expire_claim d pool queue (cs_task_id t)))) (\<lambda>_.
      spawn_background (Workflow_run pool recipe (cs_workflow_name t) (cs_task_id t) janush))))"

definition resume_task :: "('c, 'e, 'b, 'g) server \<Rightarrow> string \<Rightarrow> cold_start_task \<Rightarrow> ('e, 'b, 'g, bool) svc" where
  "resume_task d janush t =
     (if cs_status t \<notin> {''STARTING'', ''RUNNING'', ''STOPPED''} then ret False
      else
        bindE (gets (\<lambda>s. resume_recipe (dm_toml d) (files_of d s) (root_of d) t)) (\<lambda>q.
        case q of
          None \<Rightarrow> (\<lambda>_. None)
        | Some None \<Rightarrow> ret False
        | Some (Some recipe) \<Rightarrow>
            bindE (attempt (svc_db d (blueprint_pool (cs_blueprint t)))) (\<lambda>p.
              case p of
                Inr (Some pool) \<Rightarrow> bindE (resume_run d janush recipe t pool) (\<lambda>_. ret True)
              | _ \<Rightarrow> ret False)))"

fun resume_tasks :: "('c, 'e, 'b, 'g) server \<Rightarrow> string \<Rightarrow> cold_start_task list \<Rightarrow> nat \<Rightarrow> ('e, 'b, 'g, nat) svc" where
  "resume_tasks d janush [] spawned = ret spawned"
| "resume_tasks d janush (t # ts) spawned =
     bindE (resume_task d janush t) (\<lambda>ok. resume_tasks d janush ts (if ok then spawned + 1 else spawned))"

definition reconcile :: "('c, 'e, 'b, 'g) server \<Rightarrow> string option \<Rightarrow> ('e, 'b, 'g, nat) svc" where
  "reconcile d blueprint =
     bindE (svc_db d (cold_start_running_tasks blueprint)) (\<lambda>tasks.
       if tasks = [] then ret 0
       else
         bindE (gets (find_janush d)) (\<lambda>exe.
           case exe of
             Inl _ \<Rightarrow> ret 0
           | Inr janush \<Rightarrow> resume_tasks d janush tasks 0))"

definition handle_continue :: "('c, 'e, 'b, 'g) server \<Rightarrow> string option \<Rightarrow> uuid option \<Rightarrow> ('e, 'b, 'g, response) svc" where
  "handle_continue d blueprint task_id =
     bindE (attempt (reconcile d blueprint)) (\<lambda>r.
       ret (case r of
           Inr resumed \<Rightarrow> ROk (''Reconciled and resumed '' @ dec resumed @ '' task(s)'')
         | Inl e \<Rightarrow> RError (''continue failed: '' @ e)))"

text \<open>At the start of the daemon: after two seconds, ten times at most, until the database is there.\<close>

fun cold_start_wait :: "('c, 'e, 'b, 'g) server \<Rightarrow> string option \<Rightarrow> nat \<Rightarrow> ('e, 'b, 'g, unit) svc" where
  "cold_start_wait d target 0 = ret ()"
| "cold_start_wait d target (Suc n) =
     bindE (svc_online d) (\<lambda>online.
       if online then ignore (reconcile d target)
       else bindE (awaits d 500) (\<lambda>_. cold_start_wait d target n))"

definition cold_start :: "('c, 'e, 'b, 'g) server \<Rightarrow> ('e, 'b, 'g, unit) svc" where
  "cold_start d =
     bindE (awaits d 2000) (\<lambda>_.
     bindE (gets (\<lambda>s. case read_blueprint_name (dm_toml d) (files_of d s) (root_of d) of
         Inr name \<Rightarrow> Some name | Inl _ \<Rightarrow> None)) (\<lambda>target.
     cold_start_wait d target 10))"

section \<open>Workflow files\<close>

definition target_root :: "fs \<Rightarrow> string \<Rightarrow> string option \<Rightarrow> string" where
  "target_root fs root blueprint =
     (case blueprint of
        Some bp \<Rightarrow> if is_dir fs (path_join root bp) then path_join root bp else root
      | None \<Rightarrow> root)"

text \<open>The stem of a file name with the extension \<open>toml\<close>.\<close>

definition toml_stem :: "string \<Rightarrow> string option" where
  "toml_stem name =
     (case strip_suffix ''.toml'' name of
        Some stem \<Rightarrow> if stem \<noteq> [] \<and> valid_utf8 stem then Some stem else None
      | None \<Rightarrow> None)"

definition is_file :: "fs \<Rightarrow> string \<Rightarrow> bool" where
  "is_file fs p = (case fs p of Some (File _) \<Rightarrow> True | _ \<Rightarrow> False)"

definition list_dirs :: "string list" where
  "list_dirs = [''.janus/workflows'', ''templates/workflows'', ''workflows'']"

definition dir_workflows :: "(fs \<Rightarrow> string \<Rightarrow> string list option) \<Rightarrow> fs \<Rightarrow> string \<Rightarrow> string list" where
  "dir_workflows read_dir fs dir =
     (case read_dir fs dir of
        None \<Rightarrow> []
      | Some names \<Rightarrow> List.map_filter (\<lambda>n. if is_file fs (path_join dir n) then toml_stem n else None) names)"

definition list_workflows :: "('c, 'e, 'b, 'g) server \<Rightarrow> 'g host \<Rightarrow> string option \<Rightarrow> ('e, 'b, 'g) service \<Rightarrow> string list" where
  "list_workflows d h blueprint s =
     (let fs = files_of d s; root = target_root fs (root_of d) blueprint in
      sort (remdups (concat (map (\<lambda>dir. dir_workflows (ho_read_dir h) fs (path_join root dir)) list_dirs))))"

definition workflow_file :: "string \<Rightarrow> string \<Rightarrow> string \<Rightarrow> string" where
  "workflow_file root dir name = path_join (path_join root dir) (name @ ''.toml'')"

definition get_workflow :: "('c, 'e, 'b, 'g) server \<Rightarrow> 'g host \<Rightarrow> string option \<Rightarrow> string \<Rightarrow>
    ('e, 'b, 'g) service \<Rightarrow> response" where
  "get_workflow d h blueprint name s =
     (let fs = files_of d s; root = target_root fs (root_of d) blueprint in
      case List.find (file_exists fs) (map (\<lambda>dir. workflow_file root dir name) list_dirs) of
        Some path \<Rightarrow>
          (case read_to_string fs path of
             Some content \<Rightarrow> RWorkflowContent name content
           | None \<Rightarrow> RError (''read workflow: '' @ ho_read_error h path))
      | None \<Rightarrow> RError (''workflow '' @ [CHR 0x27] @ name @ [CHR 0x27] @ '' not found''))"

text \<open>A text before the error.\<close>

definition prefix_error :: "string \<Rightarrow> ('w \<Rightarrow> ((string + 'a) \<times> 'w) option) \<Rightarrow> (string, 'w, 'a) io" where
  "prefix_error t m = map_err (\<lambda>e. t @ e) m"

text \<open>The file is written to a temporary directory and loaded from there, then written to the
  blueprint's directory. The temporary directory is removed at the end.\<close>

definition check_workflow :: "('c, 'e, 'b, 'g) server \<Rightarrow> 'g host \<Rightarrow> string \<Rightarrow> string \<Rightarrow> string \<Rightarrow> ('e, 'b, 'g, unit) svc" where
  "check_workflow d h tmp name content =
     (let m = dn_machine (dm_base d); wf_dir = path_join tmp ''.janus/workflows'' in
      bindE (prefix_error ''create temp dir: '' (in_world (on_machine (m_create_dir_all m wf_dir)))) (\<lambda>_.
      bindE (prefix_error ''write temp workflow: ''
        (in_world (on_machine (m_write m (path_join wf_dir (name @ ''.toml'')) content)))) (\<lambda>_ s.
      case load_unified_workflow (dm_toml d) (files_of d s) name tmp of
        None \<Rightarrow> None
      | Some (Inl e) \<Rightarrow> fail (''workflow validation failed: '' @ show_error h e) s
      | Some (Inr _) \<Rightarrow> ret () s)))"

definition save_workflow :: "('c, 'e, 'b, 'g) server \<Rightarrow> 'g host \<Rightarrow> string option \<Rightarrow> string \<Rightarrow> string \<Rightarrow>
    ('e, 'b, 'g, string) svc" where
  "save_workflow d h blueprint name content =
     bindE (gets (\<lambda>s. target_root (files_of d s) (root_of d) blueprint)) (\<lambda>root.
     bindE (prefix_error ''tempdir failed: '' (in_world (on_machine (ho_tempdir h)))) (\<lambda>tmp.
     with_guard (\<lambda>s. s\<lparr>sv_world := (sv_world s)\<lparr>wl_machine := ho_remove_tempdir h tmp (machine_of s)\<rparr>\<rparr>)
       (let m = dn_machine (dm_base d); dest_dir = path_join root ''.janus/workflows'' in
        bindE (check_workflow d h tmp name content) (\<lambda>_.
        bindE (prefix_error ''create .janus/workflows dir: '' (in_world (on_machine (m_create_dir_all m dest_dir)))) (\<lambda>_.
        bindE (prefix_error ''save workflow: ''
          (in_world (on_machine (m_write m (path_join dest_dir (name @ ''.toml'')) content)))) (\<lambda>_.
        ret (''workflow '' @ [CHR 0x27] @ name @ [CHR 0x27] @ '' saved to .janus/workflows/'')))))))"

section \<open>Every request\<close>

text \<open>An answer for each outcome.\<close>

definition answer :: "('a \<Rightarrow> response) \<Rightarrow> string \<Rightarrow> ('e, 'b, 'g, 'a) svc \<Rightarrow> ('e, 'b, 'g, response) svc" where
  "answer ok prefix_text m =
     bindE (attempt m) (\<lambda>r. ret (case r of Inr x \<Rightarrow> ok x | Inl e \<Rightarrow> RError (prefix_text @ e)))"

definition offboard_request :: "('c, 'e, 'b, 'g) server \<Rightarrow> 'g host \<Rightarrow> string \<Rightarrow> ('e, 'b, 'g, response) svc" where
  "offboard_request d h name s =
     (case offboard_config_load (ou_offboard_toml (ho_outside h)) (files_of d s)
         (path_join (path_join (root_of d) ''configs'') ''offboard.toml'') of
        Inl e \<Rightarrow> ret (RError (''offboard config: '' @ e)) s
      | Inr cfg \<Rightarrow> answer (\<lambda>r. ROk (ob_message r)) [] (offboard d (ho_outside h) name cfg) s)"

fun handle_request :: "('c, 'e, 'b, 'g) server \<Rightarrow> 'g host \<Rightarrow> request \<Rightarrow> ('e, 'b, 'g, response) svc" where
  "handle_request d h Ping = ret RPong"
| "handle_request d h Blueprints = answer RBlueprints [] (svc_db d active_blueprints)"
| "handle_request d h (Progress blueprint) = answer RProgress [] (progress_request d blueprint)"
| "handle_request d h (GuardCheck execution_id bp task_id step_name cwd argv envs) =
     guard_check d execution_id bp task_id step_name cwd argv envs"
| "handle_request d h (Onboard name) = answer (\<lambda>r. ROk (on_message r)) [] (onboard d (ho_outside h) name)"
| "handle_request d h (Offboard name) = offboard_request d h name"
| "handle_request d h (Dispatch blueprint w inline_command) =
     answer RDispatch [] (dispatch_request d h blueprint w inline_command)"
| "handle_request d h (Stop blueprint task_id) = handle_stop d blueprint task_id"
| "handle_request d h (Continue blueprint task_id) = handle_continue d blueprint task_id"
| "handle_request d h (GateAction task_id approve) = gate_action d task_id approve"
| "handle_request d h (ListWorkflows blueprint) = gets (\<lambda>s. RWorkflows (list_workflows d h blueprint s))"
| "handle_request d h (GetWorkflow blueprint name) = gets (get_workflow d h blueprint name)"
| "handle_request d h (SaveWorkflow blueprint name content) =
     answer ROk [] (save_workflow d h blueprint name content)"
| "handle_request d h ListHarvestRefs = answer RHarvestRefs ''list harvest refs: ''
     (in_world (on_machine (list_harvest_refs (dn_machine (dm_base d)) (root_of d))))"
| "handle_request d h (ApplyHarvestRef ref_name) = answer (RHarvestApplied ref_name) ''apply harvest ref: ''
     (in_world (on_machine (apply_harvest_ref_by_name (dn_machine (dm_base d)) (root_of d) ref_name)))"

text \<open>The handler of a connection. No branch of \<open>handle_request\<close> ends in an error.\<close>

definition serve :: "('c, 'e, 'b, 'g) server \<Rightarrow> 'g host \<Rightarrow> ('e, 'b, 'g) service handler" where
  "serve d h req s =
     (case handle_request d h req s of
        None \<Rightarrow> None
      | Some (Inr resp, s') \<Rightarrow> Some (resp, s')
      | Some (Inl e, s') \<Rightarrow> Some (RError e, s'))"

section \<open>The lock on the process id\<close>

definition is_pid_alive :: "'g host \<Rightarrow> int \<Rightarrow> 'g \<Rightarrow> bool" where
  "is_pid_alive h pid g = (case ho_kill0 h pid g of None \<Rightarrow> True | Some errno \<Rightarrow> errno = 1)"

text \<open>The file is read and written in one step here; of two daemons that start at the same moment both may
  read it before the other writes.\<close>

definition acquire_pid_lock :: "'g machine \<Rightarrow> 'g host \<Rightarrow> ('g \<Rightarrow> fs) \<Rightarrow> string \<Rightarrow> (string, 'g, unit) io" where
  "acquire_pid_lock m h fs path g =
     (case Option.bind (read_to_string (fs g) path) (\<lambda>content. parse_signed 32 (trim content)) of
        Some pid \<Rightarrow>
          if is_pid_alive h pid g
          then fail (''janus-daemon already running (pid '' @ (if pid < 0 then ''-'' else []) @ dec (nat \<bar>pid\<bar>) @
            ''); refusing duplicate UDS bind'') g
          else m_write m path (dec (ho_pid h)) g
      | None \<Rightarrow> m_write m path (dec (ho_pid h)) g)"

end
