(* ===== verification/Daemon_Laws.thy ===== *)
theory Daemon_Laws
  imports Daemon
begin

text \<open>
  What the daemon guarantees, end to end: which commands a proxy shell runs, in which order the
  workflows of a DAG start, what the cold start resumes, and what stop, continue and the
  saving of workflows do not guarantee.
\<close>

section \<open>The proxy shell runs what the guard allows\<close>















definition disk_host :: "disk host" where
  "disk_host = \<lparr>ho_outside = no_llm, ho_read_dir = (\<lambda>_ _. None), ho_tempdir = ret ''/tmp/t'',
     ho_remove_tempdir = (\<lambda>tmp g. filter (\<lambda>(p, _). \<not> prefix (tmp @ ''/'') p) g), ho_kill0 = (\<lambda>_ _. Some 3),
     ho_pid = 42, ho_show_dag = (\<lambda>_. []), ho_read_error = (\<lambda>_. [])\<rparr>"





section \<open>The nodes of a DAG start after their needs\<close>

text \<open>The driver of a DAG with a log of what it launched and settled.\<close>

definition driver_log :: "('c, 'e, 'b, 'g) server \<Rightarrow> 'g host \<Rightarrow> string \<Rightarrow> (string \<Rightarrow> workflow option) \<Rightarrow>
    uuid list \<Rightarrow> dag_node list list \<Rightarrow> (string, ('e, 'b, 'g) service \<times> dag_event list, unit) io" where
  "driver_log d h blueprint inline_register =
     drive_levels (log_launch (dag_launch d h blueprint inline_register)) (log_settle (dag_settle d blueprint))"

lemma driver_log_erases:
  "erases (driver_log d h blueprint inline_register tids levels)
     (run_background d h rounds claims (Dag_driver tids levels inline_register blueprint))"
  by (simp add: driver_log_def run_background_def drive_unlogged)

lemma logged_launches:
  assumes "launch_all launch ns w = Some (r, w')"
  shows "\<exists>l. launch_all (log_launch launch) ns (w, []) = Some (r, w', l)"
proof -
  have "map_option (\<lambda>(r, w', l'). (r, w')) (launch_all (log_launch launch) ns (w, [])) = Some (r, w')"
    using launch_unlogged [of launch ns] assms by (simp add: erases_def)
  then show ?thesis by (auto split: prod.splits)
qed

lemma dispatch_dag_result:
  assumes "handle_dispatch_dag d h blueprint config inline_register s = Some (Inr first, s1)"
  obtains level rest tids s0 s2 where "dag_plan config = Some (Inr (level # rest))"
    "launch_all (dag_launch d h blueprint inline_register) level s0 = Some (Inr tids, s2)" "first = hd tids"
    "sv_spawned s1 = sv_spawned s2 @ [Dag_driver tids rest inline_register blueprint]"
proof -
  from assms obtain levels s0 where plan: "dag_plan config = Some (Inr levels)"
    and start: "start_levels d h blueprint inline_register levels s0 = Some (Inr first, s1)"
    by (auto simp: handle_dispatch_dag_def io_simps split: if_splits option.splits sum.splits)
  from start obtain n ns rest where levels: "levels = (n # ns) # rest"
    by (auto simp: start_levels_def io_simps split: list.splits)
  from start obtain tids s2 where "launch_all (dag_launch d h blueprint inline_register) (n # ns) s0 = Some (Inr tids, s2)"
    "(case tids of [] \<Rightarrow> fail ''no level 0 task created''
      | first # _ \<Rightarrow> bindE (spawn_background (Dag_driver tids rest inline_register blueprint)) (\<lambda>_. ret first)) s2
        = Some (Inr first, s1)"
    unfolding levels start_levels_def by (auto simp add: bindE_io simp del: launch_all.simps)
  with plan levels show thesis
    by (intro that [of "n # ns" rest s0 tids s2])
       (auto simp: spawn_background_def modify_def io_simps split: list.splits)
qed

text \<open>C2: Once a DAG is dispatched, its driver runs in the background. In the log of the launches of
  the handler, continued by those of the driver, no node of the DAG is launched before each node it
  needs was launched and its task was awaited and found successful.\<close>

theorem dag_needs_first:
  assumes "distinct (map dn_id (dc_nodes config))"
    "handle_dispatch_dag d h blueprint config inline_register s = Some (Inr first, s1)"
  shows "\<exists>level levels tids. dag_plan config = Some (Inr (level # levels)) \<and>
    length tids = length level \<and> first = hd tids \<and>
    last (sv_spawned s1) = Dag_driver tids levels inline_register blueprint \<and>
    erases (driver_log d h blueprint inline_register tids levels)
      (run_background d h rounds claims (last (sv_spawned s1))) \<and>
    (\<forall>w r w' l i n t u. driver_log d h blueprint inline_register tids levels
        (w, map2 Launched (map dn_id level) tids) = Some (r, w', l) \<longrightarrow>
      i < length l \<longrightarrow> l ! i = Launched (dn_id n) t \<longrightarrow> n \<in> set (dc_nodes config) \<longrightarrow> u \<in> set (dn_needs n) \<longrightarrow>
      (\<exists>v. Launched u v \<in> set (take i l) \<and> Settled v True \<in> set (take i l)))"
proof -
  from assms(2) obtain level rest tids s0 s2 where r: "dag_plan config = Some (Inr (level # rest))"
    "launch_all (dag_launch d h blueprint inline_register) level s0 = Some (Inr tids, s2)" "first = hd tids"
    "sv_spawned s1 = sv_spawned s2 @ [Dag_driver tids rest inline_register blueprint]"
    by (rule dispatch_dag_result)
  from logged_launches [OF r(2)] obtain l1 where
    l1: "launch_all (log_launch (dag_launch d h blueprint inline_register)) level (s0, []) = Some (Inr tids, s2, l1)" ..
  from launch_log [OF l1] have log: "l1 = map2 Launched (map dn_id level) tids" "length tids = length level" by auto
  have "\<exists>v. Launched u v \<in> set (take i l) \<and> Settled v True \<in> set (take i l)"
    if "driver_log d h blueprint inline_register tids rest (w, map2 Launched (map dn_id level) tids) = Some (r, w', l)"
      "i < length l" "l ! i = Launched (dn_id n) t" "n \<in> set (dc_nodes config)" "u \<in> set (dn_needs n)" for w r w' l i n t u
    using needs_settled [OF assms(1) r(1) l1 that(1) [unfolded driver_log_def log(1) [symmetric]] that(2-5)] .
  with r(1,3,4) log(2) show ?thesis by (auto simp: driver_log_erases)
qed

definition build_workflow :: workflow where
  "build_workflow = \<lparr>wf_name = ''dev'', wf_description = None, wf_steps = [sample_step ''build'' (Some ''make'')]\<rparr>"

definition build_node :: "string \<Rightarrow> string list \<Rightarrow> dag_node" where
  "build_node i needs = \<lparr>dn_id = i, dn_workflow = ''dev'', dn_needs = needs, dn_isolation = None,
     dn_best_of_n = None, dn_writes = None\<rparr>"

definition two_nodes :: dag_config where
  "two_nodes = \<lparr>dc_name = ''d'', dc_description = None, dc_nodes = [build_node ''b'' [''a''], build_node ''a'' []]\<rparr>"

definition dag_service :: "(fake_engine, fake_backend, disk) service" where
  "dag_service = disk_service guard_empty ((''/opt/janush'', []) # bp_files)
     (set_table ''bp'' [blank_row 0 ''build'' ''bp'' ''COMPLETED'' 5] sample_db)"

definition dag_reg :: "string \<Rightarrow> workflow option" where
  "dag_reg = (\<lambda>_. Some build_workflow)"

definition dag_server :: "(nat, fake_engine, fake_backend, disk) server" where
  "dag_server = (disk_server ping_pong Map.empty bp_toml)
     \<lparr>dm_join := (\<lambda>t s. (if t = 0 then Joined_ok else Joined_panic, s))\<rparr>"

lemma plan_two_nodes: "dag_plan two_nodes = Some (Inr [[build_node ''a'' []], [build_node ''b'' [''a'']]])" by code_simp

lemma logged_two_nodes:
  "map_option (\<lambda>(r, s). (r, map_option (snd \<circ> snd) (driver_log dag_server disk_host
       ''bp'' dag_reg [0] [[build_node ''b'' [''a'']]] (s, [Launched ''a'' 0]))))
     (handle_dispatch_dag dag_server disk_host ''bp'' two_nodes dag_reg dag_service) =
   Some (Inr 0, Some [Launched ''a'' 0, Settled 0 True, Launched ''b'' 2, Settled 2 False])" by code_simp

lemma dag_needs_first_witness:
  "\<exists>s1. handle_dispatch_dag dag_server disk_host ''bp'' two_nodes dag_reg dag_service =
     Some (Inr 0, s1) \<and>
   (\<exists>r w' l i v. driver_log dag_server disk_host ''bp'' dag_reg [0]
       [[build_node ''b'' [''a'']]] (s1, [Launched ''a'' 0]) = Some (r, w', l) \<and>
     l ! i = Launched ''b'' 2 \<and> Launched ''a'' v \<in> set (take i l) \<and> Settled v True \<in> set (take i l))"
proof -
  let ?d = dag_server
  let ?run = "handle_dispatch_dag ?d disk_host ''bp'' two_nodes dag_reg dag_service"
  let ?log = "\<lambda>s. driver_log ?d disk_host ''bp'' dag_reg [0] [[build_node ''b'' [''a'']]] (s, [Launched ''a'' 0])"
  note logged_two_nodes
  then obtain s1 r w' where run: "?run = Some (Inr 0, s1)"
    and log: "?log s1 = Some (r, w', [Launched ''a'' 0, Settled 0 True, Launched ''b'' 2, Settled 2 False])" by auto
  note plan = plan_two_nodes
  have "distinct (map dn_id (dc_nodes two_nodes))" by code_simp
  from dag_needs_first [OF this run] obtain level levels tids where
    p: "dag_plan two_nodes = Some (Inr (level # levels))" and t: "length tids = length level" "0 = hd tids" and
    needs: "\<forall>w r w' l i n t u. driver_log ?d disk_host ''bp'' dag_reg tids levels
        (w, map2 Launched (map dn_id level) tids) = Some (r, w', l) \<longrightarrow>
      i < length l \<longrightarrow> l ! i = Launched (dn_id n) t \<longrightarrow> n \<in> set (dc_nodes two_nodes) \<longrightarrow> u \<in> set (dn_needs n) \<longrightarrow>
      (\<exists>v. Launched u v \<in> set (take i l) \<and> Settled v True \<in> set (take i l))" by blast
  have level: "level = [build_node ''a'' []]" "levels = [[build_node ''b'' [''a'']]]" using p unfolding plan by blast+
  have "length tids = Suc 0" using t(1) level(1) by simp
  then have tids: "tids = [0]" using t(2) by (auto simp: length_Suc_conv)
  have "\<exists>v. Launched ''a'' v \<in> set (take 2 [Launched ''a'' 0, Settled 0 True, Launched ''b'' 2, Settled 2 False]) \<and>
      Settled v True \<in> set (take 2 [Launched ''a'' 0, Settled 0 True, Launched ''b'' 2, Settled 2 False])"
    by (rule needs [rule_format, of s1 r w' _ 2 "build_node ''b'' [''a'']" 2])
      (use log in \<open>simp_all add: tids level build_node_def two_nodes_def\<close>)
  then obtain v where v:
    "Launched ''a'' v \<in> set (take 2 [Launched ''a'' 0, Settled 0 True, Launched ''b'' 2, Settled 2 False])"
    "Settled v True \<in> set (take 2 [Launched ''a'' 0, Settled 0 True, Launched ''b'' 2, Settled 2 False])" by blast
  show ?thesis
  proof (intro exI conjI)
    show "?run = Some (Inr 0, s1)" by (rule run)
    show "?log s1 = Some (r, w', [Launched ''a'' 0, Settled 0 True, Launched ''b'' 2, Settled 2 False])" by (rule log)
    show "[Launched ''a'' 0, Settled 0 True, Launched ''b'' 2, Settled 2 False] ! 2 = Launched ''b'' 2" by simp
  qed (rule v)+
qed

section \<open>Stop\<close>

text \<open>A task in the hyphenated form is part of no session name: between the prefix and the
  index these have 32 digits without a hyphen, and at most three hyphens after them.\<close>

lemma uuid_string_hyphens:
  "length (uuid_string u) = 36" "k \<in> {8, 13, 18, 23} \<Longrightarrow> uuid_string u ! k = CHR ''-''"
  by (auto simp: uuid_string_def Let_def nth_append)

lemma not_contains_uuid:
  assumes "length pre \<le> 23" "length (filter ((=) (CHR ''-'')) suf) \<le> 3"
  shows "\<not> contains (uuid_string t) (pre @ uuid_simple u @ suf)"
proof
  let ?s = "pre @ uuid_simple u @ suf" and ?L = "length pre"
  assume "contains (uuid_string t) ?s"
  then obtain a b where s: "?s = a @ uuid_string t @ b" by (auto simp: contains_iff)
  have len: "length a + 36 \<le> ?L + 32 + length suf"
    using arg_cong [OF s, of length] unfolding length_append uuid_string_hyphens(1) length_uuid_simple by linarith
  have hyphen: "?s ! (length a + k) = CHR ''-''" if k: "k \<in> {8, 13, 18, 23}" for k
  proof -
    have "?s ! (length a + k) = (uuid_string t @ b) ! k" unfolding s by (rule nth_append_length_plus)
    also have "\<dots> = uuid_string t ! k" using k by (intro nth_append_left) (auto simp: uuid_string_hyphens(1))
    finally show ?thesis using uuid_string_hyphens(2) [OF k] by simp
  qed
  have far: "?L + 32 \<le> length a + k" if "k \<in> {8, 13, 18, 23}" "?L \<le> length a + k" for k
  proof (rule ccontr)
    define i where "i = length a + k - ?L"
    assume "\<not> ?thesis"
    then have i: "i < length (uuid_simple u)" "length a + k = ?L + i" using that(2) by (simp_all add: i_def)
    have "?s ! (?L + i) = (uuid_simple u @ suf) ! i" by (rule nth_append_length_plus)
    also have "\<dots> = uuid_simple u ! i" by (rule nth_append_left) (rule i(1))
    finally have "?s ! (length a + k) \<in> set (uuid_simple u)" using i by simp
    then show False using hyphen [OF that(1)] uuid_simple_no_hyphen by metis
  qed
  have "?L + 32 \<le> length a + 8" 
  proof -
    have "?L \<le> length a + 23" using assms(1) by linarith
    from far [OF _ this] have "?L \<le> length a + 18" by simp
    from far [OF _ this] have "?L \<le> length a + 13" by simp
    from far [OF _ this] have "?L \<le> length a + 8" by simp
    from far [OF _ this] show ?thesis by simp
  qed
  then obtain m where m: "length a + 8 = ?L + 32 + m" using le_Suc_ex by blast
  have suf: "suf ! (m + j) = CHR ''-''" if "j \<in> {0, 5, 10, 15}" for j
  proof -
    have "8 + j \<in> {8, 13, 18, 23}" using that by auto
    from hyphen [OF this] have h: "?s ! (length a + (8 + j)) = CHR ''-''" .
    have e: "length a + (8 + j) = ?L + (length (uuid_simple u) + (m + j))"
      unfolding length_uuid_simple using m by linarith
    from h show ?thesis unfolding e nth_append_length_plus .
  qed
  have "(\<lambda>j. m + j) ` {0, 5, 10, 15} \<subseteq> {i. i < length suf \<and> CHR ''-'' = suf ! i}"
  proof (rule image_subsetI)
    fix j :: nat assume j: "j \<in> {0, 5, 10, 15}"
    then have "m + j < length suf" using len m by auto
    then show "m + j \<in> {i. i < length suf \<and> CHR ''-'' = suf ! i}" using suf [OF j] by simp
  qed
  then have "card ((\<lambda>j. m + j) ` {0, 5, 10, 15}) \<le> length (filter ((=) (CHR ''-'')) suf)"
    unfolding length_filter_conv_card by (intro card_mono) simp
  moreover have "card ((\<lambda>j. m + j) ` {0, 5, 10, 15 :: nat}) = 4" by (simp add: card_image)
  ultimately show False using assms(2) by simp
qed

lemma dec_no_hyphen: "CHR ''-'' \<notin> set (dec n)"
  using dec_digits [of n] by (auto simp: list_all_iff is_digit_def)

lemma session_not_hyphenated: "\<not> contains (uuid_string t) (sid_str (attempt_session u idx k))"
proof -
  have d: "filter ((=) (CHR ''-'')) (dec n) = []" for n
    using dec_no_hyphen [of n] by (auto simp: filter_empty_conv)
  let ?suf = "''-'' @ dec idx @ (if k = 1 then [] else ''-corr-'' @ dec (k - 1))"
  have "length (filter ((=) (CHR ''-'')) ?suf) \<le> 3" by (simp add: d)
  moreover have "length SESSION_PREFIX \<le> 23" by (simp add: SESSION_PREFIX_def)
  ultimately have "\<not> contains (uuid_string t) (SESSION_PREFIX @ uuid_simple u @ ?suf)" by (intro not_contains_uuid)
  then show ?thesis by (simp add: attempt_session_def new_for_task_def)
qed

lemma kill_containing_none: "\<forall>n \<in> set names. \<not> contains t n \<Longrightarrow> kill_containing bk t names w = Some (Inr (), w)"
  by (induction names) (auto simp: ret_def bindE_def)

text \<open>C31: the stop of a task kills no session when all sessions are those that the engine
  created: it looks for the task's id in the form with hyphens, and the names hold it without.\<close>

theorem stop_kills_nothing:
  assumes "list_sessions bk w = Some (Inr names, w')"
    "\<forall>name \<in> set names. \<exists>t idx k. name = sid_str (attempt_session t idx k)"
  shows "stop_sessions bk task_id w = Some (Inr (), w')"
proof -
  have "kill_containing bk (uuid_string task_id) names w' = Some (Inr (), w')"
    using assms(2) session_not_hyphenated [of task_id] by (intro kill_containing_none ballI) metis
  then show ?thesis using assms(1) by (simp add: stop_sessions_def bindE_def attempt_def)
qed

lemma stop_kills_nothing_witness:
  "stop_sessions fake_backend_ops 5 ((fake_backend_new [])\<lparr>fb_alive := [sid_str (attempt_session 5 0 1)]\<rparr>) =
     Some (Inr (), (fake_backend_new [])\<lparr>fb_alive := [sid_str (attempt_session 5 0 1)]\<rparr>)"
  by (rule stop_kills_nothing [of _ _ "[sid_str (attempt_session 5 0 1)]"])
     (auto simp: fake_backend_defs gets_def)

section \<open>The cold start\<close>

definition runs_task :: "cold_start_task \<Rightarrow> background \<Rightarrow> bool" where
  "runs_task t b = (\<exists>pool recipe janush. b = Workflow_run pool recipe (cs_workflow_name t) (cs_task_id t) janush)"

definition resumable :: "cold_start_task \<Rightarrow> bool" where
  "resumable t = (cs_status t \<in> {''STARTING'', ''RUNNING'', ''STOPPED''})"

definition same_spawned :: "('e, 'b, 'g) service \<Rightarrow> ('e, 'b, 'g) service \<Rightarrow> bool" where
  "same_spawned s s' = (sv_spawned s' = sv_spawned s)"

lemma same_spawned_refl [intro!]: "reflp same_spawned" and same_spawned_trans [intro!]: "transp same_spawned"
  by (simp_all add: reflp_def transp_def same_spawned_def)

lemma in_world_spawned: "keeps same_spawned (in_world m)"
  by (auto simp: keeps_def in_world_io same_spawned_def)

lemma svc_spawned:
  assumes "quiet d"
  shows "keeps same_spawned (svc_db d m)" "keeps same_spawned (svc_engine d m')"
  using in_world_spawned by (simp_all add: svc_db_def svc_engine_def bind_awaits_quiet [OF assms] keeps_def)

lemma resume_run_spawned:
  assumes "quiet d" "resume_run d janush recipe t pool s = Some (r, s')"
  shows "r = Inr () \<and> sv_spawned s' = sv_spawned s @ [Workflow_run pool recipe (cs_workflow_name t) (cs_task_id t) janush]"
proof -
  let ?q = "queue_name (cs_blueprint t) (cs_workflow_name t)" and ?tid = "cs_task_id t"
  obtain s1 s2 x y where "svc_engine d (dm_set_retry_none d pool ?q ?tid) s = Some (x, s1)"
    "svc_engine d (dm_expire_claim d pool ?q ?tid) s1 = Some (y, s2)"
    "r = Inr ()" "s' = s2\<lparr>sv_spawned := sv_spawned s2 @ [Workflow_run pool recipe (cs_workflow_name t) ?tid janush]\<rparr>"
    using assms(2) by (auto simp: resume_run_def Let_def io_simps ignore_io spawn_background_def)
  moreover have "sv_spawned w' = sv_spawned w" if "svc_engine d m w = Some (q, w')" for m :: "(string, 'b, unit) io" and w q w'
    using keepsD [OF svc_spawned(2) [OF assms(1)] that] by (simp add: same_spawned_def)
  ultimately show ?thesis by simp
qed

lemma resume_task_spawned:
  assumes "quiet d" "resume_task d janush t s = Some (r, s')"
  shows "\<exists>runs. sv_spawned s' = sv_spawned s @ runs \<and>
    (r = Inr False \<and> runs = [] \<or> r = Inr True \<and> resumable t \<and> (\<exists>b. runs = [b] \<and> runs_task t b))"
proof (cases "resumable t")
  case False
  then show ?thesis using assms(2) by (auto simp: resume_task_def resumable_def ret_def)
next
  case True
  then have run: "bindE (gets (\<lambda>s. resume_recipe (dm_toml d) (files_of d s) (root_of d) t)) (\<lambda>q.
      case q of None \<Rightarrow> (\<lambda>_. None) | Some None \<Rightarrow> ret False
      | Some (Some recipe) \<Rightarrow> bindE (attempt (svc_db d (blueprint_pool (cs_blueprint t)))) (\<lambda>p.
          case p of Inr (Some pool) \<Rightarrow> bindE (resume_run d janush recipe t pool) (\<lambda>_. ret True)
          | _ \<Rightarrow> ret False)) s = Some (r, s')"
    using assms(2) by (simp add: resume_task_def resumable_def split: if_splits)
  then consider "r = Inr False" "s' = s"
    | recipe p s1 where "svc_db d (blueprint_pool (cs_blueprint t)) s = Some (p, s1)"
        "(case p of Inr (Some pool) \<Rightarrow> bindE (resume_run d janush recipe t pool) (\<lambda>_. ret True) | _ \<Rightarrow> ret False) s1
          = Some (r, s')"
    by (auto simp: io_simps split: option.splits)
  then show ?thesis
  proof cases
    case 2
    have s1: "sv_spawned s1 = sv_spawned s" using keepsD [OF svc_spawned(1) [OF assms(1)] 2(1)] by (simp add: same_spawned_def)
    show ?thesis
    proof (cases "\<exists>pool. p = Inr (Some pool)")
      case True
      then obtain pool where "bindE (resume_run d janush recipe t pool) (\<lambda>_. ret True) s1 = Some (r, s')" using 2(2) by auto
      then show ?thesis using s1 \<open>resumable t\<close>
        by (auto simp: bindE_io ret_def runs_task_def dest!: resume_run_spawned [OF assms(1)])
    next
      case False
      then have "r = Inr False \<and> s' = s1" using 2(2) by (auto simp: ret_def split: sum.splits option.splits)
      then show ?thesis using s1 by simp
    qed
  qed auto
qed

lemma resume_tasks_spawned:
  "quiet d \<Longrightarrow> resume_tasks d janush ts n s = Some (r, s') \<Longrightarrow>
     \<exists>picked runs. r = Inr (n + length runs) \<and> sv_spawned s' = sv_spawned s @ runs \<and> subseq picked ts \<and>
       list_all resumable picked \<and> list_all2 runs_task picked runs"
proof (induction ts arbitrary: n s)
  case Nil
  then show ?case by (auto simp: ret_def)
next
  case (Cons t ts)
  from Cons.prems(2) obtain q s1 where one: "resume_task d janush t s = Some (q, s1)"
    and rest: "\<And>ok. q = Inr ok \<Longrightarrow> resume_tasks d janush ts (if ok then n + 1 else n) s1 = Some (r, s')"
    by (auto simp: bindE_io)
  from resume_task_spawned [OF Cons.prems(1) one] obtain runs where runs: "sv_spawned s1 = sv_spawned s @ runs"
    "q = Inr False \<and> runs = [] \<or> q = Inr True \<and> resumable t \<and> (\<exists>b. runs = [b] \<and> runs_task t b)" by blast
  from runs(2) show ?case
  proof (elim disjE conjE exE)
    assume "q = Inr False" "runs = []"
    with Cons.IH [OF Cons.prems(1), of n s1] rest [of False] runs(1) show ?thesis by (auto intro: subseq_Cons')
  next
    fix b assume b: "q = Inr True" "resumable t" "runs = [b]" "runs_task t b"
    with Cons.IH [OF Cons.prems(1), of "n + 1" s1] rest [of True] obtain picked more_runs where
      "r = Inr (n + 1 + length more_runs)" "sv_spawned s' = sv_spawned s1 @ more_runs" "subseq picked ts"
      "list_all resumable picked" "list_all2 runs_task picked more_runs" by auto
    then show ?thesis using b runs(1) by (intro exI [of _ "t # picked"] exI [of _ "b # more_runs"]) auto
  qed
qed

text \<open>C27: what a reconciliation starts: it resumes tasks of the list of unfinished tasks in their
  order, each at most once and never a suspended one, and the number it reports is the number of the
  runs it spawned. Whether a task already runs in this daemon is not asked.\<close>

theorem reconcile_runs:
  assumes "quiet d" "reconcile d blueprint s = Some (Inr n, s')"
  shows "\<exists>tasks x picked runs. cold_start_running_tasks blueprint (wl_db (sv_world s)) = Some (Inr tasks, x) \<and>
    sv_spawned s' = sv_spawned s @ runs \<and> length runs = n \<and> subseq picked tasks \<and>
    list_all2 (\<lambda>t b. cs_status t \<in> {''STARTING'', ''RUNNING'', ''STOPPED''} \<and> runs_task t b) picked runs"
proof -
  obtain tasks s1 where tasks: "svc_db d (cold_start_running_tasks blueprint) s = Some (Inr tasks, s1)" and rest:
    "(if tasks = [] then ret 0 else bindE (gets (find_janush d)) (\<lambda>exe.
        case exe of Inl _ \<Rightarrow> ret 0 | Inr janush \<Rightarrow> resume_tasks d janush tasks 0)) s1 = Some (Inr n, s')"
    using assms(2) by (auto simp: reconcile_def bindE_io [of "svc_db d (cold_start_running_tasks blueprint)"])
  have s1: "sv_spawned s1 = sv_spawned s"
    using keepsD [OF svc_spawned(1) [OF assms(1)] tasks] by (simp add: same_spawned_def)
  obtain x where x: "cold_start_running_tasks blueprint (wl_db (sv_world s)) = Some (Inr tasks, x)"
    using tasks assms(1) by (auto simp: svc_db_def bind_awaits_quiet in_db_io)
  consider "n = 0" "s' = s1" | janush where "resume_tasks d janush tasks 0 s1 = Some (Inr n, s')"
    using rest by (auto simp: io_simps split: if_splits sum.splits)
  then obtain picked runs where "sv_spawned s' = sv_spawned s @ runs" "length runs = n" "subseq picked tasks"
    "list_all resumable picked" "list_all2 runs_task picked runs"
  proof cases
    case 1
    then show thesis using s1 by (intro that [of "[]" "[]"]) auto
  next
    case 2
    then show thesis using resume_tasks_spawned [OF assms(1) 2] s1 by (auto intro: that)
  qed
  then show ?thesis using x
    by (intro exI conjI) (auto simp: list_all2_conv_all_nth list_all_length resumable_def)
qed

definition interrupted :: "(fake_engine, fake_backend, disk) service" where
  "interrupted = disk_service guard_empty ((''/opt/janush'', []) # bp_files)
     (set_table ''bp'' [(blank_row 3 ''build'' ''bp'' ''RUNNING'' 5)\<lparr>mr_workflow_name := Some ''dev''\<rparr>,
        blank_row 4 ''build'' ''bp'' ''SUSPENDED'' 6] sample_db)"

lemma reconcile_runs_witness:
  "\<exists>s' t b. reconcile (disk_server ping_pong Map.empty bp_toml) (Some ''bp'') interrupted = Some (Inr 1, s') \<and>
     sv_spawned s' = [b] \<and> runs_task t b \<and> cs_status t \<in> {''STARTING'', ''RUNNING'', ''STOPPED''}"
proof -
  let ?d = "disk_server ping_pong Map.empty bp_toml"
  have "map_option fst (reconcile ?d (Some ''bp'') interrupted) = Some (Inr 1)" by code_simp
  then obtain s' where run: "reconcile ?d (Some ''bp'') interrupted = Some (Inr 1, s')" by auto
  from reconcile_runs [OF disk_quiet run] obtain picked runs where
    spawned: "sv_spawned s' = sv_spawned interrupted @ runs" "length runs = 1"
    and all: "list_all2 (\<lambda>t b. cs_status t \<in> {''STARTING'', ''RUNNING'', ''STOPPED''} \<and> runs_task t b) picked runs"
    by blast
  obtain b where "runs = [b]" using spawned(2) by (auto simp: length_Suc_conv)
  moreover from this obtain t where "cs_status t \<in> {''STARTING'', ''RUNNING'', ''STOPPED''} \<and> runs_task t b"
    using all by (auto simp only: list_all2_Cons2)
  ultimately show ?thesis using run spawned(1) by (auto simp only: interrupted_def disk_service_def service.simps append.simps)
qed

section \<open>Saving a workflow\<close>

text \<open>A result that is not the error of the first part comes from the second.\<close>

lemma past_prefix:
  assumes "bindE (prefix_error t m) f w = Some (r, w')" "\<And>e. r \<noteq> Inl (t @ e)"
  obtains x v where "m w = Some (Inr x, v)" "f x v = Some (r, w')"
proof (cases "m w")
  case None
  then show thesis using assms(1) by (simp add: bindE_def prefix_error_def map_err_def)
next
  case (Some a)
  then show thesis using assms that
    by (cases a; cases "fst a") (auto simp: bindE_def prefix_error_def map_err_def)
qed

lemma bind_gets: "bindE (gets g) f w = f (g w) w"
  by (simp add: bindE_def gets_def)

definition refusal :: "string + 'a \<Rightarrow> bool" where
  "refusal r = (case r of Inl e \<Rightarrow> prefix ''workflow validation failed: '' e | Inr _ \<Rightarrow> False)"

lemma refusals:
  "refusal r \<Longrightarrow> r \<noteq> Inl (''tempdir failed: '' @ e)" "refusal r \<Longrightarrow> r \<noteq> Inl (''create temp dir: '' @ e)"
  "refusal r \<Longrightarrow> r \<noteq> Inl (''write temp workflow: '' @ e)"
  "refusal r \<Longrightarrow> r \<noteq> Inl (''create .janus/workflows dir: '' @ e)"
  "refusal r \<Longrightarrow> r \<noteq> Inl (''save workflow: '' @ e)" "refusal r \<Longrightarrow> r \<noteq> Inr x"
  by (auto simp: refusal_def)

lemma check_workflow_refuses:
  assumes "check_workflow d h tmp name content s = Some (r, s')" "refusal r"
  shows "\<exists>g. m_write (dn_machine (dm_base d)) (path_join (path_join tmp ''.janus/workflows'') (name @ ''.toml'')) content g =
    Some (Inr (), machine_of s')"
proof -
  let ?m = "dn_machine (dm_base d)" and ?dir = "path_join tmp ''.janus/workflows''"
  let ?check = "\<lambda>s. case load_unified_workflow (dm_toml d) (files_of d s) name tmp of
      None \<Rightarrow> None | Some (Inl e) \<Rightarrow> fail (''workflow validation failed: '' @ show_error h e) s | Some (Inr _) \<Rightarrow> ret () s"
  obtain s1 s2 where "in_world (on_machine (m_write ?m (path_join ?dir (name @ ''.toml'')) content)) s1 = Some (Inr (), s2)"
    "?check s2 = Some (r, s')"
    using assms(1) unfolding check_workflow_def Let_def
    by (elim past_prefix [OF _ refusals(2) [OF assms(2)]] past_prefix [OF _ refusals(3) [OF assms(2)]]) auto
  moreover from this(2) have "s' = s2" by (auto simp: fail_def ret_def split: option.splits sum.splits)
  ultimately show ?thesis by (auto simp: in_machine_io machine_of_def)
qed

text \<open>C32: a workflow that the daemon refuses to save because it is not valid is written all the
  same when its name is an absolute path: the name is not checked, the file with it is written
  outside the temporary directory before it is validated, and only the directory is removed. The
  file that is written can be read, and the removal of a directory leaves what is outside.\<close>

theorem save_workflow_escapes:
  assumes "\<And>g g'. m_write (dn_machine (dm_base d)) (name @ ''.toml'') content g = Some (Inr (), g') \<Longrightarrow>
      read_to_string (dm_fs d g') (name @ ''.toml'') = Some content"
    and "\<And>tmp g p. \<not> prefix (tmp @ ''/'') p \<Longrightarrow>
      read_to_string (dm_fs d (ho_remove_tempdir h tmp g)) p = read_to_string (dm_fs d g) p"
    and "\<And>g tmp g'. ho_tempdir h g = Some (Inr tmp, g') \<Longrightarrow> \<not> prefix (tmp @ ''/'') (name @ ''.toml'')"
    and "prefix ''/'' name"
    and "save_workflow d h blueprint name content s = Some (Inl e, s')" "prefix ''workflow validation failed: '' e"
  shows "read_to_string (files_of d s') (name @ ''.toml'') = Some content"
proof -
  have r: "refusal (Inl e :: string + string)" using assms(6) by (simp add: refusal_def)
  let ?root = "target_root (files_of d s) (root_of d) blueprint" and ?m = "dn_machine (dm_base d)"
  let ?body = "\<lambda>tmp. let m = dn_machine (dm_base d); dest_dir = path_join ?root ''.janus/workflows'' in
    bindE (check_workflow d h tmp name content) (\<lambda>_.
    bindE (prefix_error ''create .janus/workflows dir: '' (in_world (on_machine (m_create_dir_all m dest_dir)))) (\<lambda>_.
    bindE (prefix_error ''save workflow: ''
      (in_world (on_machine (m_write m (path_join dest_dir (name @ ''.toml'')) content)))) (\<lambda>_.
    ret (''workflow '' @ [CHR 0x27] @ name @ [CHR 0x27] @ '' saved to .janus/workflows/''))))"
  let ?drop = "\<lambda>tmp s. s\<lparr>sv_world := (sv_world s)\<lparr>wl_machine := ho_remove_tempdir h tmp (machine_of s)\<rparr>\<rparr>"
  have "bindE (prefix_error ''tempdir failed: '' (in_world (on_machine (ho_tempdir h)))) (\<lambda>tmp.
      with_guard (?drop tmp) (?body tmp)) s = Some (Inl e, s')"
    using assms(5) unfolding save_workflow_def bind_gets .
  then obtain tmp s1 where t: "in_world (on_machine (ho_tempdir h)) s = Some (Inr tmp, s1)"
    and body: "with_guard (?drop tmp) (?body tmp) s1 = Some (Inl e, s')"
    by (elim past_prefix [OF _ refusals(1) [OF r]])
  from body obtain s2 where b: "?body tmp s1 = Some (Inl e, s2)" "s' = ?drop tmp s2"
    by (auto simp: with_guard_def)
  have "check_workflow d h tmp name content s1 = Some (Inl e, s2)"
  proof -
    from b(1) consider "check_workflow d h tmp name content s1 = Some (Inl e, s2)"
      | v where "bindE (prefix_error ''create .janus/workflows dir: ''
          (in_world (on_machine (m_create_dir_all ?m (path_join ?root ''.janus/workflows''))))) (\<lambda>_.
        bindE (prefix_error ''save workflow: ''
          (in_world (on_machine (m_write ?m (path_join (path_join ?root ''.janus/workflows'') (name @ ''.toml'')) content)))) (\<lambda>_.
        ret (''workflow '' @ [CHR 0x27] @ name @ [CHR 0x27] @ '' saved to .janus/workflows/''))) v = Some (Inl e, s2)"
      unfolding Let_def bindE_io [of "check_workflow d h tmp name content"] by blast
    then show ?thesis
    proof cases
      case 2
      then obtain x v where "ret (''workflow '' @ [CHR 0x27] @ name @ [CHR 0x27] @ '' saved to .janus/workflows/'') v = Some (Inl e, s2)"
        by (elim past_prefix [OF _ refusals(4) [OF r]] past_prefix [OF _ refusals(5) [OF r]])
      then show ?thesis by (simp add: ret_def)
    qed
  qed
  from check_workflow_refuses [OF this] r obtain g where
    "m_write ?m (path_join (path_join tmp ''.janus/workflows'') (name @ ''.toml'')) content g = Some (Inr (), machine_of s2)"
    by (auto simp: refusal_def)
  moreover have "path_join (path_join tmp ''.janus/workflows'') (name @ ''.toml'') = name @ ''.toml''"
    using assms(4) by (auto simp: path_join_def elim!: prefixE)
  ultimately have "read_to_string (dm_fs d (machine_of s2)) (name @ ''.toml'') = Some content"
    using assms(1) by simp
  moreover have "\<not> prefix (tmp @ ''/'') (name @ ''.toml'')" using t assms(3) by (auto simp: in_machine_io)
  ultimately show ?thesis using assms(2) by (simp add: b(2) files_of_def machine_of_def)
qed

lemma map_of_filter_key: "P k \<Longrightarrow> map_of (filter (\<lambda>(p, _). P p) g) k = map_of g k"
  by (induction g) auto

lemma save_workflow_escapes_witness:
  "\<exists>e s'. save_workflow (disk_server ping_pong Map.empty no_toml) disk_host None ''/etc/x'' ''y''
       (disk_service guard_empty [] sample_db) = Some (Inl e, s') \<and>
     read_to_string (files_of (disk_server ping_pong Map.empty no_toml) s') ''/etc/x.toml'' = Some ''y''"
proof -
  let ?d = "disk_server ping_pong Map.empty no_toml" and ?s = "disk_service guard_empty [] sample_db"
  let ?run = "save_workflow ?d disk_host None ''/etc/x'' ''y'' ?s"
  have "case ?run of Some (Inl e, _) \<Rightarrow> prefix ''workflow validation failed: '' e | _ \<Rightarrow> False" by code_simp
  then obtain e s' where run: "?run = Some (Inl e, s')" "prefix ''workflow validation failed: '' e"
    by (auto split: option.splits sum.splits)
  have "read_to_string (files_of ?d s') (''/etc/x'' @ ''.toml'') = Some ''y''"
  proof (rule save_workflow_escapes [OF _ _ _ _ run])
    show "read_to_string (dm_fs ?d g') (''/etc/x'' @ ''.toml'') = Some ''y''"
      if "m_write (dn_machine (dm_base ?d)) (''/etc/x'' @ ''.toml'') ''y'' g = Some (Inr (), g')" for g g'
      using that by (auto simp: disk_server_def disk_daemon_def disk_machine_def modify_def disk_fs_def
          read_to_string_def)
    show "read_to_string (dm_fs ?d (ho_remove_tempdir disk_host tmp g)) p = read_to_string (dm_fs ?d g) p"
      if "\<not> prefix (tmp @ ''/'') p" for tmp g p
      using map_of_filter_key [of "\<lambda>p. \<not> prefix (tmp @ ''/'') p" p g] that
      by (simp add: disk_server_def disk_host_def disk_fs_def read_to_string_def)
    show "\<not> prefix (tmp @ ''/'') (''/etc/x'' @ ''.toml'')" if "ho_tempdir disk_host g = Some (Inr tmp, g')" for g tmp g'
      using that by (auto simp: disk_host_def ret_def)
  qed simp
  then show ?thesis using run(1) by auto
qed

section \<open>One daemon\<close>

text \<open>C28: a daemon that took the lock excludes the others: as long as its process is alive and the
  file is not changed, an attempt of another daemon fails and leaves everything as it is. The
  process number is below 2 to the 31.\<close>

theorem lock_excludes:
  assumes "\<And>p t g g'. m_write m p t g = Some (Inr (), g') \<Longrightarrow> read_to_string (fs g') p = Some t"
    and "acquire_pid_lock m h fs path g = Some (Inr (), g1)" "ho_pid h < 2 ^ 31"
    and "read_to_string (fs g2) path = read_to_string (fs g1) path" "is_pid_alive h' (int (ho_pid h)) g2"
  shows "\<exists>e. acquire_pid_lock m h' fs path g2 = Some (Inl e, g2)"
proof -
  have "m_write m path (dec (ho_pid h)) g = Some (Inr (), g1)"
    using assms(2) by (auto simp: acquire_pid_lock_def fail_def split: option.splits if_splits)
  then have "read_to_string (fs g2) path = Some (dec (ho_pid h))" using assms(1,4) by simp
  then show ?thesis using assms(3,5) by (simp add: acquire_pid_lock_def trim_dec parse_signed_pos fail_def)
qed

lemma lock_excludes_witness:
  "\<exists>e. acquire_pid_lock disk_machine (disk_host\<lparr>ho_pid := 43, ho_kill0 := \<lambda>_ _. None\<rparr>) disk_fs ''/run/janus.pid''
     [(''/run/janus.pid'', ''42'')] = Some (Inl e, [(''/run/janus.pid'', ''42'')])"
proof (rule lock_excludes)
  show "acquire_pid_lock disk_machine disk_host disk_fs ''/run/janus.pid'' [] =
      Some (Inr (), [(''/run/janus.pid'', ''42'')])" by code_simp
  show "read_to_string (disk_fs g') p = Some t" if "m_write disk_machine p t g = Some (Inr (), g')" for p t g g'
    using that by (auto simp: disk_machine_def modify_def disk_fs_def read_to_string_def)
qed (simp_all add: disk_host_def is_pid_alive_def)

text \<open>The sweep of the credentials at the cold start has nothing to revoke.\<close>

lemma fresh_sweep_revokes_nothing: "fresh_sweep ck tasks = Some (Inr 0, [])"
  by (simp add: fresh_sweep_def reconcile_credentials_def memory_new_def memory_provider_def memory_sweep_def bindE_def ret_def)

end
