(* ===== verification/Gateway_Http.thy ===== *)
theory Gateway_Http
  imports Gateway
begin

text \<open>
  The HTTP side of the approval gateway, \<open>src/janus/src/gateway/mod.rs\<close> and
  \<open>src/janus/src/gateway/teams.rs\<close>: the card with its three buttons, the request that a button
  sends, and the answer. A connection is the list of the bytes that can be read from it; a
  read that fails and the end of the stream are treated alike, as in the code.
\<close>

section \<open>Requests\<close>

record http_request =
  hr_method :: string
  hr_path :: string
  hr_auth :: "string option"
  hr_body :: string

definition crlf :: string where
  "crlf = [bchr 13, bchr 10]"

text \<open>The header is read byte by byte up to the empty line and may have 8192 bytes.\<close>

fun read_header :: "string \<Rightarrow> string \<Rightarrow> (string \<times> string) option" where
  "read_header header_buf [] = None"
| "read_header header_buf (one # rest) =
     (let header_buf = header_buf @ [one] in
      if suffix (crlf @ crlf) header_buf then Some (header_buf, rest)
      else if 8192 < length header_buf then None
      else read_header header_buf rest)"

text \<open>The two header lines that matter; the last one of each kind counts.\<close>

fun header_fields :: "string list \<Rightarrow> nat \<Rightarrow> string option \<Rightarrow> nat \<times> string option" where
  "header_fields [] content_length auth = (content_length, auth)"
| "header_fields (line # ls) content_length auth =
     (case split_once '':'' line of
        None \<Rightarrow> header_fields ls content_length auth
      | Some (k, v) \<Rightarrow>
          let k = map to_ascii_lower (trim k); v = trim v in
          if k = ''content-length'' then
            header_fields ls (case parse_u64 v of Some n \<Rightarrow> n | None \<Rightarrow> 0) auth
          else if k = ''authorization'' then header_fields ls content_length (Some v)
          else header_fields ls content_length auth)"

definition read_request :: "string \<Rightarrow> http_request option" where
  "read_request stream =
     (case read_header [] stream of
        None \<Rightarrow> None
      | Some (header_buf, rest) \<Rightarrow>
          if \<not> valid_utf8 header_buf then None
          else
            (case split_str crlf header_buf of
               [] \<Rightarrow> None
             | req_line # ls \<Rightarrow>
                 (case split_str '' '' req_line of
                    meth # path # _ \<Rightarrow>
                      let (content_length, auth) = header_fields ls 0 None in
                      if length rest < content_length then None
                      else Some \<lparr>hr_method = meth, hr_path = path, hr_auth = auth,
                                 hr_body = take content_length rest\<rparr>
                  | _ \<Rightarrow> None)))"

definition parse_run_id :: "string \<Rightarrow> string option" where
  "parse_run_id path =
     (case strip_prefix ''/v1/runs/'' (hd (split_str ''?'' path)) of
        None \<Rightarrow> None
      | Some p \<Rightarrow>
          (case strip_suffix ''/actions'' p of
             None \<Rightarrow> None
           | Some i \<Rightarrow> if i = [] then None else Some i))"

section \<open>Answers\<close>

definition http_reason :: "nat \<Rightarrow> string" where
  "http_reason code =
     (if code = 200 then ''OK'' else if code = 400 then ''Bad Request''
      else if code = 401 then ''Unauthorized'' else if code = 404 then ''Not Found''
      else if code = 405 then ''Method Not Allowed'' else if code = 409 then ''Conflict''
      else if code = 410 then ''Gone'' else ''OK'')"

definition write_response :: "nat \<Rightarrow> string \<Rightarrow> string" where
  "write_response code msg =
     (let body = ''{'' @ [CHR 0x22] @ ''status'' @ [CHR 0x22] @ '':'' @ [CHR 0x22] @ msg @ [CHR 0x22] @ ''}'' in
      ''HTTP/1.1 '' @ dec code @ '' '' @ http_reason code @ crlf @
      ''Content-Type: application/json'' @ crlf @
      ''Content-Length: '' @ dec (length body) @ crlf @
      ''Connection: close'' @ crlf @ crlf @ body)"

text \<open>One connection: what is sent back, and the registry after it.\<close>

definition handle_callback :: "gateway \<Rightarrow> string \<Rightarrow> gw_state \<Rightarrow> string \<times> gw_state" where
  "handle_callback g stream s =
     (case read_request stream of
        None \<Rightarrow> (write_response 400 ''bad request'', s)
      | Some req \<Rightarrow>
          if hr_method req \<noteq> ''POST'' then (write_response 405 ''method not allowed'', s)
          else
            (case parse_run_id (hr_path req) of
               None \<Rightarrow> (write_response 404 ''not found'', s)
             | Some run_id \<Rightarrow>
                 (case resolve_callback g run_id (hr_body req) (hr_auth req) s of
                    (status, s') \<Rightarrow>
                      (write_response (fst (status_parts status)) (snd (status_parts status)), s'))))"

section \<open>The card\<close>

definition text_block :: "string \<Rightarrow> (string \<times> json) list \<Rightarrow> json" where
  "text_block t extra = JObj ([(''type'', JStr ''TextBlock''), (''text'', JStr t)] @ extra)"

text \<open>A button posts its body to the callback address.\<close>

definition card_action :: "string \<Rightarrow> string \<Rightarrow> string \<Rightarrow> json" where
  "card_action cb title body =
     JObj [(''type'', JStr ''Action.Http''), (''title'', JStr title), (''method'', JStr ''POST''),
       (''url'', JStr cb), (''body'', JStr body)]"

text \<open>The three bodies, written with tildes for the double quotes.\<close>

definition button_body :: "string \<Rightarrow> string" where
  "button_body s = map (\<lambda>c. if c = CHR ''~'' then CHR 0x22 else c) s"

definition trim_end_slashes :: "string \<Rightarrow> string" where
  "trim_end_slashes s = rev (dropWhile (\<lambda>c. c = CHR ''/'') (rev s))"

definition callback_url :: "webhook_payload \<Rightarrow> string \<Rightarrow> string" where
  "callback_url p callback_base =
     trim_end_slashes callback_base @ ''/v1/runs/'' @ wp_correlation_id p @ ''/actions''"

text \<open>\<open>build_card\<close>; the printer of JSON is the parameter. The sign before the cause is U+1F6D1.\<close>

definition build_card :: "crates \<Rightarrow> webhook_payload \<Rightarrow> string \<Rightarrow> string" where
  "build_card cr p callback_base =
     (let cb = callback_url p callback_base in
      cr_to_vec cr (JObj
        [(''type'', JStr ''message''),
         (''attachments'', JArr [JObj
           [(''contentType'', JStr ''application/vnd.microsoft.card.adaptive''),
            (''content'', JObj
              [(''$schema'', JStr ''http://adaptivecards.io/schemas/adaptive-card.json''),
               (''type'', JStr ''AdaptiveCard''), (''version'', JStr ''1.4''),
               (''body'', JArr
                 [text_block (map bchr [0xF0, 0x9F, 0x9B, 0x91] @ '' HITL: '' @ wp_cause p)
                    [(''weight'', JStr ''Bolder''), (''size'', JStr ''Medium'')],
                  text_block (''Blueprint: '' @ wp_blueprint p) [(''isSubtle'', JBool True)],
                  text_block (''Step: '' @ wp_step p) [(''isSubtle'', JBool True)],
                  text_block (''Command: '' @ wp_command p) [(''wrap'', JBool True)],
                  text_block (wp_reason p @ [newline] @ wp_stdout_tail p)
                    [(''wrap'', JBool True), (''isSubtle'', JBool True)],
                  text_block (''Expires: '' @ wp_expires_at p)
                    [(''isSubtle'', JBool True), (''spacing'', JStr ''Small'')]]),
               (''actions'', JArr
                 [card_action cb ''Approve'' (button_body ''{~action~:~approve~,~approved_by~:~teams~}''),
                  card_action cb ''Reject'' (button_body ''{~action~:~reject~,~approved_by~:~teams~}''),
                  card_action cb ''Override''
                    (button_body ''{~action~:~override~,~override_command~:~~,~approved_by~:~teams~}'')])])]])]))"

definition nonempty_var :: "(string \<Rightarrow> string option) \<Rightarrow> string \<Rightarrow> string option" where
  "nonempty_var env k = (case env k of Some v \<Rightarrow> if v = [] then None else Some v | None \<Rightarrow> None)"

text \<open>What the Teams sender posts, and where; \<open>None\<close> when it is not configured. The result of the
  request is only logged.\<close>

definition teams_send :: "(string \<Rightarrow> string option) \<Rightarrow> crates \<Rightarrow> webhook_payload \<Rightarrow> (string \<times> string) option" where
  "teams_send env cr p =
     (case nonempty_var env ''JANUS_TEAMS_WEBHOOK_URL'' of
        None \<Rightarrow> None
      | Some url \<Rightarrow>
          let callback_base = (case nonempty_var env ''JANUS_TEAMS_CALLBACK_URL'' of
            Some b \<Rightarrow> b | None \<Rightarrow> ''http://127.0.0.1:8443'') in
          Some (url, build_card cr p callback_base))"

text \<open>The arguments of the \<open>curl\<close> that the Telegram sender runs.\<close>

definition telegram_send :: "(string \<Rightarrow> string option) \<Rightarrow> crates \<Rightarrow> webhook_payload \<Rightarrow> string list option" where
  "telegram_send env cr p =
     (case (nonempty_var env ''JANUS_TELEGRAM_TOKEN'', nonempty_var env ''JANUS_TELEGRAM_CHAT_ID'') of
        (Some token, Some chat) \<Rightarrow>
          let url = ''https://api.telegram.org/bot'' @ token @ ''/sendMessage'';
              txt = map bchr [0xF0, 0x9F, 0x9B, 0x91] @ '' MetaMach HITL'' @ [newline] @
                ''Cause: '' @ wp_cause p @ [newline] @ ''Cmd: '' @ wp_command p @ [newline] @
                ''Reason: '' @ wp_reason p @ [newline] @ ''Correlation: '' @ wp_correlation_id p;
              body = cr_to_vec cr (JObj
                [(''chat_id'', JStr chat), (''text'', JStr txt),
                 (''reply_markup'', JObj [(''inline_keyboard'', JArr [JArr [JObj
                   [(''text'', JStr ''[Resume]''), (''callback_data'', JStr (wp_resume_key p))]]])])]) in
          Some [''-s'', ''-S'', ''--max-time'', ''10'', ''-X'', ''POST'', ''-H'',
            ''Content-Type: application/json'', ''-d'', body, url]
      | _ \<Rightarrow> None)"

section \<open>A request is read as it was sent\<close>

text \<open>The request of a client, with its header lines.\<close>

definition http_line :: "string \<Rightarrow> bool" where
  "http_line l = (l \<noteq> [] \<and> (\<forall>c \<in> set l. 32 \<le> byte c \<and> byte c < 127))"

definition request_head :: "string \<Rightarrow> string" where
  "request_head path = ''POST '' @ path @ '' HTTP/1.1''"

definition auth_line :: "string \<Rightarrow> string" where
  "auth_line a = ''Authorization: '' @ a"

definition length_line :: "nat \<Rightarrow> string" where
  "length_line n = ''Content-Length: '' @ dec n"

definition post_request :: "string \<Rightarrow> string option \<Rightarrow> string \<Rightarrow> string list" where
  "post_request path auth body =
     request_head path # (case auth of None \<Rightarrow> [] | Some a \<Rightarrow> [auth_line a]) @ [length_line (length body)]"

definition header_text :: "string list \<Rightarrow> string" where
  "header_text ls = concat (map (\<lambda>l. l @ crlf) ls)"

lemma crlf_last: "suffix (crlf @ crlf) (s @ [c]) \<Longrightarrow> byte c = 10"
  by (auto simp: suffix_def crlf_def)

lemma read_header_plain:
  "\<forall>c \<in> set s. byte c \<noteq> 10 \<Longrightarrow> length buf + length s \<le> 8192 \<Longrightarrow>
   read_header buf (s @ rest) = read_header (buf @ s) rest"
proof (induction s arbitrary: buf)
  case (Cons c s)
  then have "\<not> suffix (crlf @ crlf) (buf @ [c])" using crlf_last by fastforce
  with Cons show ?case by (simp add: Let_def del: suffix_snoc)
qed simp

lemma read_header_line:
  assumes "http_line l" "length buf + length l + 2 \<le> 8192"
  shows "read_header buf (l @ crlf @ rest) = read_header (buf @ l @ crlf) rest"
proof -
  have plain: "\<forall>c \<in> set (l @ [bchr 13]). byte c \<noteq> 10" using assms(1) by (auto simp: http_line_def)
  have "read_header buf ((l @ [bchr 13]) @ bchr 10 # rest) = read_header (buf @ l @ [bchr 13]) (bchr 10 # rest)"
    using read_header_plain [OF plain, of buf] assms(2) by simp
  moreover have "\<not> suffix (crlf @ crlf) (buf @ l @ crlf)"
  proof
    obtain l' c where l: "l = l' @ [c]" using assms(1) by (cases l rule: rev_cases) (auto simp: http_line_def)
    assume "suffix (crlf @ crlf) (buf @ l @ crlf)"
    then have "byte c = 10" using l by (auto simp: suffix_def crlf_def)
    then show False using l assms(1) by (simp add: http_line_def)
  qed
  ultimately show ?thesis using assms(2) by (simp add: crlf_def Let_def del: suffix_snoc)
qed

lemma read_header_lines:
  "list_all http_line ls \<Longrightarrow> length buf + length (header_text ls) \<le> 8192 \<Longrightarrow>
   read_header buf (header_text ls @ rest) = read_header (buf @ header_text ls) rest"
proof (induction ls arbitrary: buf)
  case (Cons l ls)
  have len: "length crlf = 2" by (simp add: crlf_def)
  have "read_header buf (l @ crlf @ header_text ls @ rest) = read_header (buf @ l @ crlf) (header_text ls @ rest)"
    using Cons.prems len by (intro read_header_line) (auto simp: header_text_def)
  then show ?case using Cons len by (simp add: header_text_def)
qed (simp add: header_text_def)

lemma read_header_end:
  assumes "ls \<noteq> []" "list_all http_line ls" "length (header_text ls) + 2 \<le> 8192"
  shows "read_header [] (header_text ls @ crlf @ rest) = Some (header_text ls @ crlf, rest)"
proof -
  obtain ls' l where ls: "ls = ls' @ [l]" using assms(1) by (cases ls rule: rev_cases) auto
  have h: "header_text ls = header_text ls' @ l @ crlf" by (simp add: ls header_text_def)
  have "\<not> suffix (crlf @ crlf) (header_text ls @ [bchr 13])" using crlf_last [of "header_text ls" "bchr 13"] by auto
  moreover have "suffix (crlf @ crlf) (header_text ls @ crlf)"
    unfolding h by (auto simp: suffix_def)
  ultimately have "read_header (header_text ls) (crlf @ rest) = Some (header_text ls @ crlf, rest)"
    using assms(3) by (simp add: crlf_def Let_def del: suffix_snoc)
  then show ?thesis using read_header_lines [OF assms(2), of "[]" "crlf @ rest"] assms(3) by simp
qed

lemma split_once_crlf: "\<forall>c \<in> set l. byte c \<noteq> 13 \<Longrightarrow> split_once crlf (l @ crlf @ r) = Some (l, r)"
  by (induction l) (auto simp: crlf_def prefix_def)

lemma split_lines:
  "list_all http_line ls \<Longrightarrow> split_str crlf (header_text ls @ s) = ls @ split_str crlf s"
proof (induction ls)
  case (Cons l ls)
  have "\<forall>c \<in> set l. byte c \<noteq> 13" using Cons.prems by (auto simp: http_line_def)
  from split_once_crlf [OF this, of "header_text ls @ s"] Cons show ?case
    by (simp add: header_text_def split_str.simps [of crlf "l @ _"])  (simp add: crlf_def)
qed (simp add: header_text_def)

lemma split_tail: "split_str crlf crlf = [[], []]"
  by (simp add: split_str.simps crlf_def)

lemma valid_utf8_ascii: "\<forall>c \<in> set s. byte c < 128 \<Longrightarrow> valid_utf8 s"
proof (induction s)
  case (Cons c s)
  then have "utf8_step (c # s) = (True, 1)" by (simp add: utf8_step_def Let_def)
  with Cons show ?case by (simp add: valid_utf8.simps [of "c # s"])
qed (simp add: valid_utf8.simps)

lemma split_once_char: "c \<notin> set l \<Longrightarrow> split_once [c] (l @ c # r) = Some (l, r)"
  by (induction l) auto

lemma split_once_no_char: "c \<notin> set l \<Longrightarrow> split_once [c] l = None"
  by (induction l) auto

lemma split_str_char: "c \<notin> set l \<Longrightarrow> split_str [c] (l @ c # r) = l # split_str [c] r"
  by (subst split_str.simps) (simp add: split_once_char)

lemma split_str_no_char: "c \<notin> set l \<Longrightarrow> split_str [c] l = [l]"
  by (subst split_str.simps) (simp add: split_once_no_char)

definition run_path :: "string \<Rightarrow> string" where
  "run_path cid = ''/v1/runs/'' @ cid @ ''/actions''"

definition run_id_text :: "string \<Rightarrow> bool" where
  "run_id_text cid = (cid \<noteq> [] \<and> (\<forall>c \<in> set cid. 33 \<le> byte c \<and> byte c < 127 \<and> c \<noteq> CHR ''?''))"

definition auth_text :: "string option \<Rightarrow> bool" where
  "auth_text auth = (case auth of None \<Rightarrow> True
     | Some a \<Rightarrow> http_line a \<and> hd a \<noteq> CHR '' '' \<and> last a \<noteq> CHR '' '')"

lemma parse_run_id_path:
  assumes "run_id_text cid"
  shows "parse_run_id (run_path cid) = Some cid"
proof -
  have "CHR ''?'' \<notin> set (run_path cid)" using assms by (auto simp: run_path_def run_id_text_def)
  then have "split_str ''?'' (run_path cid) = [run_path cid]" by (rule split_str_no_char)
  moreover have "cid \<noteq> []" using assms by (simp add: run_id_text_def)
  moreover have "strip_prefix ''/v1/runs/'' (run_path cid) = Some (cid @ ''/actions'')"
    unfolding run_path_def by (rule strip_prefix_Some)
  moreover have "strip_suffix ''/actions'' (cid @ ''/actions'') = Some cid" by (rule strip_suffix_Some)
  ultimately show ?thesis by (simp only: parse_run_id_def list.sel option.case if_False)
qed

lemma run_path_chars: "run_id_text cid \<Longrightarrow> \<forall>c \<in> set (run_path cid). 33 \<le> byte c \<and> byte c < 127"
  by (simp add: run_path_def run_id_text_def ball_Un)

lemma run_path_no_space: "run_id_text cid \<Longrightarrow> CHR '' '' \<notin> set (run_path cid)"
  using run_path_chars by fastforce

lemma request_head_split: "request_head p = ''POST'' @ CHR '' '' # p @ CHR '' '' # ''HTTP/1.1''"
  by (simp add: request_head_def)

lemma http_request_head: "run_id_text cid \<Longrightarrow> http_line (request_head (run_path cid))"
  using run_path_chars [of cid] by (simp add: request_head_def http_line_def ball_Un) force

lemma http_length_line: "http_line (length_line n)"
proof -
  have "\<forall>c \<in> set (dec n). 32 \<le> byte c \<and> byte c < 127"
    using dec_digits [of n] by (auto simp: list_all_iff is_digit_def)
  then show ?thesis by (simp add: length_line_def http_line_def ball_Un)
qed

lemma http_auth_line: "http_line a \<Longrightarrow> http_line (auth_line a)"
  by (simp add: auth_line_def http_line_def ball_Un)

lemma request_line:
  assumes "run_id_text cid"
  shows "split_str '' '' (request_head (run_path cid)) = [''POST'', run_path cid, ''HTTP/1.1'']"
proof -
  have a: "CHR '' '' \<notin> set ''POST''" and b: "CHR '' '' \<notin> set ''HTTP/1.1''" by simp_all
  show ?thesis
    unfolding request_head_split split_str_char [OF a] split_str_char [OF run_path_no_space [OF assms]]
      split_str_no_char [OF b] ..
qed

lemma byte_space: "c \<noteq> CHR '' '' \<Longrightarrow> byte c \<noteq> 32"
proof
  assume c: "c \<noteq> CHR '' ''" "byte c = 32"
  have "c = bchr (byte c)" by simp
  also have "\<dots> = CHR '' ''" unfolding c(2) by code_simp
  finally show False using c(1) by contradiction
qed

lemma trim_auth: "http_line a \<Longrightarrow> hd a \<noteq> CHR '' '' \<Longrightarrow> last a \<noteq> CHR '' '' \<Longrightarrow> trim a = a"
proof (rule trim_plain(2))
  assume a: "http_line a" "hd a \<noteq> CHR '' ''" "last a \<noteq> CHR '' ''"
  have vis: "byte c < 128 \<and> \<not> ws_ascii c" if "c \<in> set a" "c \<noteq> CHR '' ''" for c
  proof -
    have "byte c \<noteq> 32" using that(2) by (rule byte_space)
    then show ?thesis using that(1) a(1) by (force simp: http_line_def ws_ascii_def)
  qed
  show "a \<noteq> []" using a(1) by (simp add: http_line_def)
  then show "byte (hd a) < 128" "\<not> ws_ascii (hd a)" "byte (last a) < 128" "\<not> ws_ascii (last a)"
    using vis [of "hd a"] vis [of "last a"] a by simp_all
qed

lemma length_field:
  "header_fields (length_line n # ls) k auth =
     (if n < 2 ^ 64 then header_fields ls n auth else header_fields ls 0 auth)"
proof -
  have "split_once '':'' (length_line n) = Some (''Content-Length'', CHR '' '' # dec n)"
    using split_once_char [of "CHR '':''" "''Content-Length''" "CHR '' '' # dec n"] by (simp add: length_line_def)
  moreover have "map to_ascii_lower (trim ''Content-Length'') = ''content-length''" by code_simp
  ultimately show ?thesis by (simp add: trim_space trim_dec parse_u64_def Let_def)
qed

lemma auth_field:
  assumes "http_line a" "hd a \<noteq> CHR '' ''" "last a \<noteq> CHR '' ''"
  shows "header_fields (auth_line a # ls) k auth = header_fields ls k (Some a)"
proof -
  have "split_once '':'' (auth_line a) = Some (''Authorization'', CHR '' '' # a)"
    using split_once_char [of "CHR '':''" "''Authorization''" "CHR '' '' # a"] by (simp add: auth_line_def)
  moreover have "map to_ascii_lower (trim ''Authorization'') = ''authorization''" by code_simp
  ultimately show ?thesis using trim_auth [OF assms] by (simp add: trim_space Let_def)
qed

lemma request_fields:
  assumes "auth_text auth" "length body < 2 ^ 64"
  shows "header_fields (tl (post_request path auth body) @ [[], []]) 0 None = (length body, auth)"
proof -
  have blank: "header_fields ([] # ls) k a = header_fields ls k a" for ls k a by simp
  show ?thesis
    using assms by (cases auth)
      (simp_all add: post_request_def length_field auth_field auth_text_def blank del: header_fields.simps(2))
qed

lemma header_ascii: "list_all http_line ls \<Longrightarrow> \<forall>c \<in> set (header_text ls @ crlf). byte c < 128"
proof (induction ls)
  case (Cons l ls)
  then have "\<forall>c \<in> set l. byte c < 128" by (auto simp: http_line_def)
  with Cons show ?case by (simp add: header_text_def ball_Un crlf_def)
qed (simp add: header_text_def crlf_def)

lemma read_request_parts:
  assumes "read_header [] stream = Some (h, rest)" "valid_utf8 h" "split_str crlf h = r # ls"
    "split_str '' '' r = meth # path # parts" "header_fields ls 0 None = (n, a)" "n \<le> length rest"
  shows "read_request stream = Some \<lparr>hr_method = meth, hr_path = path, hr_auth = a, hr_body = take n rest\<rparr>"
  using assms by (simp add: read_request_def)

lemma handle_callback_post:
  assumes "read_request stream = Some r" "hr_method r = ''POST''" "parse_run_id (hr_path r) = Some cid"
  shows "handle_callback g stream s =
    (let (status, s') = resolve_callback g cid (hr_body r) (hr_auth r) s in
     (write_response (fst (status_parts status)) (snd (status_parts status)), s'))"
  using assms by (simp add: handle_callback_def)

text \<open>C22: the request that a client sends for a correlation id, with its body and its signature, is
  read back as exactly these three, so the listener answers it with what
  \<open>resolve_callback\<close> decides; bytes after the body are ignored.\<close>

theorem callback_http_roundtrip:
  assumes cid: "run_id_text cid" and auth: "auth_text auth" and body: "length body < 2 ^ 64"
    and small: "length (header_text (post_request (run_path cid) auth body)) + 2 \<le> 8192"
  shows "handle_callback g (header_text (post_request (run_path cid) auth body) @ crlf @ body @ extra) s =
    (let (status, s') = resolve_callback g cid body auth s in
     (write_response (fst (status_parts status)) (snd (status_parts status)), s'))"
proof -
  let ?ls = "post_request (run_path cid) auth body"
  have lines: "list_all http_line ?ls"
  proof -
    have "http_line (auth_line a)" if "auth = Some a" for a
      using auth that by (intro http_auth_line) (simp add: auth_text_def)
    then show ?thesis
      using http_request_head [OF cid] http_length_line by (simp add: post_request_def split: option.split)
  qed
  have "?ls \<noteq> []" by (simp add: post_request_def)
  from read_header_end [OF this lines small, of "body @ extra"]
  have h: "read_header [] (header_text ?ls @ crlf @ body @ extra) = Some (header_text ?ls @ crlf, body @ extra)" .
  have ascii: "\<forall>c \<in> set (header_text ?ls @ crlf). byte c < 128"
    using lines by (rule header_ascii)
  have split: "split_str crlf (header_text ?ls @ crlf) = ?ls @ [[], []]"
    using split_lines [OF lines, of crlf] split_tail by simp
  have lines': "split_str crlf (header_text ?ls @ crlf) = request_head (run_path cid) # (tl ?ls @ [[], []])"
    unfolding split by (simp add: post_request_def)
  have "length body \<le> length (body @ extra)" by simp
  from read_request_parts [OF h valid_utf8_ascii [OF ascii] lines' request_line [OF cid]
      request_fields [OF auth body, of "run_path cid"] this]
  have r: "read_request (header_text ?ls @ crlf @ body @ extra) =
      Some \<lparr>hr_method = ''POST'', hr_path = run_path cid, hr_auth = auth, hr_body = body\<rparr>"
    unfolding append_assoc take_append diff_self_eq_0 take_0 append_Nil2 take_all [OF order.refl] .
  have m: "hr_method \<lparr>hr_method = ''POST'', hr_path = run_path cid, hr_auth = auth, hr_body = body\<rparr> = ''POST''"
    and p: "parse_run_id (hr_path \<lparr>hr_method = ''POST'', hr_path = run_path cid, hr_auth = auth, hr_body = body\<rparr>) = Some cid"
    by (simp_all only: http_request.select_convs parse_run_id_path [OF cid])
  show ?thesis using handle_callback_post [OF r m p] by (simp only: http_request.select_convs)
qed

lemma callback_http_roundtrip_witness:
  "fst (handle_callback (toy_gateway None)
     (header_text (post_request (run_path ''c9'') None ''approve'') @ crlf @ ''approve'' @ []) (gw_init 0)) =
   write_response 410 ''gone''"
proof -
  have cid: "run_id_text ''c9''" by (simp add: run_id_text_def)
  have auth: "auth_text None" by (simp add: auth_text_def)
  have body: "length ''approve'' < 2 ^ 64" by simp
  have small: "length (header_text (post_request (run_path ''c9'') None ''approve'')) + 2 \<le> 8192"
    by (simp add: post_request_def header_text_def request_head_def run_path_def length_line_def crlf_def dec.simps)
  have "resolve_callback (toy_gateway None) ''c9'' ''approve'' None (gw_init 0) = (Gone, gw_init 0)"
    by (simp add: resolve_callback_def resolve_action_def callback_action_def toy_gateway_def toy_crates_def
        parse_action_def get_str_def take_sender_def gw_init_def)
  then show ?thesis
    using callback_http_roundtrip [OF cid auth body small, of "toy_gateway None" "[]" "gw_init 0"] by simp
qed

end
