(* ===== verification/Client.thy ===== *)
theory Client
  imports Uds
begin

text \<open>
  What the clients of the daemon share: a request with a time-out, \<open>src/janus/src/uds.rs\<close>, and the
  start of a daemon that is not there, \<open>src/janus/src/spawn.rs\<close>. \<open>uds_client\<close> is the client of the
  program; the clients' own code takes any client, so that its requests can be logged.
\<close>

record 'w client =
  cl_ask :: "nat \<Rightarrow> request \<Rightarrow> (string, 'w, response) io"
  cl_ensure :: "nat \<Rightarrow> (string, 'w, unit) io"

definition uds_client :: "('c, 'w) socket_ops \<Rightarrow> codec \<Rightarrow> 'w starter \<Rightarrow> (nat \<Rightarrow> string) \<Rightarrow> 'w client" where
  "uds_client so cd st show_duration =
     \<lparr>cl_ask = (\<lambda>timeout req. request_to so cd (sock_path (st_env st)) req timeout),
      cl_ensure = ensure_daemon st show_duration\<rparr>"

definition ask :: "'w client \<Rightarrow> request \<Rightarrow> (string, 'w, response) io" where
  "ask cl req = cl_ask cl DEFAULT_TIMEOUT req"

lemma ask_uds_client: "ask (uds_client so cd st show_duration) req = uds_request so cd (st_env st) req"
  by (simp add: ask_def uds_client_def uds_request_def)

section \<open>Logs\<close>

text \<open>A computation beside a log, and one that adds an event to it, whatever its result.\<close>

definition beside :: "('e, 'w, 'a) io \<Rightarrow> ('e, 'w \<times> 'l, 'a) io" where
  "beside m = (\<lambda>(w, l). map_option (\<lambda>(r, w'). (r, w', l)) (m w))"

definition noted :: "'v \<Rightarrow> ('e, 'w, 'a) io \<Rightarrow> ('e, 'w \<times> 'v list, 'a) io" where
  "noted ev m = (\<lambda>(w, l). map_option (\<lambda>(r, w'). (r, w', l @ [ev])) (m w))"

definition logged_client :: "(request \<Rightarrow> 'v) \<Rightarrow> 'w client \<Rightarrow> ('w \<times> 'v list) client" where
  "logged_client f cl = \<lparr>cl_ask = (\<lambda>timeout req. noted (f req) (cl_ask cl timeout req)),
     cl_ensure = (\<lambda>timeout. beside (cl_ensure cl timeout))\<rparr>"

text \<open>What a computation can add to a log.\<close>

definition adds :: "('v list \<Rightarrow> bool) \<Rightarrow> ('e, 'w \<times> 'v list, 'a) io \<Rightarrow> bool" where
  "adds P m = (\<forall>w l r w' l'. m (w, l) = Some (r, w', l') \<longrightarrow> (\<exists>us. l' = l @ us \<and> P us))"

lemma addsD:
  assumes "adds P m" "m (w, l) = Some (r, w', l')"
  obtains us where "l' = l @ us" "P us"
  using assms unfolding adds_def by blast

lemma adds_mono: "adds P m \<Longrightarrow> (\<And>us. P us \<Longrightarrow> Q us) \<Longrightarrow> adds Q m"
  unfolding adds_def by blast

lemma adds_beside: "P [] \<Longrightarrow> adds P (beside m)"
  by (auto simp: adds_def beside_def)

lemma adds_noted: "P [ev] \<Longrightarrow> adds P (noted ev m)"
  by (auto simp: adds_def noted_def)

lemma adds_ret: "P [] \<Longrightarrow> adds P (ret x)" and adds_fail: "P [] \<Longrightarrow> adds P (fail e)"
  and adds_gets: "P [] \<Longrightarrow> adds P (gets f)"
  by (auto simp: adds_def io_simps)

lemma adds_attempt: "adds P m \<Longrightarrow> adds P (attempt m)"
  by (auto simp: adds_def attempt_def)

lemma adds_bindE:
  assumes "adds P m" "\<And>x. adds Q (f x)" "\<And>us. P us \<Longrightarrow> R us" "\<And>us vs. P us \<Longrightarrow> Q vs \<Longrightarrow> R (us @ vs)"
  shows "adds R (bindE m f)"
  unfolding adds_def
proof (intro allI impI)
  fix w l r w' l'
  assume run: "bindE m f (w, l) = Some (r, w', l')"
  then consider e where "m (w, l) = Some (Inl e, w', l')"
    | x w1 l1 where "m (w, l) = Some (Inr x, w1, l1)" "f x (w1, l1) = Some (r, w', l')"
    by (auto simp: bindE_io)
  then show "\<exists>us. l' = l @ us \<and> R us"
  proof cases
    case 1
    from addsD [OF assms(1) 1] assms(3) show ?thesis by blast
  next
    case 2
    from addsD [OF assms(1) 2(1)] obtain us where us: "l1 = l @ us" "P us" .
    from addsD [OF assms(2) 2(2)] obtain vs where "l' = l1 @ vs" "Q vs" .
    then show ?thesis using us assms(4) by auto
  qed
qed

lemma adds_if: "(c \<Longrightarrow> adds P m) \<Longrightarrow> (\<not> c \<Longrightarrow> adds P n) \<Longrightarrow> adds P (if c then m else n)"
  by simp

text \<open>Events one by one.\<close>

abbreviation adds_only :: "('v \<Rightarrow> bool) \<Rightarrow> ('e, 'w \<times> 'v list, 'a) io \<Rightarrow> bool" where
  "adds_only P \<equiv> adds (list_all P)"

lemma adds_only_bindE:
  assumes "adds_only P m" "\<And>x. adds_only P (f x)"
  shows "adds_only P (bindE m f)"
  by (rule adds_bindE [OF assms]) auto

lemma adds_only_ask: "P (f req) \<Longrightarrow> adds_only P (cl_ask (logged_client f cl) timeout req)"
  by (simp add: logged_client_def adds_noted)

lemma adds_only_ensure: "adds_only P (cl_ensure (logged_client f cl) timeout)"
  by (simp add: logged_client_def adds_beside)

lemmas adds_only_intros = adds_only_bindE adds_only_ask adds_only_ensure adds_attempt adds_ret adds_fail adds_gets
  adds_beside

text \<open>At most one event, and one that is allowed.\<close>

definition adds_one :: "('v \<Rightarrow> bool) \<Rightarrow> ('e, 'w \<times> 'v list, 'a) io \<Rightarrow> bool" where
  "adds_one P = adds (\<lambda>us. us = [] \<or> (\<exists>q. us = [q] \<and> P q))"

abbreviation adds_none :: "('e, 'w \<times> 'v list, 'a) io \<Rightarrow> bool" where
  "adds_none \<equiv> adds_only (\<lambda>_. False)"

lemma list_all_False [simp]: "list_all (\<lambda>_. False) us \<longleftrightarrow> us = []"
  by (cases us) auto

lemma adds_one_none: "adds_none m \<Longrightarrow> adds_one P m"
  unfolding adds_one_def by (erule adds_mono) simp

lemma adds_one_mono: "adds_one P m \<Longrightarrow> (\<And>q. P q \<Longrightarrow> Q q) \<Longrightarrow> adds_one Q m"
  unfolding adds_one_def by (erule adds_mono) auto

lemma adds_one_ret: "adds_one P (ret x)"
  by (rule adds_one_none) (simp add: adds_ret)

lemma adds_one_before: "adds_none m \<Longrightarrow> (\<And>x. adds_one P (f x)) \<Longrightarrow> adds_one P (bindE m f)"
  unfolding adds_one_def by (erule adds_bindE, assumption) auto

lemma adds_one_after: "adds_one P m \<Longrightarrow> (\<And>x. adds_none (f x)) \<Longrightarrow> adds_one P (bindE m f)"
  unfolding adds_one_def by (erule adds_bindE, assumption) auto

lemma adds_one_attempt: "adds_one P m \<Longrightarrow> adds_one P (attempt m)"
  unfolding adds_one_def by (rule adds_attempt)

text \<open>A computation that is chosen by the state.\<close>

lemma adds_at: "(\<And>w. adds P (m w)) \<Longrightarrow> adds P (\<lambda>w. m w w)"
  unfolding adds_def by blast

text \<open>Decimal text of an integer.\<close>

definition dec_int :: "int \<Rightarrow> string" where
  "dec_int i = (if i < 0 then ''-'' @ dec (nat (- i)) else dec (nat i))"

end
