(* ===== verification/Daemon_Run.thy ===== *)
theory Daemon_Run
  imports Daemon_Laws Gateway_Http Client
begin

text \<open>
  The life of the daemon's process, \<open>run\<close> of \<open>src/janus/src/bin/janus_daemon.rs\<close>: the lock, the socket,
  the tasks that it starts, the loop that accepts connections, and the end. What the started tasks do
  is the subject of the theories above; here they are recorded. The listener, the signals and the
  runtime are parameters; logging is left out.

  \<open>daemon_run_order\<close> says that the socket is only touched by the holder of the lock, and what a daemon
  leaves behind.
\<close>

section \<open>Configuration\<close>

datatype 'o pg_options = From_url 'o | On_socket string string string string

text \<open>Socket directory, user, password, database; \<open>from_url\<close> is the parser of \<open>sqlx\<close>.\<close>

definition pg_connect_options :: "env \<Rightarrow> (string \<Rightarrow> 'o option) \<Rightarrow> 'o pg_options" where
  "pg_connect_options env from_url =
     (case Option.bind (env ''DATABASE_URL'') from_url of
        Some opts \<Rightarrow> From_url opts
      | None \<Rightarrow> On_socket
          (case env ''METAMACH_PG_SOCKET_DIR'' of Some d \<Rightarrow> d | None \<Rightarrow> pg_socket_dir env) ''metamach_admin''
          (case env ''METAMACH_DB_PASSWORD'' of Some p \<Rightarrow> p | None \<Rightarrow> ''metamach_dev'') ''metamach_db'')"

definition DEFAULT_LISTEN_PORT :: nat where
  "DEFAULT_LISTEN_PORT = 8443"

definition gateway_secret :: "env \<Rightarrow> string option" where
  "gateway_secret env = nonempty_var env ''JANUS_TEAMS_HMAC_SECRET''"

definition gateway_port :: "env \<Rightarrow> nat" where
  "gateway_port env =
     (case Option.bind (env ''JANUS_GATEWAY_LISTEN_PORT'') parse_nat of
        Some n \<Rightarrow> if n < 2 ^ 16 then n else DEFAULT_LISTEN_PORT | None \<Rightarrow> DEFAULT_LISTEN_PORT)"

text \<open>The channels of the gateway, in the order in which a card is sent.\<close>

datatype channel = Logging_sender string | Telegram_sender | Teams_sender

definition gateway_channels :: "env \<Rightarrow> channel list" where
  "gateway_channels env =
     [Logging_sender (path_join (state_dir env) ''webhook_cards.log''), Telegram_sender, Teams_sender]"

text \<open>The line that the logging sender appends to its file; \<open>debug\<close> is the quoting of \<open>{:?}\<close>.\<close>

definition card_line :: "(string \<Rightarrow> string) \<Rightarrow> webhook_payload \<Rightarrow> string" where
  "card_line debug p =
     ''['' @ wp_correlation_id p @ ''] cause='' @ wp_cause p @ '' cmd='' @ debug (wp_command p) @
     '' reason='' @ wp_reason p @ '' resume='' @ wp_resume_key p @ [newline]"

definition logging_send :: "(string \<Rightarrow> string) \<Rightarrow> (string \<Rightarrow> string \<Rightarrow> (string, 'w, unit) io) \<Rightarrow> string \<Rightarrow>
    webhook_payload \<Rightarrow> (string, 'w, unit) io" where
  "logging_send debug append_file spool p =
     bindE (attempt (append_file spool (card_line debug p))) (\<lambda>_. ret ())"

section \<open>The daily collection\<close>

text \<open>The entries of the directory of the raw logs that have metadata, each with its time of
  modification; times are in seconds.\<close>

fun prune_entries :: "(string \<Rightarrow> (string, 'w, unit) io) \<Rightarrow> int \<Rightarrow> (string \<times> int) list \<Rightarrow> (string, 'w, unit) io" where
  "prune_entries remove_file cutoff [] = ret ()"
| "prune_entries remove_file cutoff ((path, modified) # es) =
     bindE (if modified < cutoff then attempt (remove_file path) else ret (Inr ()))
       (\<lambda>_. prune_entries remove_file cutoff es)"

definition prune_raw_logs :: "(string \<Rightarrow> (string, 'w, (string \<times> int) list) io) \<Rightarrow> (string \<Rightarrow> (string, 'w, unit) io) \<Rightarrow>
    ('w \<Rightarrow> int) \<Rightarrow> nat \<Rightarrow> (string, 'w, unit) io" where
  "prune_raw_logs read_dir remove_file now retention_days =
     bindE (attempt (read_dir ''/tmp/metamach/logs'')) (\<lambda>r. case r of
         Inl _ \<Rightarrow> ret ()
       | Inr entries \<Rightarrow>
           bindE (gets now) (\<lambda>t. prune_entries remove_file (t - int retention_days * 86400) entries))"

text \<open>One round of the collection: the caches of the database, then the raw logs of a week ago.\<close>

definition daily_gc :: "(string, 'w, nat) io \<Rightarrow> (string, 'w, unit) io \<Rightarrow> (string, 'w, unit) io" where
  "daily_gc caches prune = bindE (attempt caches) (\<lambda>_. prune)"

section \<open>The run\<close>

datatype 'o startup_task =
    Connect_db "'o pg_options"
  | Cold_start
  | Daily_gc
  | Gateway_listener "channel list" "string option" nat

datatype 'c select_event = Accepted 'c | Accept_failed string | Interrupted | Terminated

record ('c, 'o, 'w) runtime =
  ru_env :: env
  ru_machine :: "'w machine"
  ru_host :: "'w host"
  ru_files :: "'w \<Rightarrow> fs"
  ru_remove_file :: "string \<Rightarrow> (string, 'w, unit) io"
  ru_bind :: "string \<Rightarrow> (string, 'w, unit) io"
  ru_open_db :: "string \<Rightarrow> (string, 'w, unit) io"
  ru_from_url :: "string \<Rightarrow> 'o option"
  ru_spawn :: "'o startup_task \<Rightarrow> 'w \<Rightarrow> 'w"
  ru_current_dir :: "string option"
  ru_load_rules :: "string list \<Rightarrow> 'w \<Rightarrow> 'w"
  ru_signal :: "(string, 'w, unit) io"
  ru_select :: "'w \<Rightarrow> 'c select_event \<times> 'w"
  ru_serve :: "'c \<Rightarrow> 'w \<Rightarrow> 'w"

definition cleanup :: "('c, 'o, 'w) runtime \<Rightarrow> string \<Rightarrow> string \<Rightarrow> (string, 'w, unit) io" where
  "cleanup ru sock pid =
     bindE (attempt (ru_remove_file ru sock)) (\<lambda>_. bindE (attempt (ru_remove_file ru pid)) (\<lambda>_. ret ()))"

text \<open>\<open>n\<close> bounds the rounds.\<close>

fun accept_loop :: "('c, 'o, 'w) runtime \<Rightarrow> nat \<Rightarrow> (string, 'w, unit) io" where
  "accept_loop ru 0 = (\<lambda>_. None)"
| "accept_loop ru (Suc n) =
     (\<lambda>w. case ru_select ru w of
        (Accepted c, w') \<Rightarrow> accept_loop ru n (ru_serve ru c w')
      | (Accept_failed e, w') \<Rightarrow> accept_loop ru n w'
      | (Interrupted, w') \<Rightarrow> ret () w'
      | (Terminated, w') \<Rightarrow> ret () w')"

text \<open>What is started between the lock and the loop.\<close>

definition start_up :: "('c, 'o, 'w) runtime \<Rightarrow> (string, 'w, unit) io" where
  "start_up ru =
     (let env = ru_env ru in
      bindE (ru_open_db ru (fallback_path env)) (\<lambda>_.
      bindE (modify (ru_spawn ru (Connect_db (pg_connect_options env (ru_from_url ru))))) (\<lambda>_.
      bindE (gets (\<lambda>w. repo_root env (ru_current_dir ru) (file_exists (ru_files ru w)))) (\<lambda>root.
      bindE (modify (ru_spawn ru Cold_start)) (\<lambda>_.
      bindE (modify (ru_spawn ru Daily_gc)) (\<lambda>_.
      bindE (gets (\<lambda>w. agents_toml_paths env root (file_exists (ru_files ru w)))) (\<lambda>rules.
      bindE (modify (ru_load_rules ru rules)) (\<lambda>_.
      bindE (modify (ru_spawn ru (Gateway_listener (gateway_channels env) (gateway_secret env) (gateway_port env)))) (\<lambda>_.
      ru_signal ru)))))))))"

definition daemon_run :: "('c, 'o, 'w) runtime \<Rightarrow> nat \<Rightarrow> (string, 'w, unit) io" where
  "daemon_run ru n =
     (let env = ru_env ru; sock = sock_path env; pid = pid_path env in
      bindE (with_context ''create state dir'' (m_create_dir_all (ru_machine ru) (state_dir env))) (\<lambda>_.
      bindE (acquire_pid_lock (ru_machine ru) (ru_host ru) (ru_files ru) pid) (\<lambda>_.
      bindE (attempt (ru_remove_file ru sock)) (\<lambda>_.
      bindE (with_context (''bind '' @ sock) (ru_bind ru sock)) (\<lambda>_.
      bindE (start_up ru) (\<lambda>_.
      bindE (accept_loop ru n) (\<lambda>_. cleanup ru sock pid)))))))"

section \<open>What a run leaves behind\<close>

datatype 'c run_event = Wrote string | Removed string | Bound string | Served 'c

definition beside_machine :: "(string \<Rightarrow> 'v) \<Rightarrow> 'w machine \<Rightarrow> ('w \<times> 'v list) machine" where
  "beside_machine wrote m =
     \<lparr>m_git = (\<lambda>d as. beside (m_git m d as)), m_exists = (\<lambda>p. m_exists m p \<circ> fst),
      m_remove_dir_all = (\<lambda>p. beside (m_remove_dir_all m p)), m_create_dir_all = (\<lambda>p. beside (m_create_dir_all m p)),
      m_write = (\<lambda>p t. noted (wrote p) (m_write m p t)), m_now = m_now m \<circ> fst, m_dev = m_dev m \<circ> fst\<rparr>"

definition beside_host :: "'w host \<Rightarrow> ('w \<times> 'l) host" where
  "beside_host h =
     \<lparr>ho_outside = (let ou = ho_outside h in \<lparr>ou_run = (\<lambda>p as. beside (ou_run ou p as)),
        ou_post = (\<lambda>u hs t b. beside (ou_post ou u hs t b)), ou_pretty = ou_pretty ou,
        ou_offboard_toml = ou_offboard_toml ou, ou_show_error = ou_show_error ou\<rparr>),
      ho_read_dir = ho_read_dir h, ho_tempdir = beside (ho_tempdir h),
      ho_remove_tempdir = (\<lambda>d. apfst (ho_remove_tempdir h d)), ho_kill0 = (\<lambda>p. ho_kill0 h p \<circ> fst), ho_pid = ho_pid h,
      ho_show_dag = ho_show_dag h, ho_read_error = ho_read_error h\<rparr>"

definition logged_runtime :: "('c, 'o, 'w) runtime \<Rightarrow> ('c, 'o, 'w \<times> 'c run_event list) runtime" where
  "logged_runtime ru =
     \<lparr>ru_env = ru_env ru, ru_machine = beside_machine Wrote (ru_machine ru), ru_host = beside_host (ru_host ru),
      ru_files = ru_files ru \<circ> fst, ru_remove_file = (\<lambda>p. noted (Removed p) (ru_remove_file ru p)),
      ru_bind = (\<lambda>p. noted (Bound p) (ru_bind ru p)), ru_open_db = (\<lambda>p. beside (ru_open_db ru p)),
      ru_from_url = ru_from_url ru, ru_spawn = (\<lambda>t. apfst (ru_spawn ru t)), ru_current_dir = ru_current_dir ru,
      ru_load_rules = (\<lambda>ps. apfst (ru_load_rules ru ps)), ru_signal = beside (ru_signal ru),
      ru_select = (\<lambda>(w, l). case ru_select ru w of (ev, w') \<Rightarrow> (ev, w', l)),
      ru_serve = (\<lambda>c (w, l). (ru_serve ru c w, l @ [Served c]))\<rparr>"

text \<open>What a computation adds, by its result.\<close>

definition logs :: "('e + 'a \<Rightarrow> 'v list \<Rightarrow> bool) \<Rightarrow> ('e, 'w \<times> 'v list, 'a) io \<Rightarrow> bool" where
  "logs P m = (\<forall>w l r w' l'. m (w, l) = Some (r, w', l') \<longrightarrow> (\<exists>us. l' = l @ us \<and> P r us))"

lemma logs_bindE:
  assumes "logs P m" "\<And>x. logs (Q x) (f x)" "\<And>e us. P (Inl e) us \<Longrightarrow> R (Inl e) us"
    "\<And>x us r vs. P (Inr x) us \<Longrightarrow> Q x r vs \<Longrightarrow> R r (us @ vs)"
  shows "logs R (bindE m f)"
  unfolding logs_def
proof (intro allI impI)
  fix w l r w' l'
  assume "bindE m f (w, l) = Some (r, w', l')"
  then consider e where "m (w, l) = Some (Inl e, w', l')" "r = Inl e"
    | x w1 l1 where "m (w, l) = Some (Inr x, w1, l1)" "f x (w1, l1) = Some (r, w', l')"
    by (auto simp: bindE_io)
  then show "\<exists>us. l' = l @ us \<and> R r us"
  proof cases
    case 1
    then show ?thesis using assms(1,3) unfolding logs_def by blast
  next
    case 2
    from assms(1) 2(1) obtain us where us: "l1 = l @ us" "P (Inr x) us" unfolding logs_def by blast
    from assms(2) [of x] 2(2) obtain vs where "l' = l1 @ vs" "Q x r vs" unfolding logs_def by blast
    then show ?thesis using us assms(4) by auto
  qed
qed

lemma logs_adds: "adds P m \<Longrightarrow> logs (\<lambda>r. P) m"
  by (simp add: logs_def adds_def)

lemma logs_mono: "logs P m \<Longrightarrow> (\<And>r us. P r us \<Longrightarrow> Q r us) \<Longrightarrow> logs Q m"
  unfolding logs_def by blast

lemma runtime_quiet:
  "adds_none (m_create_dir_all (ru_machine (logged_runtime ru)) d)" "adds_none (ru_open_db (logged_runtime ru) p)"
  "adds_none (ru_signal (logged_runtime ru))" "adds_none (modify (ru_spawn (logged_runtime ru) t))"
  "adds_none (modify (ru_load_rules (logged_runtime ru) ps))"
  by (auto simp: logged_runtime_def beside_machine_def adds_beside) (auto simp: adds_def modify_def)

lemma runtime_noted:
  "adds (\<lambda>us. us = [Removed p]) (ru_remove_file (logged_runtime ru) p)"
  "adds (\<lambda>us. us = [Bound p]) (ru_bind (logged_runtime ru) p)"
  by (simp_all add: logged_runtime_def adds_noted)

lemma lock_logs:
  "logs (\<lambda>r us. case r of Inl _ \<Rightarrow> us = [] \<or> us = [Wrote pid] | Inr _ \<Rightarrow> us = [Wrote pid])
    (acquire_pid_lock (ru_machine (logged_runtime ru)) h fs pid)"
  by (auto simp: logs_def acquire_pid_lock_def logged_runtime_def beside_machine_def noted_def fail_def
      split: option.splits if_splits sum.splits)

lemma accept_loop_logs:
  "logs (\<lambda>r us. r = Inr () \<and> (\<exists>cs. us = map Served cs)) (accept_loop (logged_runtime ru) n)"
proof (induction n)
  case 0
  then show ?case by (simp add: logs_def)
next
  case (Suc n)
  show ?case unfolding logs_def
  proof (intro allI impI)
    fix w l r w' l'
    assume run: "accept_loop (logged_runtime ru) (Suc n) (w, l) = Some (r, w', l')"
    obtain ev w1 where sel: "ru_select ru w = (ev, w1)" by (cases "ru_select ru w")
    show "\<exists>us. l' = l @ us \<and> r = Inr () \<and> (\<exists>cs. us = map Served cs)"
    proof (cases ev)
      case (Accepted c)
      with run sel have "accept_loop (logged_runtime ru) n (ru_serve ru c w1, l @ [Served c]) = Some (r, w', l')"
        by (simp add: logged_runtime_def)
      with Suc.IH obtain cs where "l' = (l @ [Served c]) @ map Served cs" "r = Inr ()" unfolding logs_def by blast
      then show ?thesis by (intro exI [of _ "Served c # map Served cs"]) (auto intro: exI [of _ "c # cs"])
    next
      case (Accept_failed e)
      with run sel have "accept_loop (logged_runtime ru) n (w1, l) = Some (r, w', l')" by (simp add: logged_runtime_def)
      with Suc.IH show ?thesis unfolding logs_def by blast
    qed (use run sel in \<open>auto simp: logged_runtime_def ret_def\<close>)
  qed
qed

lemma start_up_quiet: "adds_none (start_up (logged_runtime ru))"
  unfolding start_up_def Let_def by (intro adds_only_bindE runtime_quiet adds_gets) simp_all

lemma context_logs: "logs P m \<Longrightarrow> (\<And>e us. P (Inl e) us \<Longrightarrow> P (Inl c) us) \<Longrightarrow> logs P (with_context c m)"
  unfolding logs_def with_context_io by blast

lemma cleanup_logs: "logs (\<lambda>r us. r = Inr () \<and> us = [Removed sock, Removed pid]) (cleanup (logged_runtime ru) sock pid)"
proof -
  have removed: "logs (\<lambda>r us. (\<exists>x. r = Inr x) \<and> us = [Removed p]) (attempt (ru_remove_file (logged_runtime ru) p))" for p
    using runtime_noted(1) [of p ru] by (auto simp: logs_def adds_def attempt_io)
  have last: "logs (\<lambda>r us. r = Inr () \<and> us = [Removed pid])
      (bindE (attempt (ru_remove_file (logged_runtime ru) pid)) (\<lambda>_. ret ()))"
    by (rule logs_bindE [OF removed, where Q = "\<lambda>_ r us. r = Inr () \<and> us = []"]) (auto simp: logs_def ret_io)
  show ?thesis unfolding cleanup_def
    by (rule logs_bindE [OF removed, where Q = "\<lambda>_ r us. r = Inr () \<and> us = [Removed pid]"]) (auto intro: last)
qed

text \<open>C13: A daemon binds its socket, and removes the one that it finds, only after it wrote the lock. If it
  fails, the lock stays; a run that ends by a signal has served connections after the socket was bound,
  and at the end removed the socket and then the lock.\<close>

theorem daemon_run_order:
  "logs (\<lambda>r us. let lock = Wrote (pid_path (ru_env ru)); sock = sock_path (ru_env ru) in case r of
        Inl e \<Rightarrow> prefix us [lock, Removed sock, Bound sock]
      | Inr _ \<Rightarrow> \<exists>cs. us = [lock, Removed sock, Bound sock] @ map Served cs @ [Removed sock, Removed (pid_path (ru_env ru))])
    (daemon_run (logged_runtime ru) n)"
proof -
  let ?ru = "logged_runtime ru" and ?sock = "sock_path (ru_env ru)" and ?pid = "pid_path (ru_env ru)"
  have env: "ru_env ?ru = ru_env ru" by (simp add: logged_runtime_def)
  have loop: "logs (\<lambda>r us. r = Inr () \<and> (\<exists>cs. us = map Served cs @ [Removed ?sock, Removed ?pid]))
      (bindE (accept_loop ?ru n) (\<lambda>_. cleanup ?ru ?sock ?pid))"
    by (rule logs_bindE [OF accept_loop_logs, where Q = "\<lambda>_ r us. r = Inr () \<and> us = [Removed ?sock, Removed ?pid]"])
       (auto intro: cleanup_logs)
  have start: "logs (\<lambda>r us. case r of Inl e \<Rightarrow> us = [] | Inr _ \<Rightarrow> \<exists>cs. us = map Served cs @ [Removed ?sock, Removed ?pid])
      (bindE (start_up ?ru) (\<lambda>_. bindE (accept_loop ?ru n) (\<lambda>_. cleanup ?ru ?sock ?pid)))"
    by (rule logs_bindE [OF logs_adds [OF start_up_quiet] loop]) (auto split: sum.splits)
  have bind: "logs (\<lambda>r us. us = [Bound ?sock]) (with_context c (ru_bind ?ru ?sock))" for c
    by (rule context_logs [OF logs_adds [OF runtime_noted(2)]])
  have bound: "logs (\<lambda>r us. case r of Inl e \<Rightarrow> us = [Bound ?sock]
      | Inr _ \<Rightarrow> \<exists>cs. us = Bound ?sock # map Served cs @ [Removed ?sock, Removed ?pid])
      (bindE (with_context c (ru_bind ?ru ?sock)) (\<lambda>_. bindE (start_up ?ru) (\<lambda>_. bindE (accept_loop ?ru n)
        (\<lambda>_. cleanup ?ru ?sock ?pid))))" for c
    by (rule logs_bindE [OF bind start]) (auto split: sum.splits)
  have removed: "logs (\<lambda>r us. us = [Removed ?sock]) (attempt (ru_remove_file ?ru ?sock))"
    by (rule logs_adds [OF adds_attempt [OF runtime_noted(1)]])
  have socket: "logs (\<lambda>r us. case r of Inl e \<Rightarrow> us = [Removed ?sock] \<or> us = [Removed ?sock, Bound ?sock]
      | Inr _ \<Rightarrow> \<exists>cs. us = [Removed ?sock, Bound ?sock] @ map Served cs @ [Removed ?sock, Removed ?pid])
      (bindE (attempt (ru_remove_file ?ru ?sock)) (\<lambda>_. bindE (with_context c (ru_bind ?ru ?sock)) (\<lambda>_.
        bindE (start_up ?ru) (\<lambda>_. bindE (accept_loop ?ru n) (\<lambda>_. cleanup ?ru ?sock ?pid)))))" for c
    by (rule logs_bindE [OF removed bound]) (auto split: sum.splits)
  have locked: "logs (\<lambda>r us. case r of Inl e \<Rightarrow> prefix us [Wrote ?pid, Removed ?sock, Bound ?sock]
      | Inr _ \<Rightarrow> \<exists>cs. us = [Wrote ?pid, Removed ?sock, Bound ?sock] @ map Served cs @ [Removed ?sock, Removed ?pid])
      (bindE (acquire_pid_lock (ru_machine ?ru) (ru_host ?ru) (ru_files ?ru) ?pid) (\<lambda>_.
        bindE (attempt (ru_remove_file ?ru ?sock)) (\<lambda>_. bindE (with_context c (ru_bind ?ru ?sock)) (\<lambda>_.
        bindE (start_up ?ru) (\<lambda>_. bindE (accept_loop ?ru n) (\<lambda>_. cleanup ?ru ?sock ?pid))))))" for c
    by (rule logs_bindE [OF lock_logs socket]) (auto simp: prefix_Cons split: sum.splits)
  have "adds_none (with_context c (m_create_dir_all (ru_machine ?ru) d))" for c d
    using runtime_quiet(1) [of ru d] by (auto simp: adds_def with_context_def)
  then show ?thesis unfolding daemon_run_def Let_def env
    by (rule logs_bindE [OF logs_adds locked]) (auto split: sum.splits)
qed

end
