(* ===== verification/Terminal_Ui.thy ===== *)
theory Terminal_Ui
  imports Client
begin

text \<open>
  The terminal interface, \<open>src/janus/src/bin/herdr_janus.rs\<close>: its state, the operations of its keys,
  what it draws, and the loop that draws, waits for a key and acts. The terminal and the clock are
  arguments; a screen is given as the constraints of its layout and the widget of each chunk.

  \<open>gate_action_shown\<close> says that a verdict is only sent for the task that is marked on the screen
  that was drawn last.
\<close>

section \<open>The state\<close>

datatype view = Dispatch_view | Progress_view

record app =
  tu_view :: view
  tu_selected :: nat
  tu_blueprints :: "blueprint_info list"
  tu_tasks :: "active_task list"
  tu_daemon_online :: bool
  tu_last_error :: "string option"
  tu_last_progress :: nat
  tu_show_log :: bool
  tu_log_text :: "string option"

definition app_new :: "nat \<Rightarrow> app" where
  "app_new now = \<lparr>tu_view = Dispatch_view, tu_selected = 0, tu_blueprints = [], tu_tasks = [],
     tu_daemon_online = False, tu_last_error = None, tu_last_progress = now, tu_show_log = False,
     tu_log_text = None\<rparr>"

definition list_len :: "app \<Rightarrow> nat" where
  "list_len a = (case tu_view a of Dispatch_view \<Rightarrow> length (tu_blueprints a) | Progress_view \<Rightarrow> length (tu_tasks a))"

definition down :: "app \<Rightarrow> app" where
  "down a = (if list_len a = 0 then a else a\<lparr>tu_selected := (tu_selected a + 1) mod list_len a\<rparr>)"

definition up :: "app \<Rightarrow> app" where
  "up a =
     (if list_len a = 0 then a
      else a\<lparr>tu_selected := if tu_selected a = 0 then list_len a - 1 else tu_selected a - 1\<rparr>)"

definition flip_view :: "app \<Rightarrow> app" where
  "flip_view a = a\<lparr>tu_view := (case tu_view a of Dispatch_view \<Rightarrow> Progress_view | Progress_view \<Rightarrow> Dispatch_view),
     tu_selected := 0\<rparr>"

section \<open>Requests\<close>

definition refresh_blueprints :: "'w client \<Rightarrow> app \<Rightarrow> (string, 'w, app) io" where
  "refresh_blueprints cl a =
     bindE (attempt (ask cl Blueprints)) (\<lambda>r. ret (case r of
         Inr (RBlueprints bs) \<Rightarrow> a\<lparr>tu_blueprints := bs, tu_daemon_online := True, tu_last_error := None\<rparr>
       | Inr _ \<Rightarrow> a\<lparr>tu_daemon_online := True\<rparr>
       | Inl e \<Rightarrow> a\<lparr>tu_daemon_online := False, tu_last_error := Some e\<rparr>))"

text \<open>Times are in milliseconds.\<close>

definition poll_progress :: "'w client \<Rightarrow> ('w \<Rightarrow> nat) \<Rightarrow> app \<Rightarrow> (string, 'w, app) io" where
  "poll_progress cl clock a =
     bindE (attempt (cl_ask cl 1000 (Progress None))) (\<lambda>r.
     bindE (gets clock) (\<lambda>now. ret
       ((case r of
           Inr (RProgress tasks) \<Rightarrow> a\<lparr>tu_tasks := tasks, tu_daemon_online := True, tu_last_error := None\<rparr>
         | Inr _ \<Rightarrow> a
         | Inl e \<Rightarrow> a\<lparr>tu_daemon_online := False, tu_last_error := Some e\<rparr>)\<lparr>tu_last_progress := now\<rparr>)))"

definition toggle_view :: "'w client \<Rightarrow> ('w \<Rightarrow> nat) \<Rightarrow> app \<Rightarrow> (string, 'w, app) io" where
  "toggle_view cl clock a =
     (let a' = flip_view a in
      case tu_view a' of Progress_view \<Rightarrow> poll_progress cl clock a' | Dispatch_view \<Rightarrow> refresh_blueprints cl a')"

definition retry_daemon :: "'w client \<Rightarrow> app \<Rightarrow> (string, 'w, app) io" where
  "retry_daemon cl a =
     bindE (attempt (cl_ensure cl 5000)) (\<lambda>r. case r of
         Inr _ \<Rightarrow> refresh_blueprints cl a
       | Inl _ \<Rightarrow> ret (a\<lparr>tu_daemon_online := False, tu_last_error := Some ''daemon not reachable''\<rparr>))"

definition selected_task :: "app \<Rightarrow> active_task option" where
  "selected_task a = (if tu_selected a < length (tu_tasks a) then Some (tu_tasks a ! tu_selected a) else None)"

definition send_gate_action :: "'w client \<Rightarrow> bool \<Rightarrow> app \<Rightarrow> (string, 'w, app) io" where
  "send_gate_action cl approve a =
     (case selected_task a of
        Some t \<Rightarrow>
          if at_status t = ''SUSPENDED'' then
            bindE (attempt (cl_ask cl 5000 (GateAction (at_task_id t) approve))) (\<lambda>r.
              ret (a\<lparr>tu_last_error := (case r of
                  Inr (ROk message) \<Rightarrow> None
                | Inr (RError message) \<Rightarrow> Some message
                | Inr _ \<Rightarrow> Some ''unexpected response''
                | Inl e \<Rightarrow> Some e)\<rparr>))
          else ret (a\<lparr>tu_last_error := Some ''selected task is not SUSPENDED''\<rparr>)
      | None \<Rightarrow> ret (a\<lparr>tu_last_error := Some ''selected task is not SUSPENDED''\<rparr>))"

definition step_log :: "active_task \<Rightarrow> string option" where
  "step_log t =
     Option.bind (List.find (\<lambda>s. Some (ss_name s) = at_current_step t) (at_steps t)) ss_stdout_tail"

definition toggle_log :: "app \<Rightarrow> app" where
  "toggle_log a =
     (if tu_show_log a then a\<lparr>tu_show_log := False, tu_log_text := None\<rparr>
      else a\<lparr>tu_show_log := True, tu_log_text := Some
        (case Option.bind (selected_task a) step_log of Some s \<Rightarrow> s | None \<Rightarrow> ''(no output)'')\<rparr>)"

section \<open>The screen\<close>

datatype color = Cyan | Yellow | Dark_gray | Red | Green | White

record style =
  sy_fg :: "color option"
  sy_bg :: "color option"
  sy_bold :: bool

definition plain :: style where "plain = \<lparr>sy_fg = None, sy_bg = None, sy_bold = False\<rparr>"
definition fg :: "color \<Rightarrow> style" where "fg c = plain\<lparr>sy_fg := Some c\<rparr>"
definition bold_fg :: "color \<Rightarrow> style" where "bold_fg c = (fg c)\<lparr>sy_bold := True\<rparr>"
definition marked :: style where "marked = plain\<lparr>sy_bg := Some Dark_gray, sy_bold := True\<rparr>"

text \<open>A paragraph has spans, a style of its own, whether it is centered, and the title of its
  block; a table its rows, the percentages of its columns and its header.\<close>

datatype widget =
    Paragraph "(string \<times> style) list" style bool "string option"
  | Table "(string list \<times> style) list" "nat list" "string list \<times> style" "string option"

datatype extent = Length nat | Min nat

type_synonym screen = "extent list \<times> (nat \<times> widget) list"

definition middle_dot :: string where "middle_dot = [CHR 0xC2, CHR 0xB7]"
definition em_dash :: string where "em_dash = [CHR 0xE2, CHR 0x80, CHR 0x94]"
definition up_down :: string where
  "up_down = [CHR 0xE2, CHR 0x86, CHR 0x91] @ ''/'' @ [CHR 0xE2, CHR 0x86, CHR 0x93]"

definition render_title :: "app \<Rightarrow> widget" where
  "render_title a = Paragraph
     [(''MetaMach 1.0 '' @ middle_dot @ '' '' @ (case tu_view a of Dispatch_view \<Rightarrow> ''Dispatch'' | Progress_view \<Rightarrow> ''Progress''), plain)]
     (bold_fg Cyan) True None"

definition dispatch_title :: string where
  "dispatch_title = ''Dispatch ('' @ up_down @ '' select '' @ middle_dot @ '' Tab progress '' @ middle_dot @ '' r retry)''"

definition render_dispatch :: "app \<Rightarrow> widget" where
  "render_dispatch a =
     (if tu_blueprints a = [] then Paragraph
        [(if tu_daemon_online a then ''No ACTIVE blueprints. Run '' @ [CHR 0x27] @ ''janus init'' @ [CHR 0x27] @ '' in a blueprint directory.''
          else ''Daemon offline '' @ em_dash @ '' press r to retry / ensure `janus daemon` is running'', plain)]
        (fg Yellow) False (Some dispatch_title)
      else Table
        (map (\<lambda>(i, b). ([bi_name b, bi_default_workflow b,
            (case bi_remote_host b of Some h \<Rightarrow> h | None \<Rightarrow> ''local''), bi_status b],
            if i = tu_selected a then marked else plain)) (enumerate 0 (tu_blueprints a)))
        [30, 35, 15, 20] ([''Blueprint'', ''Workflow'', ''Host'', ''Status''], bold_fg Yellow) (Some dispatch_title))"

definition progress_title :: string where
  "progress_title = ''Progress (Tab dispatch '' @ middle_dot @ '' 1s poll)''"

definition task_row :: "app \<Rightarrow> nat \<times> active_task \<Rightarrow> string list \<times> style" where
  "task_row a = (\<lambda>(i, t).
     ([at_blueprint_id t, at_workflow_name t, (case at_current_step t of Some s \<Rightarrow> s | None \<Rightarrow> ''-''), at_status t,
       (case at_elapsed_seconds t of Some s \<Rightarrow> dec_int s @ ''s'' | None \<Rightarrow> ''?'')],
      if i = tu_selected a then marked else if at_status t = ''SUSPENDED'' then fg Red else plain))"

definition render_progress :: "app \<Rightarrow> widget" where
  "render_progress a =
     (if tu_tasks a = [] then Paragraph
        [(if tu_daemon_online a then ''No in-flight tasks.'' else ''Daemon offline '' @ em_dash @ '' press r to retry'', plain)]
        (fg Yellow) False (Some progress_title)
      else Table (map (task_row a) (enumerate 0 (tu_tasks a))) [25, 25, 20, 15, 15]
        ([''Blueprint'', ''Workflow'', ''Step'', ''Status'', ''Elapsed''], bold_fg Yellow) (Some progress_title))"

definition render_log_detail :: "app \<Rightarrow> widget" where
  "render_log_detail a = Paragraph
     [(case tu_log_text a of Some s \<Rightarrow> s | None \<Rightarrow> ''(no output)'', plain)] (fg White) False
     (Some (''Log: '' @ (case selected_task a of
         Some t \<Rightarrow> at_blueprint_id t @ '' / '' @ (case at_current_step t of Some s \<Rightarrow> s | None \<Rightarrow> ''?'')
       | None \<Rightarrow> ''?'') @ '' (Enter to close)''))"

definition render_footer :: "app \<Rightarrow> widget" where
  "render_footer a = Paragraph
     [(''Daemon '', plain), (if tu_daemon_online a then (''online'', fg Green) else (''offline'', fg Red)),
      (case tu_last_error a of Some e \<Rightarrow> '' '' @ em_dash @ '' '' @ e | None \<Rightarrow> [], plain), (''   '', plain),
      (''Tab'', bold_fg Green), ('' view   '', plain), (''Enter'', bold_fg Cyan), ('' log   '', plain),
      (''y/n'', bold_fg Yellow), ('' approve/reject   '', plain), (''Esc'', bold_fg Green), ('' close   '', plain),
      (''r'', bold_fg Green), ('' retry'', plain)]
     plain False None"

definition ui :: "app \<Rightarrow> screen" where
  "ui a =
     (let log_shown = tu_show_log a \<and> tu_view a = Progress_view in
      (if log_shown then [Length 3, Min 5, Length 10, Length 3] else [Length 3, Min 5, Length 3],
       [(0, render_title a),
        (1, case tu_view a of Dispatch_view \<Rightarrow> render_dispatch a | Progress_view \<Rightarrow> render_progress a)] @
       (if log_shown then [(2, render_log_detail a)] else []) @
       [(if log_shown then 3 else 2, render_footer a)]))"

section \<open>The loop\<close>

datatype key_code = Esc | Tab | Enter | Down_key | Up_key | KChar char | Other_key

text \<open>A key event and whether it is a press; events of the mouse and of the window are the others.\<close>

datatype term_event = Key key_code bool | Other_event

record 'w terminal =
  tr_setup :: "(string, 'w, unit) io"
  tr_restore :: "'w \<Rightarrow> 'w"
  tr_draw :: "screen \<Rightarrow> (string, 'w, unit) io"
  tr_poll :: "nat \<Rightarrow> (string, 'w, bool) io"
  tr_read :: "(string, 'w, term_event) io"
  tr_now :: "'w \<Rightarrow> nat"

text \<open>What a key does; \<open>None\<close> ends the loop.\<close>

definition key_pressed :: "'w terminal \<Rightarrow> 'w client \<Rightarrow> key_code \<Rightarrow> app \<Rightarrow> (string, 'w, app option) io" where
  "key_pressed tm cl k a =
     (if k = Esc \<or> k = KChar (CHR ''q'') then ret None
      else bindE
        (if k = Tab then toggle_view cl (tr_now tm) a
         else if k = Down_key \<or> k = KChar (CHR ''j'') then ret (down a)
         else if k = Up_key \<or> k = KChar (CHR ''k'') then ret (up a)
         else if k = KChar (CHR ''r'') then retry_daemon cl a
         else if k = KChar (CHR ''y'') \<and> tu_view a = Progress_view then send_gate_action cl True a
         else if k = KChar (CHR ''n'') \<and> tu_view a = Progress_view then send_gate_action cl False a
         else if k = Enter \<and> tu_view a = Progress_view then ret (toggle_log a)
         else ret a) (\<lambda>a'. ret (Some a')))"

definition idle :: "'w terminal \<Rightarrow> 'w client \<Rightarrow> app \<Rightarrow> (string, 'w, app) io" where
  "idle tm cl a =
     bindE (gets (tr_now tm)) (\<lambda>now.
       if tu_view a = Progress_view \<and> 1000 \<le> now - tu_last_progress a then poll_progress cl (tr_now tm) a
       else ret a)"

definition tui_round :: "'w terminal \<Rightarrow> 'w client \<Rightarrow> app \<Rightarrow> (string, 'w, app option) io" where
  "tui_round tm cl a =
     bindE (tr_draw tm (ui a)) (\<lambda>_.
     bindE (tr_poll tm 200) (\<lambda>ready.
       if \<not> ready then bindE (idle tm cl a) (\<lambda>a'. ret (Some a'))
       else bindE (tr_read tm) (\<lambda>ev. case ev of
           Key k True \<Rightarrow> key_pressed tm cl k a
         | _ \<Rightarrow> ret (Some a))))"

text \<open>\<open>n\<close> bounds the rounds.\<close>

fun run_loop :: "'w terminal \<Rightarrow> 'w client \<Rightarrow> nat \<Rightarrow> app \<Rightarrow> (string, 'w, unit) io" where
  "run_loop tm cl 0 a = (\<lambda>_. None)"
| "run_loop tm cl (Suc n) a =
     bindE (tui_round tm cl a) (\<lambda>next. case next of None \<Rightarrow> ret () | Some a' \<Rightarrow> run_loop tm cl n a')"

definition tui_main :: "'w terminal \<Rightarrow> 'w client \<Rightarrow> nat \<Rightarrow> (string, 'w, unit) io" where
  "tui_main tm cl n =
     bindE (gets (tr_now tm)) (\<lambda>now.
     bindE (attempt (cl_ensure cl 5000)) (\<lambda>r.
     bindE (case r of
         Inr _ \<Rightarrow> refresh_blueprints cl (app_new now)
       | Inl _ \<Rightarrow> ret ((app_new now)\<lparr>tu_last_error := Some ''daemon not reachable (press r to retry)''\<rparr>)) (\<lambda>a.
     bindE (attempt (bindE (tr_setup tm) (\<lambda>_. run_loop tm cl n a))) (\<lambda>result.
     bindE (modify (tr_restore tm)) (\<lambda>_.
       case result of Inl e \<Rightarrow> fail e | Inr _ \<Rightarrow> ret ())))))"

section \<open>Which verdicts are sent\<close>

datatype tui_event = Drawn screen | Asked request

definition logged_terminal :: "'w terminal \<Rightarrow> ('w \<times> tui_event list) terminal" where
  "logged_terminal tm = \<lparr>tr_setup = beside (tr_setup tm), tr_restore = (\<lambda>(w, l). (tr_restore tm w, l)),
     tr_draw = (\<lambda>s. noted (Drawn s) (tr_draw tm s)), tr_poll = (\<lambda>ms. beside (tr_poll tm ms)),
     tr_read = beside (tr_read tm), tr_now = tr_now tm \<circ> fst\<rparr>"

text \<open>The state behind a screen marks a suspended task.\<close>

definition marks :: "app \<Rightarrow> uuid \<Rightarrow> bool" where
  "marks a t = (tu_view a = Progress_view \<and>
     (case selected_task a of Some x \<Rightarrow> at_task_id x = t \<and> at_status x = ''SUSPENDED'' | None \<Rightarrow> False))"

fun allowed :: "app option \<Rightarrow> tui_event \<Rightarrow> bool" where
  "allowed a (Drawn s) = False"
| "allowed a (Asked (GateAction t b)) = (case a of Some a \<Rightarrow> marks a t | None \<Rightarrow> False)"
| "allowed a (Asked req) = True"

lemma ask_only: "P (f req) \<Longrightarrow> adds_only P (ask (logged_client f cl) req)"
  by (simp add: ask_def adds_only_ask)

lemmas tui_adds = adds_only_intros ask_only

lemma refresh_allowed: "adds_only (allowed a) (refresh_blueprints (logged_client Asked cl) b)"
  unfolding refresh_blueprints_def by (auto intro!: tui_adds)

lemma poll_allowed: "adds_only (allowed a) (poll_progress (logged_client Asked cl) clock b)"
  unfolding poll_progress_def by (auto intro!: tui_adds)

lemma gate_allowed:
  assumes "tu_view a = Progress_view"
  shows "adds_only (allowed (Some a)) (send_gate_action (logged_client Asked cl) approve a)"
  using assms by (auto simp: send_gate_action_def marks_def intro!: tui_adds split: option.split)

lemma key_allowed:
  "adds_only (allowed (Some a)) (key_pressed (logged_terminal tm) (logged_client Asked cl) k a)"
proof -
  have toggle: "adds_only (allowed (Some a)) (toggle_view (logged_client Asked cl) clock a)" for clock
    by (auto simp: toggle_view_def Let_def intro: refresh_allowed poll_allowed split: view.split)
  have retry: "adds_only (allowed (Some a)) (retry_daemon (logged_client Asked cl) a)"
    unfolding retry_daemon_def by (auto intro!: tui_adds refresh_allowed split: sum.split)
  show ?thesis unfolding key_pressed_def
    by (intro adds_if adds_only_bindE adds_ret toggle retry gate_allowed) simp_all
qed

lemma idle_allowed: "adds_only (allowed (Some a)) (idle (logged_terminal tm) (logged_client Asked cl) a)"
  unfolding idle_def by (auto intro!: tui_adds poll_allowed)

text \<open>Every verdict in a log comes after a screen that marks its task, with no other screen between.\<close>

definition shown :: "tui_event list \<Rightarrow> bool" where
  "shown us = (\<forall>i < length us. \<forall>t b. us ! i = Asked (GateAction t b) \<longrightarrow>
     (\<exists>j < i. \<exists>a. us ! j = Drawn (ui a) \<and> marks a t \<and> (\<forall>k. j < k \<and> k < i \<longrightarrow> (\<forall>s. us ! k \<noteq> Drawn s))))"

lemma shown_append:
  assumes "shown us" "shown vs"
  shows "shown (us @ vs)"
  unfolding shown_def
proof (intro allI impI)
  fix i t b
  assume i: "i < length (us @ vs)" "(us @ vs) ! i = Asked (GateAction t b)"
  show "\<exists>j < i. \<exists>a. (us @ vs) ! j = Drawn (ui a) \<and> marks a t \<and>
      (\<forall>k. j < k \<and> k < i \<longrightarrow> (\<forall>s. (us @ vs) ! k \<noteq> Drawn s))"
  proof (cases "i < length us")
    case True
    then have "us ! i = Asked (GateAction t b)" using i(2) by (simp add: nth_append)
    with assms(1) True obtain j a where "j < i" "us ! j = Drawn (ui a)" "marks a t"
      "\<forall>k. j < k \<and> k < i \<longrightarrow> (\<forall>s. us ! k \<noteq> Drawn s)" unfolding shown_def by blast
    then show ?thesis using True by (intro exI [of _ j] exI [of _ a]) (auto simp: nth_append)
  next
    case False
    define m where "m = i - length us"
    have m: "m < length vs" "vs ! m = Asked (GateAction t b)" "i = length us + m"
      using False i by (auto simp: m_def nth_append)
    with assms(2) obtain j a where "j < m" "vs ! j = Drawn (ui a)" "marks a t"
      and none: "\<And>k s. j < k \<Longrightarrow> k < m \<Longrightarrow> vs ! k \<noteq> Drawn s" unfolding shown_def by blast
    moreover have "(us @ vs) ! k \<noteq> Drawn s" if "length us + j < k" "k < i" for k s
      using none [of "k - length us" s] that m(3) by (auto simp: nth_append)
    ultimately show ?thesis using m(3) by (intro exI [of _ "length us + j"] exI [of _ a]) auto
  qed
qed

lemma shown_round:
  assumes "list_all (allowed (Some a)) vs"
  shows "shown (Drawn (ui a) # vs)"
  unfolding shown_def
proof (intro allI impI)
  fix i t b
  assume i: "i < length (Drawn (ui a) # vs)" "(Drawn (ui a) # vs) ! i = Asked (GateAction t b)"
  then obtain m where m: "i = Suc m" "m < length vs" "vs ! m = Asked (GateAction t b)" by (cases i) auto
  then have "marks a t" using assms by (auto simp: list_all_length dest!: spec [of _ m])
  moreover have "vs ! k \<noteq> Drawn s" if "k < length vs" for k s
  proof
    assume "vs ! k = Drawn s"
    then show False using assms that by (auto simp: list_all_length dest!: spec [of _ k])
  qed
  ultimately show "\<exists>j < i. \<exists>a'. (Drawn (ui a) # vs) ! j = Drawn (ui a') \<and> marks a' t \<and>
      (\<forall>k. j < k \<and> k < i \<longrightarrow> (\<forall>s. (Drawn (ui a) # vs) ! k \<noteq> Drawn s))"
    using m by (intro exI [of _ 0] exI [of _ a]) (auto simp: nth_Cons split: nat.split)
qed

lemma shown_none: "list_all (allowed None) us \<Longrightarrow> shown us"
  by (force simp: shown_def list_all_length)

lemma shown_rounds: "list_all (allowed (Some a)) vs \<Longrightarrow> shown ([Drawn (ui a)] @ vs)"
  using shown_round by simp

lemma round_shown: "adds shown (tui_round (logged_terminal tm) (logged_client Asked cl) a)"
proof -
  let ?tm = "logged_terminal tm" and ?cl = "logged_client Asked cl"
  have rest: "adds_only (allowed (Some a)) (bindE (tr_poll ?tm 200) (\<lambda>ready.
      if \<not> ready then bindE (idle ?tm ?cl a) (\<lambda>a'. ret (Some a'))
      else bindE (tr_read ?tm) (\<lambda>ev. case ev of Key k True \<Rightarrow> key_pressed ?tm ?cl k a | _ \<Rightarrow> ret (Some a))))"
  proof (intro adds_only_bindE)
    show "adds_only (allowed (Some a)) (tr_poll ?tm 200)" by (simp add: logged_terminal_def adds_beside)
    show "adds_only (allowed (Some a)) (if \<not> ready then bindE (idle ?tm ?cl a) (\<lambda>a'. ret (Some a'))
        else bindE (tr_read ?tm) (\<lambda>ev. case ev of Key k True \<Rightarrow> key_pressed ?tm ?cl k a | _ \<Rightarrow> ret (Some a)))" for ready
    proof (cases ready)
      case True
      have "adds_only (allowed (Some a)) (tr_read ?tm)" by (simp add: logged_terminal_def adds_beside)
      then show ?thesis using True
        by (auto intro!: adds_only_bindE key_allowed adds_ret split: term_event.split bool.split)
    qed (auto intro!: adds_only_bindE idle_allowed adds_ret)
  qed
  have draw: "adds (\<lambda>us. us = [Drawn (ui a)]) (tr_draw ?tm (ui a))" by (simp add: logged_terminal_def adds_noted)
  show ?thesis unfolding tui_round_def
    by (rule adds_bindE [OF draw rest]) (auto simp: shown_round intro: shown_round [of a "[]", simplified])
qed

lemma loop_shown: "adds shown (run_loop (logged_terminal tm) (logged_client Asked cl) n a)"
proof (induction n arbitrary: a)
  case 0
  then show ?case by (simp add: adds_def)
next
  case (Suc n)
  have stop: "adds shown (ret ())" by (rule adds_ret) (simp add: shown_def)
  show ?case unfolding run_loop.simps
    by (rule adds_bindE [OF round_shown, where Q = shown])
       (auto intro: Suc.IH shown_append stop split: option.split)
qed

text \<open>The rows that a screen marks.\<close>

definition marked_rows :: "screen \<Rightarrow> nat list" where
  "marked_rows s =
     (case map_of (snd s) 1 of
        Some (Table rows widths header title) \<Rightarrow> filter (\<lambda>i. snd (rows ! i) = marked) [0..<length rows]
      | _ \<Rightarrow> [])"

lemma filter_eq_upt: "i < n \<Longrightarrow> filter (\<lambda>k. k = i) [0..<n] = [i]"
  by (induction n) (auto simp: less_Suc_eq intro: filter_False)

lemma marks_row:
  assumes "marks a t"
  shows "marked_rows (ui a) = [tu_selected a]"
proof -
  from assms have v: "tu_view a = Progress_view" and s: "tu_selected a < length (tu_tasks a)" "tu_tasks a \<noteq> []"
    by (auto simp: marks_def selected_task_def split: if_splits)
  have "map_of (snd (ui a)) 1 = Some (render_progress a)" using v by (simp add: ui_def Let_def)
  moreover have "snd (map (task_row a) (enumerate 0 (tu_tasks a)) ! i) = marked \<longleftrightarrow> i = tu_selected a"
    if "i < length (tu_tasks a)" for i
    using that by (simp add: task_row_def nth_enumerate_eq marked_def fg_def plain_def)
  then have "filter (\<lambda>i. snd (map (task_row a) (enumerate 0 (tu_tasks a)) ! i) = marked) [0..<length (tu_tasks a)] =
      filter (\<lambda>i. i = tu_selected a) [0..<length (tu_tasks a)]" by (intro filter_cong) auto
  ultimately show ?thesis using s by (simp add: marked_rows_def render_progress_def filter_eq_upt)
qed

text \<open>C11: in every run of the terminal interface a verdict is sent only for the task of the row
  that is marked in the table drawn last before it, and that task was shown as suspended:
  no poll of the progress comes between the screen and the key.\<close>

theorem gate_action_shown:
  assumes "tui_main (logged_terminal tm) (logged_client Asked cl) n (w, []) = Some (r, w', l)"
    "i < length l" "l ! i = Asked (GateAction t b)"
  shows "\<exists>j a x. j < i \<and> l ! j = Drawn (ui a) \<and> (\<forall>k. j < k \<and> k < i \<longrightarrow> (\<forall>s. l ! k \<noteq> Drawn s)) \<and>
    marked_rows (ui a) = [tu_selected a] \<and> selected_task a = Some x \<and> at_task_id x = t \<and>
    at_status x = ''SUSPENDED''"
proof -
  let ?tm = "logged_terminal tm" and ?cl = "logged_client Asked cl"
  have none: "shown []" by (simp add: shown_def)
  have ensure: "adds shown (attempt (cl_ensure ?cl 5000))"
    using adds_attempt [OF adds_only_ensure] by (rule adds_mono) (rule shown_none)
  have refresh: "adds shown (refresh_blueprints ?cl a)" for a
    by (rule adds_mono) (rule refresh_allowed, erule shown_none)
  have body: "adds shown (attempt (bindE (tr_setup ?tm) (\<lambda>_. run_loop ?tm ?cl n a)))" for a
  proof (intro adds_attempt adds_bindE [where P = shown and Q = shown])
    show "adds shown (tr_setup ?tm)" using none by (simp add: logged_terminal_def adds_beside)
  qed (auto intro: loop_shown shown_append)
  have restore: "adds shown (modify (tr_restore ?tm))"
    using none by (auto simp: adds_def modify_def logged_terminal_def)
  have "adds shown (tui_main ?tm ?cl n)" unfolding tui_main_def
    using none by (intro adds_bindE [where P = shown and Q = shown])
      (auto intro: adds_gets ensure refresh body restore adds_ret adds_fail shown_append split: sum.split)
  from addsD [OF this assms(1)] have "shown l" by auto
  then obtain j a where j: "j < i" "l ! j = Drawn (ui a)" "marks a t" "\<forall>k. j < k \<and> k < i \<longrightarrow> (\<forall>s. l ! k \<noteq> Drawn s)"
    using assms(2,3) unfolding shown_def by blast
  from j(3) obtain x where "selected_task a = Some x" "at_task_id x = t" "at_status x = ''SUSPENDED''"
    by (auto simp: marks_def split: option.splits)
  then show ?thesis using j marks_row by blast
qed

text \<open>A terminal that plays a script of key presses, and a daemon with one suspended task.\<close>

definition script :: "key_code list terminal" where
  "script = \<lparr>tr_setup = ret (), tr_restore = (\<lambda>ks. ks), tr_draw = (\<lambda>_. ret ()), tr_poll = (\<lambda>_. ret True),
     tr_read = (\<lambda>ks. case ks of [] \<Rightarrow> None | k # ks \<Rightarrow> ret (Key k True) ks), tr_now = length\<rparr>"

definition waiting :: active_task where
  "waiting = \<lparr>at_task_id = 9, at_blueprint_id = ''bp'', at_workflow_name = ''dev'', at_status = ''SUSPENDED'',
     at_started_at = None, at_elapsed_seconds = None, at_current_step = Some ''flash'', at_tmux_alive = True,
     at_session_name = None, at_suspended_reason = None, at_steps = []\<rparr>"

definition one_task :: "'w client" where
  "one_task = \<lparr>cl_ask = (\<lambda>_ req. case req of Progress _ \<Rightarrow> ret (RProgress [waiting]) | _ \<Rightarrow> ret (ROk ''ok'')),
     cl_ensure = (\<lambda>_. ret ())\<rparr>"

lemma script_asks:
  "cl_ask (logged_client Asked one_task) ms (Progress p) (w, l) = Some (Inr (RProgress [waiting]), w, l @ [Asked (Progress p)])"
  "cl_ask (logged_client Asked one_task) ms Blueprints (w, l) = Some (Inr (ROk ''ok''), w, l @ [Asked Blueprints])"
  "cl_ask (logged_client Asked one_task) ms (GateAction t b) (w, l) =
     Some (Inr (ROk ''ok''), w, l @ [Asked (GateAction t b)])"
  "cl_ensure (logged_client Asked one_task) ms (w, l) = Some (Inr (), w, l)"
  by (simp_all add: logged_client_def one_task_def noted_def beside_def ret_def)

lemma script_terminal:
  "tr_setup (logged_terminal script) (w, l) = Some (Inr (), w, l)" "tr_restore (logged_terminal script) (w, l) = (w, l)"
  "tr_now (logged_terminal script) (w, l) = length w"
  by (simp_all add: logged_terminal_def script_def beside_def ret_def)

lemma script_round:
  "tui_round (logged_terminal script) cl a (k # ks, l) = key_pressed (logged_terminal script) cl k a (ks, l @ [Drawn (ui a)])"
  by (simp add: tui_round_def logged_terminal_def script_def noted_def beside_def bindE_def ret_def)

lemma script_keys:
  "tu_view a = Dispatch_view \<Longrightarrow> key_pressed (logged_terminal script) (logged_client Asked one_task) Tab a (ks, l) =
     Some (Inr (Some (a\<lparr>tu_view := Progress_view, tu_selected := 0, tu_tasks := [waiting], tu_daemon_online := True,
       tu_last_error := None, tu_last_progress := length ks\<rparr>)), ks, l @ [Asked (Progress None)])"
  "tu_view a = Progress_view \<Longrightarrow> selected_task a = Some waiting \<Longrightarrow>
     key_pressed (logged_terminal script) (logged_client Asked one_task) (KChar (CHR ''y'')) a (ks, l) =
       Some (Inr (Some (a\<lparr>tu_last_error := None\<rparr>)), ks, l @ [Asked (GateAction 9 True)])"
  "key_pressed (logged_terminal script) cl Esc a (ks, l) = Some (Inr None, ks, l)"
  by (simp_all add: key_pressed_def toggle_view_def flip_view_def poll_progress_def send_gate_action_def Let_def script_asks
      bindE_def attempt_def ret_def gets_def logged_terminal_def script_def waiting_def)

lemma gate_action_shown_witness:
  "\<exists>r w l. tui_main (logged_terminal script) (logged_client Asked one_task) 5
       ([Tab, KChar (CHR ''y''), Esc], []) = Some (r, w, l) \<and> l ! 4 = Asked (GateAction 9 True) \<and>
     (\<exists>j < 4. \<exists>a x. l ! j = Drawn (ui a) \<and> marked_rows (ui a) = [tu_selected a] \<and>
        selected_task a = Some x \<and> at_task_id x = 9)"
proof -
  let ?tm = "logged_terminal script" and ?cl = "logged_client Asked one_task"
  have "\<exists>r w l. run_loop ?tm ?cl 5 a ([Tab, KChar (CHR ''y''), Esc], [Asked Blueprints]) = Some (r, w, l) \<and>
      4 < length l \<and> l ! 4 = Asked (GateAction 9 True)" if "tu_view a = Dispatch_view" for a
    using that by (simp add: numeral_eq_Suc bindE_def script_round script_keys selected_task_def ret_def)
  moreover have "tu_view ((app_new (Suc (Suc (Suc 0))))\<lparr>tu_daemon_online := True\<rparr>) = Dispatch_view" by (simp add: app_new_def)
  ultimately obtain r w l where loop: "run_loop ?tm ?cl 5 ((app_new (Suc (Suc (Suc 0))))\<lparr>tu_daemon_online := True\<rparr>)
      ([Tab, KChar (CHR ''y''), Esc], [Asked Blueprints]) = Some (r, w, l)"
    and i: "4 < length l" "l ! 4 = Asked (GateAction 9 True)" by blast
  have "\<exists>r. tui_main ?tm ?cl 5 ([Tab, KChar (CHR ''y''), Esc], []) = Some (r, w, l)"
    using loop by (cases r) (simp_all add: tui_main_def refresh_blueprints_def ask_def script_asks script_terminal
        bindE_def attempt_def ret_def gets_def modify_def fail_def del: run_loop.simps)
  then obtain r' where run: "tui_main ?tm ?cl 5 ([Tab, KChar (CHR ''y''), Esc], []) = Some (r', w, l)" ..
  from gate_action_shown [OF run i] show ?thesis using run i(2) by blast
qed

end
