(* ===== verification/Studio.thy ===== *)
theory Studio
  imports Client Harvest
begin

text \<open>
  The studio web server, \<open>src/janus/src/bin/janus_studio.rs\<close>: its token, its routes and their
  handlers, each of which asks the daemon at most once, and the stream that polls the daemon and
  sends what changed.

  axum is a parameter: what its extractors read from a request, and the status of a rejection. The
  files of the pages, the clock, the printer of JSON and the socket of a stream are parameters too;
  the listener and its TLS configuration are left out. \<open>studio_needs_token\<close> says which requests
  reach the daemon without the token, \<open>stream_current\<close> that a stream shows the last answer.
\<close>

section \<open>The token\<close>

record 'w token_files =
  tk_files :: "'w \<Rightarrow> fs"
  tk_machine :: "'w machine"
  tk_new_uuid :: "(string, 'w, uuid) io"
  tk_chmod :: "string \<Rightarrow> nat \<Rightarrow> (string, 'w, unit) io"

definition default_token_file :: "env \<Rightarrow> string" where
  "default_token_file env = path_join (case env ''HOME'' of Some h \<Rightarrow> h | None \<Rightarrow> ''.'') ''.metamach/studio.token''"

text \<open>The mode is \<open>0o600\<close>.\<close>

definition ensure_auth_token :: "'w token_files \<Rightarrow> string \<Rightarrow> (string, 'w, string) io" where
  "ensure_auth_token tk file =
     bindE (gets (\<lambda>w. read_to_string (tk_files tk w) file)) (\<lambda>tok.
     if (case tok of Some t \<Rightarrow> trim t \<noteq> [] | None \<Rightarrow> False) then ret (trim (the tok))
     else
       bindE (case path_parent file of
           Some parent \<Rightarrow> attempt (m_create_dir_all (tk_machine tk) parent) | None \<Rightarrow> ret (Inr ())) (\<lambda>_.
       bindE (tk_new_uuid tk) (\<lambda>u.
       let token = uuid_simple u in
       bindE (m_write (tk_machine tk) file token) (\<lambda>_.
       bindE (attempt (tk_chmod tk file 384)) (\<lambda>_.
       ret token)))))"

section \<open>Requests and answers of HTTP\<close>

datatype http_method = Get | Head | Post | Other_method

text \<open>The segments of the path as they are written, and the first value of each header.\<close>

record http_request =
  hr_method :: http_method
  hr_segments :: "string list"
  hr_query :: "string option"
  hr_headers :: "string \<Rightarrow> string option"
  hr_body :: string

datatype content = Nothing | Asset string string | Text_body string | Json_body json | Rejection | Upgraded string

datatype reply = Reply nat content

text \<open>axum: \<open>Path\<close> of one segment, \<open>Query\<close> with the optional member \<open>blueprint\<close>, the value of a
  JSON body, the status of a value of another type, and whether a request is an upgrade; a status
  is the one of a rejection.\<close>

record axum =
  ax_segment :: "string \<Rightarrow> nat + string"
  ax_uuid :: "string \<Rightarrow> nat + uuid"
  ax_query :: "string option \<Rightarrow> nat + string option"
  ax_json :: "http_request \<Rightarrow> nat + json"
  ax_data_error :: nat
  ax_upgrade :: "http_request \<Rightarrow> nat + unit"

record 'w studio =
  su_client :: "'w client"
  su_token :: string
  su_axum :: axum
  su_asset :: "string \<Rightarrow> string"
  su_print :: "json \<Rightarrow> string"

definition studio_sock :: "env \<Rightarrow> string option \<Rightarrow> string" where
  "studio_sock env sock = (case sock of Some s \<Rightarrow> s | None \<Rightarrow> path_join (state_dir env) ''janus.sock'')"

text \<open>Extractors in their order; the first that rejects answers.\<close>

definition extracted :: "nat + 'a \<Rightarrow> ('a \<Rightarrow> (string, 'w, reply) io) \<Rightarrow> (string, 'w, reply) io" where
  "extracted x k = (case x of Inl status \<Rightarrow> ret (Reply status Rejection) | Inr v \<Rightarrow> k v)"

definition ok_json :: "json \<Rightarrow> reply" where
  "ok_json v = Reply 200 (Json_body v)"

definition status_only :: "nat \<Rightarrow> reply" where
  "status_only n = Reply n Nothing"

definition asks :: "'w studio \<Rightarrow> nat \<Rightarrow> request \<Rightarrow> (string + response \<Rightarrow> reply) \<Rightarrow> (string, 'w, reply) io" where
  "asks su timeout req f = bindE (attempt (cl_ask (su_client su) timeout req)) (\<lambda>r. ret (f r))"

text \<open>The bodies, as derived by serde.\<close>

definition read_payload :: "axum \<Rightarrow> (body \<Rightarrow> 'a option) \<Rightarrow> json \<Rightarrow> nat + 'a" where
  "read_payload ax f v = (case Option.bind (body_of v) f of Some x \<Rightarrow> Inr x | None \<Rightarrow> Inl (ax_data_error ax))"

definition dispatch_payload :: "body \<Rightarrow> (string \<times> string option \<times> string option) option" where
  "dispatch_payload b = do { arity 3 b; bp \<leftarrow> required 0 ''blueprint'' as_str b;
     wn \<leftarrow> optional 1 ''workflow'' as_str b; cmd \<leftarrow> optional 2 ''inline_command'' as_str b; Some (bp, wn, cmd) }"

definition gate_verdict_payload :: "body \<Rightarrow> bool option" where
  "gate_verdict_payload b = do { arity 1 b; required 0 ''approve'' as_bool b }"

definition save_workflow_payload :: "body \<Rightarrow> string option" where
  "save_workflow_payload b = do { arity 1 b; required 0 ''content'' as_str b }"

definition extracted_body :: "'w studio \<Rightarrow> http_request \<Rightarrow> (body \<Rightarrow> 'a option) \<Rightarrow> ('a \<Rightarrow> (string, 'w, reply) io) \<Rightarrow>
    (string, 'w, reply) io" where
  "extracted_body su hr f k =
     extracted (ax_json (su_axum su) hr) (\<lambda>v. extracted (read_payload (su_axum su) f v) k)"

section \<open>The handlers\<close>

definition handle_health :: "'w studio \<Rightarrow> (string, 'w, reply) io" where
  "handle_health su = asks su 2000 Ping (\<lambda>r.
     let daemon_online = (case r of Inr RPong \<Rightarrow> True | _ \<Rightarrow> False) in
     ok_json (JObj [(''status'', JStr (if daemon_online then ''online'' else ''degraded'')),
       (''daemon_online'', JBool daemon_online), (''version'', JStr ''0.7.0-candidate'')]))"

definition handle_list_workflows :: "'w studio \<Rightarrow> http_request \<Rightarrow> (string, 'w, reply) io" where
  "handle_list_workflows su hr =
     extracted (ax_query (su_axum su) (hr_query hr)) (\<lambda>bp.
     asks su 5000 (ListWorkflows bp) (\<lambda>r. case r of
         Inr (RWorkflows names) \<Rightarrow> ok_json (json_strings names)
       | Inr (RError message) \<Rightarrow> ok_json (json_strings [message])
       | _ \<Rightarrow> status_only 503))"

definition handle_get_workflow :: "'w studio \<Rightarrow> string \<Rightarrow> http_request \<Rightarrow> (string, 'w, reply) io" where
  "handle_get_workflow su segment hr =
     extracted (ax_segment (su_axum su) segment) (\<lambda>name.
     extracted (ax_query (su_axum su) (hr_query hr)) (\<lambda>bp.
     asks su 5000 (GetWorkflow bp name) (\<lambda>r. case r of
         Inr (RWorkflowContent _ content) \<Rightarrow> Reply 200 (Text_body content)
       | _ \<Rightarrow> status_only 404)))"

text \<open>An error of the daemon is answered with status 200.\<close>

definition message_or_error :: "string + response \<Rightarrow> reply" where
  "message_or_error r = (case r of
       Inr (ROk message) \<Rightarrow> ok_json (JObj [(''message'', JStr message)])
     | Inr (RError message) \<Rightarrow> ok_json (JObj [(''error'', JStr message)])
     | _ \<Rightarrow> status_only 400)"

definition handle_save_workflow :: "'w studio \<Rightarrow> string \<Rightarrow> http_request \<Rightarrow> (string, 'w, reply) io" where
  "handle_save_workflow su segment hr =
     extracted (ax_segment (su_axum su) segment) (\<lambda>name.
     extracted (ax_query (su_axum su) (hr_query hr)) (\<lambda>bp.
     extracted_body su hr save_workflow_payload (\<lambda>content.
     asks su 5000 (SaveWorkflow bp name content) message_or_error)))"

definition tasks_json :: "active_task list \<Rightarrow> json" where
  "tasks_json ts = JArr (map active_task_to_value ts)"

definition handle_progress :: "'w studio \<Rightarrow> http_request \<Rightarrow> (string, 'w, reply) io" where
  "handle_progress su hr =
     extracted (ax_query (su_axum su) (hr_query hr)) (\<lambda>bp.
     asks su 5000 (Progress bp) (\<lambda>r. ok_json (tasks_json (case r of Inr (RProgress ts) \<Rightarrow> ts | _ \<Rightarrow> []))))"

definition handle_dispatch :: "'w studio \<Rightarrow> http_request \<Rightarrow> (string, 'w, reply) io" where
  "handle_dispatch su hr =
     extracted_body su hr dispatch_payload (\<lambda>(bp, wn, cmd).
     asks su 15000 (Dispatch bp wn cmd) (\<lambda>r. case r of
         Inr (RDispatch task_id) \<Rightarrow> ok_json (JObj [(''task_id'', json_uuid task_id)])
       | Inr (RError message) \<Rightarrow> ok_json (JObj [(''error'', JStr message)])
       | _ \<Rightarrow> status_only 400))"

definition handle_gate_verdict :: "'w studio \<Rightarrow> string \<Rightarrow> http_request \<Rightarrow> (string, 'w, reply) io" where
  "handle_gate_verdict su segment hr =
     extracted (ax_uuid (su_axum su) segment) (\<lambda>task_id.
     extracted_body su hr gate_verdict_payload (\<lambda>approve.
     asks su 5000 (GateAction task_id approve) message_or_error))"

definition handle_ws_stream :: "'w studio \<Rightarrow> string \<Rightarrow> http_request \<Rightarrow> (string, 'w, reply) io" where
  "handle_ws_stream su segment hr =
     extracted (ax_segment (su_axum su) segment) (\<lambda>run.
     extracted (ax_upgrade (su_axum su) hr) (\<lambda>_. ret (Reply 101 (Upgraded run))))"

section \<open>The routes\<close>

datatype route =
    Index | Styles | App_js | Health | Workflows | Workflow string | Progress_route | Dispatch_route
  | Gate_verdict string | Run_stream string

fun route_of :: "string list \<Rightarrow> route option" where
  "route_of [] = Some Index"
| "route_of [a] = (if a = ''styles.css'' then Some Styles else if a = ''app.js'' then Some App_js else None)"
| "route_of [a, b, c] =
     (if a = ''api'' \<and> b = ''v1'' \<and> c = ''health'' then Some Health
      else if a = ''api'' \<and> b = ''v1'' \<and> c = ''workflows'' then Some Workflows
      else if a = ''api'' \<and> b = ''v1'' \<and> c = ''progress'' then Some Progress_route
      else if a = ''api'' \<and> b = ''v1'' \<and> c = ''dispatch'' then Some Dispatch_route
      else if a = ''runs'' \<and> b \<noteq> [] \<and> c = ''stream'' then Some (Run_stream b) else None)"
| "route_of [a, b, c, d] =
     (if a = ''api'' \<and> b = ''v1'' \<and> c = ''workflows'' \<and> d \<noteq> [] then Some (Workflow d) else None)"
| "route_of [a, b, c, d, e] =
     (if a = ''api'' \<and> b = ''v1'' \<and> c = ''gates'' \<and> d \<noteq> [] \<and> e = ''verdict'' then Some (Gate_verdict d) else None)"
| "route_of _ = None"

text \<open>The routes with the layer of the token.\<close>

fun protected :: "route \<Rightarrow> bool" where
  "protected Workflows = True"
| "protected (Workflow name) = True"
| "protected Progress_route = True"
| "protected Dispatch_route = True"
| "protected (Gate_verdict t) = True"
| "protected _ = False"

text \<open>\<open>to_str\<close> of a header, and the comparison.\<close>

definition header_text_of :: "string \<Rightarrow> string option" where
  "header_text_of v = (if list_all (\<lambda>c. (32 \<le> byte c \<and> byte c < 127) \<or> byte c = 9) v then Some v else None)"

definition authorized :: "'w studio \<Rightarrow> http_request \<Rightarrow> bool" where
  "authorized su hr = (Option.bind (hr_headers hr ''x-janus-studio-token'') header_text_of = Some (su_token su))"

definition auth_middleware :: "'w studio \<Rightarrow> http_request \<Rightarrow> (string, 'w, reply) io \<Rightarrow> (string, 'w, reply) io" where
  "auth_middleware su hr k = (if authorized su hr then k else ret (status_only 401))"

text \<open>A route of \<open>GET\<close> also takes \<open>HEAD\<close>, and drops the body of the answer.\<close>

definition on_get :: "http_method \<Rightarrow> (string, 'w, reply) io \<Rightarrow> (string, 'w, reply) io" where
  "on_get m h = (case m of
       Get \<Rightarrow> h
     | Head \<Rightarrow> bindE h (\<lambda>r. case r of Reply status _ \<Rightarrow> ret (status_only status))
     | _ \<Rightarrow> ret (status_only 405))"

definition on_post :: "http_method \<Rightarrow> (string, 'w, reply) io \<Rightarrow> (string, 'w, reply) io" where
  "on_post m h = (case m of Post \<Rightarrow> h | _ \<Rightarrow> ret (status_only 405))"

definition serve_asset :: "'w studio \<Rightarrow> string \<Rightarrow> string \<Rightarrow> (string, 'w, reply) io" where
  "serve_asset su mime name = ret (Reply 200 (Asset mime (su_asset su name)))"

fun method_router :: "'w studio \<Rightarrow> route \<Rightarrow> http_request \<Rightarrow> (string, 'w, reply) io" where
  "method_router su Index hr = on_get (hr_method hr) (serve_asset su ''text/html; charset=utf-8'' ''index.html'')"
| "method_router su Styles hr = on_get (hr_method hr) (serve_asset su ''text/css'' ''styles.css'')"
| "method_router su App_js hr = on_get (hr_method hr) (serve_asset su ''application/javascript'' ''app.js'')"
| "method_router su Health hr = on_get (hr_method hr) (handle_health su)"
| "method_router su Workflows hr = on_get (hr_method hr) (handle_list_workflows su hr)"
| "method_router su (Workflow name) hr =
     (case hr_method hr of
        Post \<Rightarrow> handle_save_workflow su name hr
      | m \<Rightarrow> on_get m (handle_get_workflow su name hr))"
| "method_router su Progress_route hr = on_get (hr_method hr) (handle_progress su hr)"
| "method_router su Dispatch_route hr = on_post (hr_method hr) (handle_dispatch su hr)"
| "method_router su (Gate_verdict t) hr = on_post (hr_method hr) (handle_gate_verdict su t hr)"
| "method_router su (Run_stream r) hr = on_get (hr_method hr) (handle_ws_stream su r hr)"

definition studio_serve :: "'w studio \<Rightarrow> http_request \<Rightarrow> (string, 'w, reply) io" where
  "studio_serve su hr =
     (case route_of (hr_segments hr) of
        None \<Rightarrow> ret (status_only 404)
      | Some r \<Rightarrow>
          if protected r then auth_middleware su hr (method_router su r hr) else method_router su r hr)"

section \<open>The stream\<close>

text \<open>A message is sent as its printed text.\<close>

record 'w web_socket =
  ws_send :: "json \<Rightarrow> (string, 'w, unit) io"
  ws_tick :: "(string, 'w, unit) io"
  ws_now :: "'w \<Rightarrow> string"

definition poll_tasks :: "'w studio \<Rightarrow> (string, 'w, active_task list) io" where
  "poll_tasks su =
     bindE (attempt (cl_ask (su_client su) 3000 (Progress None))) (\<lambda>r.
     ret (case r of Inr (RProgress ts) \<Rightarrow> ts | _ \<Rightarrow> []))"

definition stream_message :: "string \<Rightarrow> string \<Rightarrow> string \<Rightarrow> (string \<times> json) list \<Rightarrow> json" where
  "stream_message kind run now ms =
     JObj ([(''type'', JStr kind), (''run_id'', JStr run), (''timestamp'', JStr now)] @ ms)"

definition stream_send :: "'w web_socket \<Rightarrow> string \<Rightarrow> string \<Rightarrow> (string \<times> json) list \<Rightarrow> (string, 'w, bool) io" where
  "stream_send ws kind run ms =
     bindE (gets (ws_now ws)) (\<lambda>now.
     bindE (attempt (ws_send ws (stream_message kind run now ms))) (\<lambda>r.
     ret (case r of Inl _ \<Rightarrow> False | Inr _ \<Rightarrow> True)))"

text \<open>One round: the printed tasks that were sent last and the count of the ticks, or the end.\<close>

definition stream_tick :: "'w studio \<Rightarrow> 'w web_socket \<Rightarrow> string \<Rightarrow> string \<times> nat \<Rightarrow> (string, 'w, (string \<times> nat) option) io" where
  "stream_tick su ws run = (\<lambda>(last_tasks, ticks).
     bindE (ws_tick ws) (\<lambda>_.
     bindE (poll_tasks su) (\<lambda>ts.
     let current = su_print su (tasks_json ts) in
     if last_tasks \<noteq> current then
       bindE (stream_send ws ''DELTA'' run [(''active_tasks'', tasks_json ts)]) (\<lambda>ok.
       ret (if ok then Some (current, ticks + 1) else None))
     else if 10 dvd (ticks + 1) then
       bindE (stream_send ws ''HEARTBEAT'' run []) (\<lambda>ok. ret (if ok then Some (last_tasks, ticks + 1) else None))
     else ret (Some (last_tasks, ticks + 1)))))"

text \<open>The loop up to its \<open>n\<close>-th round.\<close>

fun stream_ticks :: "'w studio \<Rightarrow> 'w web_socket \<Rightarrow> string \<Rightarrow> nat \<Rightarrow> string \<times> nat \<Rightarrow> (string, 'w, (string \<times> nat) option) io" where
  "stream_ticks su ws run 0 st = ret (Some st)"
| "stream_ticks su ws run (Suc n) st =
     bindE (stream_tick su ws run st) (\<lambda>r. case r of None \<Rightarrow> ret None | Some st' \<Rightarrow> stream_ticks su ws run n st')"

definition handle_socket :: "'w studio \<Rightarrow> 'w web_socket \<Rightarrow> string \<Rightarrow> nat \<Rightarrow> (string, 'w, (string \<times> nat) option) io" where
  "handle_socket su ws run n =
     bindE (poll_tasks su) (\<lambda>ts.
     bindE (stream_send ws ''SNAPSHOT'' run [(''active_tasks'', tasks_json ts)]) (\<lambda>_.
     stream_ticks su ws run n (su_print su (tasks_json ts), 0)))"

section \<open>Which requests reach the daemon\<close>

definition logged_studio :: "'w studio \<Rightarrow> ('w \<times> request list) studio" where
  "logged_studio su = \<lparr>su_client = logged_client (\<lambda>req. req) (su_client su), su_token = su_token su,
     su_axum = su_axum su, su_asset = su_asset su, su_print = su_print su\<rparr>"

definition beside_socket :: "'w web_socket \<Rightarrow> ('w \<times> 'l) web_socket" where
  "beside_socket ws = \<lparr>ws_send = (\<lambda>m. beside (ws_send ws m)), ws_tick = beside (ws_tick ws), ws_now = ws_now ws \<circ> fst\<rparr>"

lemma asks_one: "P q \<Longrightarrow> adds_one P (asks (logged_studio su) timeout q f)"
  unfolding asks_def logged_studio_def
  by (intro adds_one_after adds_one_attempt adds_ret) (simp_all add: adds_one_def logged_client_def adds_noted)

lemma asks_one_extracted: "(\<And>v. adds_one P (f v)) \<Longrightarrow> adds_one P (extracted x f)"
  by (auto simp: extracted_def adds_one_ret split: sum.split)

lemma asks_one_head:
  "adds_one P m \<Longrightarrow> adds_one P (bindE m (\<lambda>r. case r of Reply status b \<Rightarrow> ret (status_only status)))"
  by (rule adds_one_after) (auto intro!: adds_ret split: reply.split)

lemma asks_one_get: "adds_one P m \<Longrightarrow> adds_one P (on_get h m)"
  by (auto simp: on_get_def intro: asks_one_head adds_one_ret split: http_method.split)

lemma asks_one_post: "adds_one P m \<Longrightarrow> adds_one P (on_post h m)"
  by (auto simp: on_post_def intro: adds_one_ret split: http_method.split)

lemmas asks_one_intros = asks_one adds_one_ret asks_one_extracted asks_one_get asks_one_post

lemma asks_one_route: "adds_one (\<lambda>q. True) (method_router (logged_studio su) r hr)"
  by (cases r)
     (auto simp: serve_asset_def handle_health_def handle_list_workflows_def handle_get_workflow_def
       handle_save_workflow_def handle_progress_def handle_dispatch_def handle_gate_verdict_def handle_ws_stream_def
       extracted_body_def intro!: asks_one_intros split: http_method.split)

lemma asks_one_open: "\<not> protected r \<Longrightarrow> adds_one (\<lambda>q. q = Ping) (method_router (logged_studio su) r hr)"
  by (cases r)
     (auto simp: serve_asset_def handle_health_def handle_ws_stream_def intro!: asks_one_intros)

lemma poll_asks: "adds_only (\<lambda>q. q = Progress None) (poll_tasks (logged_studio su))"
  unfolding poll_tasks_def by (auto simp: logged_studio_def intro!: adds_only_intros)

lemma send_asks: "adds_only P (stream_send (beside_socket ws) kind run ms)"
  unfolding stream_send_def by (auto simp: beside_socket_def intro!: adds_only_intros)

lemma tick_asks: "adds_only (\<lambda>q. q = Progress None) (stream_tick (logged_studio su) (beside_socket ws) run st)"
proof -
  have "adds_only P (ws_tick (beside_socket ws))" for P by (simp add: beside_socket_def adds_beside)
  then show ?thesis
    by (auto simp: stream_tick_def Let_def intro!: adds_only_bindE poll_asks send_asks adds_ret split: prod.split)
qed

lemma ticks_asks: "adds_only (\<lambda>q. q = Progress None) (stream_ticks (logged_studio su) (beside_socket ws) run n st)"
  by (induction n arbitrary: st) (auto intro!: adds_only_bindE tick_asks adds_ret split: option.split)

lemma socket_asks: "adds_only (\<lambda>q. q = Progress None) (handle_socket (logged_studio su) (beside_socket ws) run n)"
  unfolding handle_socket_def by (intro adds_only_bindE poll_asks send_asks ticks_asks)

text \<open>C12: Whatever HTTP request arrives, the studio asks the daemon at most once, and without the
  token only for a sign of life; a protected route without the token is answered with status 401
  and nothing is done. A stream, which has no token, only ever asks for the tasks.\<close>

theorem studio_needs_token:
  "adds (\<lambda>us. us = [] \<or> (\<exists>q. us = [q] \<and> (authorized su hr \<or> q = Ping))) (studio_serve (logged_studio su) hr) \<and>
   (case route_of (hr_segments hr) of
      Some r \<Rightarrow> protected r \<and> \<not> authorized su hr \<longrightarrow> studio_serve su hr w = Some (Inr (Reply 401 Nothing), w)
    | None \<Rightarrow> studio_serve su hr w = Some (Inr (Reply 404 Nothing), w)) \<and>
   adds_only (\<lambda>q. q = Progress None) (handle_socket (logged_studio su) (beside_socket ws) run n)"
proof (intro conjI)
  let ?su = "logged_studio su"
  have auth: "authorized ?su hr = authorized su hr" by (simp add: authorized_def logged_studio_def)
  have "adds_one (\<lambda>q. authorized su hr \<or> q = Ping) (studio_serve ?su hr)"
  proof (cases "authorized su hr")
    case True
    then show ?thesis using asks_one_route [of su]
      by (auto simp: studio_serve_def auth_middleware_def auth intro: adds_one_ret split: option.split)
  next
    case False
    then show ?thesis using asks_one_open [of _ su hr]
      by (auto simp: studio_serve_def auth_middleware_def auth intro: adds_one_ret split: option.split)
  qed
  then show "adds (\<lambda>us. us = [] \<or> (\<exists>q. us = [q] \<and> (authorized su hr \<or> q = Ping))) (studio_serve ?su hr)"
    by (simp add: adds_one_def)
  show "case route_of (hr_segments hr) of
      Some r \<Rightarrow> protected r \<and> \<not> authorized su hr \<longrightarrow> studio_serve su hr w = Some (Inr (Reply 401 Nothing), w)
    | None \<Rightarrow> studio_serve su hr w = Some (Inr (Reply 404 Nothing), w)"
    by (auto simp: studio_serve_def auth_middleware_def status_only_def ret_def split: option.split)
  show "adds_only (\<lambda>q. q = Progress None) (handle_socket ?su (beside_socket ws) run n)"
    by (rule socket_asks)
qed

section \<open>What a stream shows\<close>

datatype stream_event = Answered "string + response" | Sent json bool

definition recorded :: "('e + 'a \<Rightarrow> 'v) \<Rightarrow> ('e, 'w, 'a) io \<Rightarrow> ('e, 'w \<times> 'v list, 'a) io" where
  "recorded f m = (\<lambda>(w, l). map_option (\<lambda>(r, w'). (r, w', l @ [f r])) (m w))"

definition watched_studio :: "'w studio \<Rightarrow> ('w \<times> stream_event list) studio" where
  "watched_studio su = \<lparr>su_client = \<lparr>cl_ask = (\<lambda>timeout req. recorded Answered (cl_ask (su_client su) timeout req)),
       cl_ensure = (\<lambda>timeout. beside (cl_ensure (su_client su) timeout))\<rparr>,
     su_token = su_token su, su_axum = su_axum su, su_asset = su_asset su, su_print = su_print su\<rparr>"

definition watched_socket :: "'w web_socket \<Rightarrow> ('w \<times> stream_event list) web_socket" where
  "watched_socket ws = \<lparr>ws_send = (\<lambda>m. recorded (\<lambda>r. Sent m (case r of Inl _ \<Rightarrow> False | Inr _ \<Rightarrow> True)) (ws_send ws m)),
     ws_tick = beside (ws_tick ws), ws_now = ws_now ws \<circ> fst\<rparr>"

text \<open>The tasks that a client of the stream holds, and the last answer of the daemon; an answer that is
  no list of tasks counts as the empty one.\<close>

fun client_view :: "stream_event list \<Rightarrow> json option \<Rightarrow> json option" where
  "client_view [] v = v"
| "client_view (Sent m True # l) v =
     client_view l (case json_get ''active_tasks'' m of Some ts \<Rightarrow> Some ts | None \<Rightarrow> v)"
| "client_view (_ # l) v = client_view l v"

fun last_answer :: "stream_event list \<Rightarrow> active_task list option \<Rightarrow> active_task list option" where
  "last_answer [] v = v"
| "last_answer (Answered r # l) v = last_answer l (Some (case r of Inr (RProgress ts) \<Rightarrow> ts | _ \<Rightarrow> []))"
| "last_answer (_ # l) v = last_answer l v"

lemma client_view_append: "client_view (l @ l') v = client_view l' (client_view l v)"
  by (induction l v rule: client_view.induct) auto

lemma last_answer_append: "last_answer (l @ l') v = last_answer l' (last_answer l v)"
  by (induction l v rule: last_answer.induct) auto

text \<open>What a client holds is printed as the text that the stream compares with, and so is the last answer.\<close>

definition in_step :: "(json \<Rightarrow> string) \<Rightarrow> stream_event list \<Rightarrow> string \<Rightarrow> bool" where
  "in_step pr l t = (\<exists>v ts. client_view l None = Some v \<and> last_answer l None = Some ts \<and> pr v = t \<and>
     pr (tasks_json ts) = t)"

lemma poll_tasks_run:
  assumes "poll_tasks (watched_studio su) (w, l) = Some (r, w', l')"
  obtains a where "l' = l @ [Answered a]" "r = Inr (case a of Inr (RProgress ts) \<Rightarrow> ts | _ \<Rightarrow> [])"
  using assms by (auto simp: poll_tasks_def watched_studio_def recorded_def bindE_io attempt_io ret_io)

lemma stream_send_run:
  assumes "stream_send (watched_socket ws) kind run ms (w, l) = Some (r, w', l')"
  obtains now ok where "l' = l @ [Sent (stream_message kind run now ms) ok]" "r = Inr ok"
  using assms by (auto simp: stream_send_def watched_socket_def recorded_def bindE_io attempt_io ret_io gets_io)

lemma watched_tick:
  "ws_tick (watched_socket ws) (w, l) = Some (x, w', l') \<longleftrightarrow> ws_tick ws w = Some (x, w') \<and> l' = l"
  by (auto simp: watched_socket_def beside_def)

lemma tick_run:
  assumes "stream_tick (watched_studio su) (watched_socket ws) run (t, k) (w, l) = Some (Inr (Some (t', k')), w', l')"
  obtains a ts where "ts = (case a of Inr (RProgress ts) \<Rightarrow> ts | _ \<Rightarrow> [])" "t' = su_print su (tasks_json ts)"
    "if t \<noteq> t' then \<exists>now. l' = l @ [Answered a, Sent (stream_message ''DELTA'' run now [(''active_tasks'', tasks_json ts)]) True]
     else l' = l @ [Answered a] \<or> (\<exists>now. l' = l @ [Answered a, Sent (stream_message ''HEARTBEAT'' run now []) True])"
proof -
  let ?su = "watched_studio su" and ?ws = "watched_socket ws"
  have pr: "su_print ?su = su_print su" by (simp add: watched_studio_def)
  from assms obtain w1 w2 l2 r where "ws_tick ?ws (w, l) = Some (Inr (), w1, l)"
    and poll: "poll_tasks ?su (w1, l) = Some (Inr r, w2, l2)"
    and rest: "(let current = su_print su (tasks_json r) in
      if t \<noteq> current then bindE (stream_send ?ws ''DELTA'' run [(''active_tasks'', tasks_json r)])
        (\<lambda>ok. ret (if ok then Some (current, k + 1) else None))
      else if 10 dvd (k + 1) then bindE (stream_send ?ws ''HEARTBEAT'' run [])
        (\<lambda>ok. ret (if ok then Some (t, k + 1) else None))
      else ret (Some (t, k + 1))) (w2, l2) = Some (Inr (Some (t', k')), w', l')"
    by (auto simp: stream_tick_def pr bindE_io watched_tick)
  from poll obtain a where a: "l2 = l @ [Answered a]" "r = (case a of Inr (RProgress ts) \<Rightarrow> ts | _ \<Rightarrow> [])"
    by (rule poll_tasks_run) auto
  show thesis
  proof (cases "t = su_print su (tasks_json r)")
    case False
    with rest have t': "t' = su_print su (tasks_json r)"
      and "stream_send ?ws ''DELTA'' run [(''active_tasks'', tasks_json r)] (w2, l2) = Some (Inr True, w', l')"
      by (auto simp: Let_def bindE_io ret_io split: if_splits)
    from this(2) obtain now where "l' = l2 @ [Sent (stream_message ''DELTA'' run now [(''active_tasks'', tasks_json r)]) True]"
      by (rule stream_send_run) auto
    then show thesis using a(1) False t' by (intro that [OF a(2) t']) auto
  next
    case True
    show thesis
    proof (cases "10 dvd (k + 1)")
      case dvd: True
      with rest True have "t' = t" and "stream_send ?ws ''HEARTBEAT'' run [] (w2, l2) = Some (Inr True, w', l')"
        by (auto simp: Let_def bindE_io ret_io split: if_splits)
      from this(2) obtain now where "l' = l2 @ [Sent (stream_message ''HEARTBEAT'' run now []) True]"
        by (rule stream_send_run) auto
      then show thesis using a(1) True \<open>t' = t\<close> by (intro that [OF a(2)]) auto
    next
      case False
      with rest True have "t' = t" "l' = l2" by (auto simp: Let_def ret_io)
      with a(1) True show thesis by (auto intro: that [OF a(2)])
    qed
  qed
qed

lemma tick_in_step:
  assumes "stream_tick (watched_studio su) (watched_socket ws) run (t, k) (w, l) = Some (Inr (Some (t', k')), w', l')"
  shows "prefix l l' \<and> (in_step (su_print su) l t \<longrightarrow> in_step (su_print su) l' t')"
proof -
  from assms obtain a ts where "ts = (case a of Inr (RProgress ts) \<Rightarrow> ts | _ \<Rightarrow> [])" "t' = su_print su (tasks_json ts)"
    "if t \<noteq> t' then \<exists>now. l' = l @ [Answered a, Sent (stream_message ''DELTA'' run now [(''active_tasks'', tasks_json ts)]) True]
     else l' = l @ [Answered a] \<or> (\<exists>now. l' = l @ [Answered a, Sent (stream_message ''HEARTBEAT'' run now []) True])"
    by (rule tick_run)
  then show ?thesis
    by (auto simp: in_step_def client_view_append last_answer_append stream_message_def json_get_def split: if_splits)
qed

lemma ticks_in_step:
  assumes "stream_ticks (watched_studio su) (watched_socket ws) run n (t, k) (w, l) = Some (Inr (Some (t', k')), w', l')"
  shows "prefix l l' \<and> (in_step (su_print su) l t \<longrightarrow> in_step (su_print su) l' t')"
  using assms
proof (induction n arbitrary: t k w l)
  case 0
  then show ?case by (simp add: ret_io)
next
  case (Suc n)
  then obtain t1 k1 w1 l1
    where one: "stream_tick (watched_studio su) (watched_socket ws) run (t, k) (w, l) = Some (Inr (Some (t1, k1)), w1, l1)"
      and rest: "stream_ticks (watched_studio su) (watched_socket ws) run n (t1, k1) (w1, l1) = Some (Inr (Some (t', k')), w', l')"
    by (auto simp: bindE_io ret_io split: option.splits)
  from tick_in_step [OF one] Suc.IH [OF rest] show ?case by (blast intro: prefix_order.trans)
qed

text \<open>C15: As long as a stream whose first message was sent is open, its client holds what the daemon
  answered last: the tasks of the last message that has some are printed as those of the last
  answer are. An answer that is no list of tasks, or none at all, is shown as no tasks.\<close>

theorem stream_current:
  assumes "handle_socket (watched_studio su) (watched_socket ws) run n (w, []) = Some (Inr (Some st), w', l)"
    and "l ! 1 = Sent m True"
  shows "\<exists>v ts. client_view l None = Some v \<and> last_answer l None = Some ts \<and>
    su_print su v = su_print su (tasks_json ts)"
proof -
  let ?su = "watched_studio su" and ?ws = "watched_socket ws"
  obtain t' k' where st: "st = (t', k')" by (cases st)
  from assms(1) obtain r w1 l1 b w2 l2 where poll: "poll_tasks ?su (w, []) = Some (Inr r, w1, l1)"
    and send: "stream_send ?ws ''SNAPSHOT'' run [(''active_tasks'', tasks_json r)] (w1, l1) = Some (Inr b, w2, l2)"
    and rest: "stream_ticks ?su ?ws run n (su_print su (tasks_json r), 0) (w2, l2) = Some (Inr (Some (t', k')), w', l)"
    by (auto simp: handle_socket_def bindE_io st) (auto simp: watched_studio_def)
  from poll obtain a where a: "l1 = [Answered a]" "r = (case a of Inr (RProgress ts) \<Rightarrow> ts | _ \<Rightarrow> [])"
    by (rule poll_tasks_run) auto
  from send obtain now ok where s: "l2 = [Answered a, Sent (stream_message ''SNAPSHOT'' run now [(''active_tasks'', tasks_json r)]) ok]"
    by (rule stream_send_run) (use a(1) in auto)
  note steps = ticks_in_step [OF rest]
  then have "ok" using s assms(2) by (auto simp: prefix_def)
  then have "in_step (su_print su) l2 (su_print su (tasks_json r))"
    using s a(2) by (simp add: in_step_def stream_message_def json_get_def)
  with steps show ?thesis by (auto simp: in_step_def)
qed

text \<open>A daemon that answers with no tasks and then with one, and a stream of one round.\<close>

definition busy_task :: active_task where
  "busy_task = \<lparr>at_task_id = 9, at_blueprint_id = ''bp'', at_workflow_name = ''dev'', at_status = ''RUNNING'',
     at_started_at = None, at_elapsed_seconds = None, at_current_step = None, at_tmux_alive = True,
     at_session_name = None, at_suspended_reason = None, at_steps = []\<rparr>"

definition toy_studio :: "nat studio" where
  "toy_studio = \<lparr>su_client = \<lparr>cl_ask = (\<lambda>_ _ k. Some (Inr (RProgress (if k = 0 then [] else [busy_task])), k + 1)),
       cl_ensure = (\<lambda>_. ret ())\<rparr>,
     su_token = ''t'', su_axum = \<lparr>ax_segment = Inr, ax_uuid = (\<lambda>_. Inr 9), ax_query = Inr, ax_json = (\<lambda>_. Inr JNull),
       ax_data_error = 422, ax_upgrade = (\<lambda>_. Inr ())\<rparr>, su_asset = (\<lambda>n. n),
     su_print = (\<lambda>v. case v of JArr [] \<Rightarrow> ''none'' | _ \<Rightarrow> ''some'')\<rparr>"

definition toy_socket :: "nat web_socket" where
  "toy_socket = \<lparr>ws_send = (\<lambda>_. ret ()), ws_tick = ret (), ws_now = (\<lambda>_. ''now'')\<rparr>"

lemma stream_current_witness:
  "\<exists>st w' l v ts. handle_socket (watched_studio toy_studio) (watched_socket toy_socket) ''r'' 1 (0, []) = Some (Inr (Some st), w', l) \<and>
     client_view l None = Some v \<and> last_answer l None = Some ts \<and>
     su_print toy_studio v = su_print toy_studio (tasks_json ts)"
proof -
  have "\<exists>st w' l m. handle_socket (watched_studio toy_studio) (watched_socket toy_socket) ''r'' 1 (0, []) = Some (Inr (Some st), w', l) \<and>
      l ! 1 = Sent m True"
    by (simp add: handle_socket_def poll_tasks_def stream_send_def stream_tick_def watched_studio_def watched_socket_def
        toy_studio_def toy_socket_def recorded_def beside_def bindE_def attempt_def ret_def gets_def tasks_json_def Let_def)
  then obtain st w' l m where run: "handle_socket (watched_studio toy_studio) (watched_socket toy_socket) ''r'' 1 (0, []) = Some (Inr (Some st), w', l)"
    and "l ! 1 = Sent m True" by blast
  from run stream_current [OF this] show ?thesis by blast
qed

text \<open>A dispatch without a token.\<close>

lemma studio_needs_token_witness:
  "studio_serve toy_studio \<lparr>hr_method = Post, hr_segments = [''api'', ''v1'', ''dispatch''], hr_query = None,
     hr_headers = Map.empty, hr_body = ''{}''\<rparr> 0 = Some (Inr (Reply 401 Nothing), 0)"
proof -
  let ?hr = "\<lparr>hr_method = Post, hr_segments = [''api'', ''v1'', ''dispatch''], hr_query = None, hr_headers = Map.empty,
    hr_body = ''{}''\<rparr>"
  have "route_of (hr_segments ?hr) = Some Dispatch_route" by code_simp
  moreover have "\<not> authorized toy_studio ?hr" by (simp add: authorized_def)
  ultimately show ?thesis using studio_needs_token [where su = toy_studio and hr = ?hr and w = 0] by simp
qed

section \<open>The token is kept\<close>

lemma trim_uuid_simple: "trim (uuid_simple u) = uuid_simple u" "uuid_simple u \<noteq> []"
proof -
  show ne: "uuid_simple u \<noteq> []"
  proof
    assume "uuid_simple u = []"
    then have "length (uuid_simple u) = 0" by simp
    then show False by simp
  qed
  have hex: "byte c < 128 \<and> \<not> ws_ascii c" if "c \<in> set (uuid_simple u)" for c
    using uuid_simple_hex [OF that] by (auto simp: is_ascii_hexdigit_def is_digit_def ws_ascii_def)
  show "trim (uuid_simple u) = uuid_simple u"
    using ne hex [OF hd_in_set [OF ne]] hex [OF last_in_set [OF ne]] by (intro trim_plain(2)) auto
qed

text \<open>A start of the studio finds the token of the one before: it is not empty, and as long as the file is not
  touched every later start reads it again and writes nothing.\<close>

theorem auth_token_kept:
  assumes stores: "\<And>t w w'. m_write (tk_machine tk) file t w = Some (Inr (), w') \<Longrightarrow> tk_files tk w' file = Some (File t)"
    and chmod: "\<And>w r w'. tk_chmod tk file 384 w = Some (r, w') \<Longrightarrow> tk_files tk w' file = tk_files tk w file"
    and first: "ensure_auth_token tk file w = Some (Inr tok, w')"
    and kept: "tk_files tk v file = tk_files tk w' file"
  shows "tok \<noteq> [] \<and> ensure_auth_token tk file v = Some (Inr tok, v)"
proof -
  have read: "t \<noteq> [] \<and> ensure_auth_token tk file v = Some (Inr t, v)"
    if "read_to_string (tk_files tk v) file = Some c" "trim c = t" "t \<noteq> []" for c t
    using that by (simp add: ensure_auth_token_def bindE_def gets_def ret_def)
  show ?thesis
  proof (cases "case read_to_string (tk_files tk w) file of Some t \<Rightarrow> trim t \<noteq> [] | None \<Rightarrow> False")
    case True
    then obtain c where c: "read_to_string (tk_files tk w) file = Some c" "trim c \<noteq> []" by (auto split: option.splits)
    then have "w' = w" "tok = trim c" using first by (auto simp: ensure_auth_token_def bindE_def gets_def ret_def)
    then show ?thesis using c kept read by (auto simp: read_to_string_def)
  next
    case False
    then obtain u w1 w2 x where "m_write (tk_machine tk) file (uuid_simple u) w1 = Some (Inr (), w2)"
      "tk_chmod tk file 384 w2 = Some (x, w')" "tok = uuid_simple u"
      using first by (auto simp: ensure_auth_token_def bindE_io gets_io attempt_io ret_io Let_def split: if_splits)
    then have "read_to_string (tk_files tk v) file = Some tok" "trim tok = tok" "tok \<noteq> []"
      using stores chmod kept by (auto simp: read_to_string_def trim_uuid_simple)
    then show ?thesis using read by blast
  qed
qed

end
