(* ===== verification/Cli.thy ===== *)
theory Cli
  imports Client Harvest Recipe Cognitive
begin

text \<open>
  The command line, \<open>src/janus/src/bin/janus.rs\<close>: every command, what it asks the daemon, what it
  prints, and the files that \<open>init\<close> and \<open>plan\<close> write. The arguments are given as clap parses them;
  file system, processes, HTTP, the toml crate and the texts of errors are parameters.

  \<open>cli_asks_its_request\<close> says what each command may ask the daemon, \<open>init_stuck\<close> that a first
  initialisation without templates spoils the project, \<open>plan_writes_valid\<close> what \<open>plan\<close> writes.
\<close>

section \<open>The outside\<close>

record 'w cli =
  ci_client :: "'w client"
  ci_out :: "string \<Rightarrow> 'w \<Rightarrow> 'w"
  ci_err :: "string \<Rightarrow> 'w \<Rightarrow> 'w"
  ci_files :: "'w \<Rightarrow> fs"
  ci_create_dir_all :: "string \<Rightarrow> (string, 'w, unit) io"
  ci_write :: "string \<Rightarrow> string \<Rightarrow> (string, 'w, unit) io"
  ci_copy :: "string \<Rightarrow> string \<Rightarrow> (string, 'w, unit) io"
  ci_read_dir :: "string \<Rightarrow> (string, 'w, string list) io"
  ci_canonicalize :: "string \<Rightarrow> 'w \<Rightarrow> string option"
  ci_env :: env
  ci_current_dir :: "string option"
  ci_current_exe :: "string option"
  ci_toml :: toml_parsers
  ci_dag_toml :: "string \<Rightarrow> dag_config option"
  ci_toml_table :: "string \<Rightarrow> json option"
  ci_show_error :: "recipe_error \<Rightarrow> string"
  ci_show_dag :: "dag_error \<Rightarrow> string"
  ci_show_response :: "response \<Rightarrow> string"
  ci_pretty :: "json \<Rightarrow> string option"
  ci_new_uuid :: "(string, 'w, uuid) io"
  ci_tmux :: "'w backend"
  ci_run :: "string \<Rightarrow> string list \<Rightarrow> (string, 'w, bool \<times> string) io"
  ci_spawn :: "string \<Rightarrow> string list \<Rightarrow> (string, 'w, nat) io"
  ci_post :: "string \<Rightarrow> (string \<times> string) list \<Rightarrow> nat \<Rightarrow> json \<Rightarrow> (string, 'w, string + json) io"

definition say :: "'w cli \<Rightarrow> string \<Rightarrow> (string, 'w, unit) io" where
  "say ci line = modify (ci_out ci line)"

definition says :: "'w cli \<Rightarrow> string list \<Rightarrow> (string, 'w, unit) io" where
  "says ci ls = modify (fold (ci_out ci) ls)"

text \<open>\<open>?\<close> on a value.\<close>

definition lift_or :: "('e \<Rightarrow> string) \<Rightarrow> 'e + 'a \<Rightarrow> (string, 'w, 'a) io" where
  "lift_or show r = (case r of Inl e \<Rightarrow> fail (show e) | Inr x \<Rightarrow> ret x)"

text \<open>The same for a function that may panic.\<close>

definition lift_may :: "('e \<Rightarrow> string) \<Rightarrow> ('e + 'a) option \<Rightarrow> (string, 'w, 'a) io" where
  "lift_may show r w = (case r of None \<Rightarrow> None | Some x \<Rightarrow> lift_or show x w)"

fun each :: "('a \<Rightarrow> (string, 'w, unit) io) \<Rightarrow> 'a list \<Rightarrow> (string, 'w, unit) io" where
  "each f [] = ret ()"
| "each f (x # xs) = bindE (f x) (\<lambda>_. each f xs)"

definition in_quotes :: "string \<Rightarrow> string" where
  "in_quotes s = [CHR 0x27] @ s @ [CHR 0x27]"

definition arrow :: string where "arrow = [CHR 0xE2, CHR 0x86, CHR 0x92]"
definition rocket :: string where "rocket = [CHR 0xF0, CHR 0x9F, CHR 0x9A, CHR 0x80]"

section \<open>Asking the daemon\<close>

definition need_daemon :: "'w cli \<Rightarrow> (string, 'w, unit) io" where
  "need_daemon ci =
     bindE (attempt (cl_ensure (ci_client ci) 5000)) (\<lambda>r. case r of
         Inr _ \<Rightarrow> ret ()
       | Inl e \<Rightarrow> fail (''janus-daemon not reachable: '' @ e @ [newline] @ ''  start it with `janus daemon`''))"

text \<open>The answers that a command does not expect.\<close>

definition unexpected :: "'w cli \<Rightarrow> response \<Rightarrow> (string, 'w, 'a) io" where
  "unexpected ci resp = (case resp of
       RError message \<Rightarrow> fail message
     | other \<Rightarrow> fail (''unexpected daemon response: '' @ ci_show_response ci other))"

definition ask_daemon :: "'w cli \<Rightarrow> request \<Rightarrow> (response \<Rightarrow> (string, 'w, unit) io) \<Rightarrow> (string, 'w, unit) io" where
  "ask_daemon ci req f = bindE (need_daemon ci) (\<lambda>_. bindE (ask (ci_client ci) req) f)"

definition harvest_list :: "'w cli \<Rightarrow> (string, 'w, unit) io" where
  "harvest_list ci = ask_daemon ci ListHarvestRefs (\<lambda>resp. case resp of
       RHarvestRefs refs \<Rightarrow>
         says ci (if refs = [] then [''No harvested sandbox refs found.'']
           else (''Harvested sandbox refs ('' @ dec (length refs) @ ''):'') # map (\<lambda>r. ''  '' @ r) refs)
     | other \<Rightarrow> unexpected ci other)"

definition harvest_apply :: "'w cli \<Rightarrow> string \<Rightarrow> (string, 'w, unit) io" where
  "harvest_apply ci ref_name = ask_daemon ci (ApplyHarvestRef ref_name) (\<lambda>resp. case resp of
       RHarvestApplied name applied \<Rightarrow>
         say ci (if applied then ''Successfully applied harvest ref '' @ in_quotes name @ '' to working tree.''
           else ''Failed to apply harvest ref '' @ in_quotes name @ ''.'')
     | other \<Rightarrow> unexpected ci other)"

definition status_lines :: "active_task list \<Rightarrow> string list" where
  "status_lines ts =
     (if ts = [] then [''No in-flight tasks.'']
      else (''In-flight tasks: '' @ dec (length ts)) # map (\<lambda>t.
        let dot = '' '' @ [CHR 0xC2, CHR 0xB7] @ '' '' in
        ''  ['' @ at_blueprint_id t @ ''] '' @ at_workflow_name t @ dot @ ''step '' @
        (case at_current_step t of Some s \<Rightarrow> s | None \<Rightarrow> ''-'') @ dot @ at_status t @ dot @
        (case at_elapsed_seconds t of Some s \<Rightarrow> dec_int s @ ''s'' | None \<Rightarrow> ''?'')) ts)"

definition progress_payload :: "active_task list \<Rightarrow> json" where
  "progress_payload ts = JObj [(''active_tasks'', JArr (map active_task_to_value ts))]"

definition cli_status :: "'w cli \<Rightarrow> string option \<Rightarrow> bool \<Rightarrow> (string, 'w, unit) io" where
  "cli_status ci blueprint json = ask_daemon ci (Progress blueprint) (\<lambda>resp. case resp of
       RProgress ts \<Rightarrow>
         if json then (case ci_pretty ci (progress_payload ts) of Some t \<Rightarrow> say ci t | None \<Rightarrow> fail ''json'')
         else says ci (status_lines ts)
     | other \<Rightarrow> unexpected ci other)"

text \<open>A request that is answered with a message, which is printed behind \<open>mark\<close>.\<close>

definition ask_ok :: "'w cli \<Rightarrow> request \<Rightarrow> string \<Rightarrow> (string, 'w, unit) io" where
  "ask_ok ci req mark = ask_daemon ci req (\<lambda>resp. case resp of
       ROk message \<Rightarrow> say ci (mark @ message) | other \<Rightarrow> unexpected ci other)"

definition lifecycle_cmd :: "'w cli \<Rightarrow> request \<Rightarrow> (string, 'w, unit) io" where
  "lifecycle_cmd ci req = ask_ok ci req []"

definition cli_stop :: "'w cli \<Rightarrow> string option \<Rightarrow> uuid option \<Rightarrow> (string, 'w, unit) io" where
  "cli_stop ci blueprint task_id =
     ask_ok ci (Stop blueprint task_id) ([CHR 0xF0, CHR 0x9F, CHR 0x9B, CHR 0x91] @ '' '')"

definition cli_continue :: "'w cli \<Rightarrow> string option \<Rightarrow> uuid option \<Rightarrow> (string, 'w, unit) io" where
  "cli_continue ci blueprint task_id =
     ask_ok ci (Continue blueprint task_id) ([CHR 0xF0, CHR 0x9F, CHR 0x94, CHR 0x84] @ '' '')"

section \<open>Start\<close>

definition cli_repo_root :: "'w cli \<Rightarrow> 'w \<Rightarrow> string" where
  "cli_repo_root ci w = repo_root (ci_env ci) (ci_current_dir ci) (file_exists (ci_files ci w))"

text \<open>The default workflow of the blueprint, if it can be read.\<close>

definition dry_run_default :: "'w cli \<Rightarrow> fs \<Rightarrow> string \<Rightarrow> string option" where
  "dry_run_default ci fs root =
     (case read_blueprint_name (ci_toml ci) fs root of
        Inl _ \<Rightarrow> Some ''dev-flow''
      | Inr name \<Rightarrow> map_option (\<lambda>r. case r of Inl _ \<Rightarrow> ''dev-flow'' | Inr v \<Rightarrow> vr_default_workflow v)
          (recipe_validate (ci_toml ci) fs name root))"

definition or_dash :: "string option \<Rightarrow> string" where
  "or_dash c = (case c of Some s \<Rightarrow> s | None \<Rightarrow> ''-'')"

definition described :: "string option \<Rightarrow> string list" where
  "described d = (case d of Some s \<Rightarrow> [''  Description: '' @ s] | None \<Rightarrow> [])"

definition step_line :: "nat \<times> workflow_step \<Rightarrow> string" where
  "step_line = (\<lambda>(i, s). ''    '' @ dec (i + 1) @ ''. '' @ ws_name s @ '' ['' @ ws_agent s @ ''] -> '' @ or_dash (ws_command s))"

definition linear_lines :: "string \<Rightarrow> workflow \<Rightarrow> string list" where
  "linear_lines blueprint flow =
     [''Linear Workflow Dry-Run: '' @ wf_name flow, ''  Blueprint: '' @ blueprint] @ described (wf_description flow) @
     [''  Steps ('' @ dec (length (wf_steps flow)) @ ''):''] @ map step_line (enumerate 0 (wf_steps flow))"

definition node_lines :: "(string \<Rightarrow> workflow option) \<Rightarrow> dag_node \<Rightarrow> string list" where
  "node_lines reg n =
     (case reg (dn_workflow n) of
        Some flow \<Rightarrow> (''      - Node '' @ in_quotes (dn_id n) @ '' (inline steps):'') #
          map (\<lambda>s. ''          * '' @ ws_name s @ '' ['' @ ws_agent s @ ''] -> '' @ or_dash (ws_command s)) (wf_steps flow)
      | None \<Rightarrow> [''      - Node '' @ in_quotes (dn_id n) @ '' -> workflow '' @ in_quotes (dn_workflow n) @
          (if dn_needs n = [] then [] else '' (needs: '' @ join '', '' (dn_needs n) @ '')'')])"

definition level_lines :: "(string \<Rightarrow> workflow option) \<Rightarrow> nat \<times> dag_node list \<Rightarrow> string list" where
  "level_lines reg = (\<lambda>(i, ns). (''    Level '' @ dec (i + 1) @ '':'') # concat (map (node_lines reg) ns))"

definition dry_run_unified :: "'w cli \<Rightarrow> string \<Rightarrow> unified_workflow \<Rightarrow> (string, 'w, unit) io" where
  "dry_run_unified ci blueprint u =
     (case u of
        Linear flow \<Rightarrow> says ci (linear_lines blueprint flow)
      | Dag_workflow config reg \<Rightarrow>
          bindE (says ci ([''DAG Workflow Execution Plan Dry-Run: '' @ dc_name config, ''  Blueprint: '' @ blueprint] @
            described (dc_description config))) (\<lambda>_.
          bindE (lift_may (ci_show_dag ci) (dag_plan config)) (\<lambda>levels.
          says ci ((''  Levels ('' @ dec (length levels) @ '' total):'') #
            concat (map (level_lines reg) (enumerate 0 levels))))))"

definition dry_run_workflow :: "'w cli \<Rightarrow> string \<Rightarrow> string \<Rightarrow> (string, 'w, unit) io" where
  "dry_run_workflow ci blueprint name w =
     bindE (lift_may (ci_show_error ci) (load_unified_workflow (ci_toml ci) (ci_files ci w) name (cli_repo_root ci w)))
       (dry_run_unified ci blueprint) w"

definition dry_run :: "'w cli \<Rightarrow> string \<Rightarrow> string option \<Rightarrow> string option \<Rightarrow> (string, 'w, unit) io" where
  "dry_run ci blueprint wn cmd =
     (case (wn, cmd) of
        (Some name, _) \<Rightarrow> dry_run_workflow ci blueprint name
      | (None, Some c) \<Rightarrow> says ci [''Linear Workflow Dry-Run (Inline Command):'', ''  Blueprint: '' @ blueprint,
          ''  Step 1 (run) [builder] -> '' @ c]
      | (None, None) \<Rightarrow>
          bindE (\<lambda>w. map_option (\<lambda>n. (Inr n, w)) (dry_run_default ci (ci_files ci w) (cli_repo_root ci w)))
            (dry_run_workflow ci blueprint))"

definition cli_start :: "'w cli \<Rightarrow> string \<Rightarrow> string option \<Rightarrow> bool \<Rightarrow> string option \<Rightarrow> (string, 'w, unit) io" where
  "cli_start ci blueprint wn dry cmd =
     (if dry then dry_run ci blueprint wn cmd
      else ask_daemon ci (Dispatch blueprint wn cmd) (\<lambda>resp. case resp of
          RDispatch task_id \<Rightarrow> say ci (rocket @ '' Started blueprint '' @ in_quotes blueprint @ '' (task_id: '' @
            uuid_string task_id @ '')'')
        | other \<Rightarrow> unexpected ci other))"

section \<open>Sessions, daemon and studio\<close>

definition cli_daemon :: "'w cli \<Rightarrow> (string, 'w, unit) io" where
  "cli_daemon ci w =
     (case resolve_daemon_exe (ci_env ci) (ci_current_exe ci) (file_exists (ci_files ci w)) of
        Inl e \<Rightarrow> fail e w
      | Inr exe \<Rightarrow> bindE (ci_run ci exe []) (\<lambda>(ok, status).
          if ok then ret () else fail (''janus-daemon exited with '' @ status)) w)"

datatype tmux_cmd = Tmux_open string "string option" "string option" | Tmux_attach string | Tmux_list

definition cli_tmux :: "'w cli \<Rightarrow> tmux_cmd \<Rightarrow> (string, 'w, unit) io" where
  "cli_tmux ci cmd = (case cmd of
       Tmux_open command name cwd \<Rightarrow>
         bindE (case name of
             Some n \<Rightarrow> ret (SessionId n)
           | None \<Rightarrow> bindE (ci_new_uuid ci) (\<lambda>u. ret (new_for_task (uuid_string u)))) (\<lambda>i.
         bindE (create_session (ci_tmux ci) i command cwd) (\<lambda>_.
         say ci (''created session '' @ sid_str i @ '' (attach: janus tmux attach '' @ sid_str i @ '')'')))
     | Tmux_attach name \<Rightarrow> attach (ci_tmux ci) (SessionId name)
     | Tmux_list \<Rightarrow>
         bindE (list_sessions (ci_tmux ci)) (\<lambda>sessions.
         says ci (if sessions = [] then [''(no tmux sessions on -L '' @ TMUX_SOCKET @ '')''] else sessions)))"

definition studio_exe :: "'w cli \<Rightarrow> string" where
  "studio_exe ci = (case Option.bind (ci_current_exe ci) path_parent of
       Some p \<Rightarrow> path_join p ''janus-studio'' | None \<Rightarrow> ''janus-studio'')"

definition studio_cmd :: "'w cli \<Rightarrow> string \<Rightarrow> 16 word \<Rightarrow> bool \<Rightarrow> (string, 'w, unit) io" where
  "studio_cmd ci bind_addr port detach =
     (let port_text = dec (unat port); args = [''--bind'', bind_addr, ''--port'', port_text];
          url = ''http://'' @ bind_addr @ '':'' @ port_text in
      bindE (need_daemon ci) (\<lambda>_.
      if detach then
        bindE (with_context (''launch detached janus-studio binary (run '' @ in_quotes ''cargo build'' @ '' first?)'')
          (ci_spawn ci (studio_exe ci) args)) (\<lambda>pid.
        say ci (rocket @ '' MetaMach Studio launched in background (PID '' @ dec pid @ '') on '' @ url))
      else
        bindE (say ci (rocket @ '' Launching MetaMach Studio sidecar on '' @ url @ '' (Press Ctrl+C to stop)...'')) (\<lambda>_.
        bindE (with_context (''launch janus-studio binary (run '' @ in_quotes ''cargo build'' @ '' first?)'')
          (ci_run ci (studio_exe ci) args)) (\<lambda>(ok, status).
        if ok then ret () else fail (''janus-studio exited with status '' @ status)))))"

section \<open>Initialisation of a project\<close>

text \<open>\<open>Path::file_name\<close>: the last component, unless it is \<open>..\<close>.\<close>

definition file_name :: "string \<Rightarrow> string option" where
  "file_name p =
     (let parts = filter (\<lambda>c. c \<noteq> [] \<and> c \<noteq> ''.'') (split_on (CHR ''/'') [] p) in
      if parts = [] \<or> last parts = ''..'' then None else Some (last parts))"

definition folder_name :: "'w cli \<Rightarrow> string + string" where
  "folder_name ci =
     (case ci_current_dir ci of
        None \<Rightarrow> Inl ''get current working directory''
      | Some cwd \<Rightarrow> (case file_name cwd of
          Some n \<Rightarrow> if valid_utf8 n then Inr n else Inl ''cannot derive blueprint name from current directory''
        | None \<Rightarrow> Inl ''cannot derive blueprint name from current directory''))"

definition resolve_blueprint_name :: "'w cli \<Rightarrow> string option \<Rightarrow> string + string" where
  "resolve_blueprint_name ci bp =
     (case bp of Some name \<Rightarrow> if trim name \<noteq> [] then Inr name else folder_name ci | None \<Rightarrow> folder_name ci)"

text \<open>\<open>n\<close> bounds the depth of the tree.\<close>

fun copy_dir :: "'w cli \<Rightarrow> nat \<Rightarrow> string \<Rightarrow> string \<Rightarrow> (string, 'w, unit) io" where
  "copy_dir ci 0 src dst = (\<lambda>_. None)"
| "copy_dir ci (Suc n) src dst =
     bindE (ci_create_dir_all ci dst) (\<lambda>_.
     bindE (ci_read_dir ci src) (\<lambda>names.
     each (\<lambda>name.
       let src_path = path_join src name; dst_path = path_join dst name in
       bindE (gets (\<lambda>w. is_dir (ci_files ci w) src_path)) (\<lambda>dir.
       if dir then copy_dir ci n src_path dst_path else ci_copy ci src_path dst_path)) names))"

definition fresh_blueprint :: "string \<Rightarrow> string" where
  "fresh_blueprint name =
     ''[blueprint]'' @ [newline] @ ''name = '' @ [CHR 0x22] @ name @ [CHR 0x22, newline] @
     ''default_workflow = '' @ [CHR 0x22] @ ''req2spec'' @ [CHR 0x22, newline, newline] @
     ''[openwiki]'' @ [newline] @ ''scope = ['' @ [CHR 0x22] @ name @ [CHR 0x22] @ '']'' @ [newline]"

definition underscored :: "string \<Rightarrow> string" where
  "underscored = map (\<lambda>c. if c = CHR ''-'' then CHR ''_'' else c)"

definition copy_templates :: "'w cli \<Rightarrow> nat \<Rightarrow> string \<Rightarrow> string \<Rightarrow> string \<Rightarrow> (string, 'w, unit) io" where
  "copy_templates ci n templates_root janus_dir what =
     (let src = path_join templates_root what in
      bindE (gets (\<lambda>w. is_dir (ci_files ci w) src)) (\<lambda>dir.
      if dir then
        bindE (copy_dir ci n src (path_join janus_dir what)) (\<lambda>_.
        say ci (''   '' @ what @ ''/ '' @ arrow @ '' .janus/'' @ what @ ''/''))
      else ret ()))"

definition scaffold :: "'w cli \<Rightarrow> nat \<Rightarrow> string \<Rightarrow> string \<Rightarrow> (string, 'w, unit) io" where
  "scaffold ci n source root =
     (let janus_dir = path_join root ''.janus''; templates_root = path_join source ''templates'' in
      bindE (ci_create_dir_all ci janus_dir) (\<lambda>_.
      bindE (gets (\<lambda>w. file_exists (ci_files ci w) templates_root)) (\<lambda>present.
      if \<not> present then fail (''templates/ not found at '' @ templates_root @ ''. Is MetaMach installed?'')
      else
        let bp_src = path_join templates_root ''blueprint.toml''; bp_dst = path_join janus_dir ''blueprint.toml'' in
        bindE (gets (\<lambda>w. file_exists (ci_files ci w) bp_src)) (\<lambda>has_bp.
        bindE (if has_bp then
            bindE (ci_copy ci bp_src bp_dst) (\<lambda>_. say ci (''   blueprint.toml '' @ arrow @ '' .janus/blueprint.toml''))
          else
            let name = underscored (case file_name root of Some f \<Rightarrow> from_utf8_lossy f | None \<Rightarrow> ''my_project'') in
            bindE (ci_write ci bp_dst (fresh_blueprint name)) (\<lambda>_.
            say ci (''   blueprint.toml '' @ arrow @ '' .janus/blueprint.toml (auto-generated)''))) (\<lambda>_.
        bindE (copy_templates ci n templates_root janus_dir ''agents'') (\<lambda>_.
        bindE (copy_templates ci n templates_root janus_dir ''workflows'') (\<lambda>_.
        ci_create_dir_all ci (path_join janus_dir ''openwiki''))))))))"

text \<open>What follows the scaffold: the blueprint is validated and registered.\<close>

definition check_and_register :: "'w cli \<Rightarrow> string \<Rightarrow> bool \<Rightarrow> (string, 'w, unit) io" where
  "check_and_register ci root dry =
     bindE (\<lambda>w. lift_or (ci_show_error ci) (read_blueprint_name (ci_toml ci) (ci_files ci w) root) w) (\<lambda>name.
     bindE (with_context (''blueprint validation failed for '' @ in_quotes name)
       (\<lambda>w. lift_may (ci_show_error ci) (recipe_validate (ci_toml ci) (ci_files ci w) name root) w)) (\<lambda>recipe.
     bindE (says ci [[], [CHR 0xE2, CHR 0x9C, CHR 0x85] @ '' Blueprint validated: '' @ name,
       ''   Default workflow: '' @ vr_default_workflow recipe,
       ''   OpenWiki scope: '' @ join '', '' (vr_openwiki_scope recipe)]) (\<lambda>_.
     if dry then says ci [newline # ''   (dry-run: skipping daemon registration)'',
       ''   Run '' @ in_quotes ''janus init'' @ '' without --dry-run to register with the daemon.'']
     else ask_daemon ci (Onboard name) (\<lambda>resp. case resp of
         ROk message \<Rightarrow> says ci [''   '' @ message, [], ''Next steps:'',
           ''  1. Edit .janus/workflows/ to define your workflow'',
           ''  2. Dry-run:  janus start --dry-run'', ''  3. Execute:  janus start'']
       | other \<Rightarrow> unexpected ci other))))"

definition init_project :: "'w cli \<Rightarrow> nat \<Rightarrow> string \<Rightarrow> bool \<Rightarrow> (string, 'w, unit) io" where
  "init_project ci n path dry =
     bindE (gets (cli_repo_root ci)) (\<lambda>source.
     bindE (gets (\<lambda>w. case ci_canonicalize ci path w of Some p \<Rightarrow> p | None \<Rightarrow> path)) (\<lambda>root.
     bindE (gets (\<lambda>w. file_exists (ci_files ci w) (path_join root ''.janus''))) (\<lambda>already.
     bindE (if already then modify (ci_err ci (''.janus/ already exists at '' @ path_join root ''.janus'' @ '' '' @
         [CHR 0xE2, CHR 0x80, CHR 0x94] @ '' validating existing blueprint.''))
       else scaffold ci n source root) (\<lambda>_.
     check_and_register ci root dry))))"

section \<open>Planning\<close>

text \<open>\<open>extension\<close> is \<open>toml\<close>.\<close>

definition toml_file :: "string \<Rightarrow> bool" where
  "toml_file name = (suffix ''.toml'' name \<and> length name > 5)"

definition table_text :: "string \<Rightarrow> json \<Rightarrow> string option" where
  "table_text k v = Option.bind (Option.bind (json_get ''workflow'' v) (json_get k)) as_str"

definition catalog_entry :: "'w cli \<Rightarrow> fs \<Rightarrow> string \<Rightarrow> (string \<times> string) list" where
  "catalog_entry ci fs path =
     (case Option.bind (read_to_string fs path) (ci_toml_table ci) of
        None \<Rightarrow> []
      | Some v \<Rightarrow> [(case table_text ''name'' v of Some n \<Rightarrow> n | None \<Rightarrow> ''?'',
          case table_text ''description'' v of Some d \<Rightarrow> d | None \<Rightarrow> ''(no description)'')])"

definition catalog_dir :: "'w cli \<Rightarrow> string \<Rightarrow> (string, 'w, (string \<times> string) list) io" where
  "catalog_dir ci dir =
     bindE (attempt (ci_read_dir ci dir)) (\<lambda>r.
     gets (\<lambda>w. case r of
         Inl _ \<Rightarrow> []
       | Inr names \<Rightarrow> concat (map (\<lambda>n. catalog_entry ci (ci_files ci w) (path_join dir n)) (filter toml_file names))))"

definition discover_workflows :: "'w cli \<Rightarrow> string \<Rightarrow> (string, 'w, (string \<times> string) list) io" where
  "discover_workflows ci root =
     bindE (catalog_dir ci (path_join root ''templates/workflows'')) (\<lambda>a.
     bindE (catalog_dir ci (path_join root ''workflows'')) (\<lambda>b. ret (a @ b)))"

definition planner_prompt :: "(string \<times> string) list \<Rightarrow> string \<Rightarrow> string" where
  "planner_prompt catalog description =
     ''You are a MetaMach Workflow architect. Given the following Workflow '' @
     ''library and a natural-language description, generate a valid Unified Workflow DAG '' @
     ''TOML file using [workflow] header (name, description) and [[nodes]] array (id, workflow or steps = [...], needs).'' @
     [newline, newline] @ ''## Available Workflows'' @ [newline] @
     join [newline] (map (\<lambda>(n, d). ''- '' @ n @ '' ('' @ d @ '')'') catalog) @
     [newline, newline] @ ''## Request'' @ [newline] @ description @ [newline, newline] @
     ''Output ONLY the TOML, no explanation.''"

definition var_or :: "env \<Rightarrow> string \<Rightarrow> string \<Rightarrow> string" where
  "var_or env k d = (case env k of Some v \<Rightarrow> v | None \<Rightarrow> d)"

definition planner_body :: "string \<Rightarrow> string \<Rightarrow> json" where
  "planner_body model prompt =
     JObj [(''model'', JStr model), (''max_tokens'', JInt 2048), (''messages'', JArr
       [JObj [(''role'', JStr ''system''),
          (''content'', JStr ''You are a Workflow architect. Output valid Unified Workflow TOML only.'')],
        JObj [(''role'', JStr ''user''), (''content'', JStr prompt)]])]"

definition planned_text :: "json \<Rightarrow> string option" where
  "planned_text v = Option.bind (Option.bind (Option.bind (Option.bind (json_get ''choices'' v) (json_index 0))
     (json_get ''message'')) (json_get ''content'')) as_str"

text \<open>What the model answers to the request.\<close>

definition ask_planner :: "'w cli \<Rightarrow> string \<Rightarrow> (string, 'w, json) io" where
  "ask_planner ci prompt =
     (let env = ci_env ci;
          endpoint = var_or env ''JANUS_PLANNER_ENDPOINT'' ''https://ark.cn-beijing.volces.com/api/coding/v3/responses'';
          model = var_or env ''JANUS_PLANNER_MODEL'' ''deepseek-v4-pro-260425'' in
      case (case env ''JANUS_PLANNER_API_KEY'' of Some k \<Rightarrow> Some k | None \<Rightarrow> env ''ZAI_CODING_CN_API_KEY'') of
        None \<Rightarrow> fail ''JANUS_PLANNER_API_KEY or ZAI_CODING_CN_API_KEY not set''
      | Some api_key \<Rightarrow>
          bindE (map_err (\<lambda>e. ''LLM request failed: '' @ e) (ci_post ci endpoint
            [(''Authorization'', ''Bearer '' @ api_key), (''Content-Type'', ''application/json'')] 60
            (planner_body model prompt))) (\<lambda>resp.
          lift_or (\<lambda>e. ''parse LLM response: '' @ e) resp))"

definition plan_workflow :: "'w cli \<Rightarrow> string \<Rightarrow> string \<Rightarrow> string \<Rightarrow> (string, 'w, unit) io" where
  "plan_workflow ci name description root =
     bindE (discover_workflows ci root) (\<lambda>catalog.
     if catalog = [] then fail (''no workflows found in '' @ root @ ''/templates/workflows/'')
     else
       bindE (modify (ci_err ci (''Generating workflow for '' @ in_quotes name @ ''...''))) (\<lambda>_.
       bindE (ask_planner ci (planner_prompt catalog description)) (\<lambda>v.
       case planned_text v of
         None \<Rightarrow> fail ''LLM response missing content''
       | Some toml_text \<Rightarrow>
           (case ci_dag_toml ci toml_text of
              None \<Rightarrow> fail ''LLM generated invalid workflow TOML''
            | Some config \<Rightarrow>
                bindE (lift_may (\<lambda>_. ''LLM generated invalid workflow DAG'') (dag_validate config)) (\<lambda>_.
                let dir = path_join root ''.janus/workflows''; path = path_join dir (name @ ''.toml'') in
                bindE (ci_create_dir_all ci dir) (\<lambda>_.
                bindE (ci_write ci path toml_text) (\<lambda>_.
                say ci (''Workflow written to '' @ path))))))))"

section \<open>Every command\<close>

datatype harvest_cmd = Harvest_list | Harvest_apply string

datatype cli_command =
    Status_cmd "string option" bool
  | Daemon_cmd
  | Offboard_cmd "string option"
  | Start_cmd "string option" "string option" bool "string option"
  | Stop_cmd "string option" "uuid option"
  | Continue_cmd "string option" "uuid option"
  | Tmux_cmd tmux_cmd
  | Init_cmd string bool
  | Plan_cmd "string option" string
  | Studio_cmd string "16 word" bool
  | Harvest_cmd harvest_cmd

text \<open>The blueprint of \<open>stop\<close> and \<open>continue\<close>: none if only a task is named.\<close>

definition target_blueprint :: "'w cli \<Rightarrow> string option \<Rightarrow> uuid option \<Rightarrow> string + string option" where
  "target_blueprint ci bp task_id =
     (if bp \<noteq> None \<or> task_id = None then map_sum id Some (resolve_blueprint_name ci bp) else Inr None)"

fun cli_main :: "'w cli \<Rightarrow> nat \<Rightarrow> cli_command \<Rightarrow> (string, 'w, unit) io" where
  "cli_main ci n (Status_cmd bp json) = cli_status ci bp json"
| "cli_main ci n Daemon_cmd = cli_daemon ci"
| "cli_main ci n (Offboard_cmd bp) =
     bindE (lift_or id (resolve_blueprint_name ci bp)) (\<lambda>name. lifecycle_cmd ci (Offboard name))"
| "cli_main ci n (Start_cmd bp wn dry cmd) =
     bindE (lift_or id (resolve_blueprint_name ci bp)) (\<lambda>name. cli_start ci name wn dry cmd)"
| "cli_main ci n (Stop_cmd bp task_id) =
     bindE (lift_or id (target_blueprint ci bp task_id)) (\<lambda>b. cli_stop ci b task_id)"
| "cli_main ci n (Continue_cmd bp task_id) =
     bindE (lift_or id (target_blueprint ci bp task_id)) (\<lambda>b. cli_continue ci b task_id)"
| "cli_main ci n (Tmux_cmd cmd) = cli_tmux ci cmd"
| "cli_main ci n (Init_cmd path dry) = init_project ci n path dry"
| "cli_main ci n (Plan_cmd bp description) =
     bindE (lift_or id (resolve_blueprint_name ci bp)) (\<lambda>name.
     bindE (gets (cli_repo_root ci)) (\<lambda>root. plan_workflow ci name description root))"
| "cli_main ci n (Studio_cmd bind_addr port detach) = studio_cmd ci bind_addr port detach"
| "cli_main ci n (Harvest_cmd cmd) =
     (case cmd of Harvest_list \<Rightarrow> harvest_list ci | Harvest_apply r \<Rightarrow> harvest_apply ci r)"

section \<open>What a command asks\<close>

definition noting :: "'v list \<Rightarrow> ('e, 'w, 'a) io \<Rightarrow> ('e, 'w \<times> 'v list, 'a) io" where
  "noting us m = (\<lambda>(w, l). map_option (\<lambda>(r, w'). (r, w', l @ us)) (m w))"

lemma adds_noting: "P us \<Longrightarrow> adds P (noting us m)"
  by (auto simp: adds_def noting_def)

definition beside_backend :: "'b backend \<Rightarrow> ('b \<times> 'l) backend" where
  "beside_backend b = \<lparr>create_session = (\<lambda>i c d. beside (create_session b i c d)), attach = (\<lambda>i. beside (attach b i)),
     kill_session = (\<lambda>i. beside (kill_session b i)), has_session = (\<lambda>i. beside (has_session b i)),
     list_sessions = beside (list_sessions b), capture_pane = (\<lambda>i. beside (capture_pane b i)),
     poll_exit = (\<lambda>i. beside (poll_exit b i))\<rparr>"

text \<open>Requests and written files are logged.\<close>

definition logged_cli :: "(request \<Rightarrow> 'v list) \<Rightarrow> (string \<Rightarrow> string \<Rightarrow> 'v list) \<Rightarrow> 'w cli \<Rightarrow> ('w \<times> 'v list) cli" where
  "logged_cli fr fw ci =
     \<lparr>ci_client = \<lparr>cl_ask = (\<lambda>t q. noting (fr q) (cl_ask (ci_client ci) t q)),
        cl_ensure = (\<lambda>t. beside (cl_ensure (ci_client ci) t))\<rparr>,
      ci_out = (\<lambda>s. apfst (ci_out ci s)), ci_err = (\<lambda>s. apfst (ci_err ci s)), ci_files = ci_files ci \<circ> fst,
      ci_create_dir_all = (\<lambda>d. beside (ci_create_dir_all ci d)), ci_write = (\<lambda>f t. noting (fw f t) (ci_write ci f t)),
      ci_copy = (\<lambda>a b. beside (ci_copy ci a b)), ci_read_dir = (\<lambda>d. beside (ci_read_dir ci d)),
      ci_canonicalize = (\<lambda>f. ci_canonicalize ci f \<circ> fst), ci_env = ci_env ci, ci_current_dir = ci_current_dir ci,
      ci_current_exe = ci_current_exe ci, ci_toml = ci_toml ci, ci_dag_toml = ci_dag_toml ci,
      ci_toml_table = ci_toml_table ci, ci_show_error = ci_show_error ci, ci_show_dag = ci_show_dag ci,
      ci_show_response = ci_show_response ci, ci_pretty = ci_pretty ci, ci_new_uuid = beside (ci_new_uuid ci),
      ci_tmux = beside_backend (ci_tmux ci), ci_run = (\<lambda>p as. beside (ci_run ci p as)),
      ci_spawn = (\<lambda>p as. beside (ci_spawn ci p as)), ci_post = (\<lambda>u hs t b. beside (ci_post ci u hs t b))\<rparr>"

lemma logged_cli_ops:
  assumes "P []"
  shows "adds P (ci_create_dir_all (logged_cli fr fw ci) d)" "adds P (ci_copy (logged_cli fr fw ci) a b)"
    "adds P (ci_read_dir (logged_cli fr fw ci) d)" "adds P (ci_new_uuid (logged_cli fr fw ci))"
    "adds P (ci_run (logged_cli fr fw ci) p args)" "adds P (ci_spawn (logged_cli fr fw ci) p args)"
    "adds P (ci_post (logged_cli fr fw ci) u hs t json)" "adds P (cl_ensure (ci_client (logged_cli fr fw ci)) t)"
    "adds P (create_session (ci_tmux (logged_cli fr fw ci)) i c cwd)" "adds P (attach (ci_tmux (logged_cli fr fw ci)) i)"
    "adds P (list_sessions (ci_tmux (logged_cli fr fw ci)))" "adds P (modify (ci_err (logged_cli fr fw ci) line))"
  using assms by (auto simp: logged_cli_def beside_backend_def beside_def adds_def modify_def)

lemma logged_cli_write: "P (fw f t) \<Longrightarrow> adds P (ci_write (logged_cli fr fw ci) f t)"
  by (simp add: logged_cli_def adds_noting)

lemma logged_cli_ask: "P (fr q) \<Longrightarrow> adds P (cl_ask (ci_client (logged_cli fr fw ci)) t q)"
  by (simp add: logged_cli_def adds_noting)

lemma logged_fold: "snd (fold (ci_out (logged_cli fr fw ci)) ls x) = snd x"
  by (induction ls arbitrary: x) (auto simp: logged_cli_def)

lemma adds_modify:
  assumes "\<And>w l. snd (f (w, l)) = l" "P []"
  shows "adds P (modify f)"
  unfolding adds_def
proof (intro allI impI)
  fix w l r w' l'
  assume "modify f (w, l) = Some (r, w', l')"
  then have "l' = l" using assms(1) [of w l] by (simp add: modify_def)
  with assms(2) show "\<exists>us. l' = l @ us \<and> P us" by simp
qed

lemma says_quiet: "P [] \<Longrightarrow> adds P (says (logged_cli fr fw ci) ls)" and say_quiet: "P [] \<Longrightarrow> adds P (say (logged_cli fr fw ci) line)"
  using logged_fold [of fr fw ci ls] logged_fold [of fr fw ci "[line]"]
  by (auto simp: says_def say_def intro!: adds_modify)

lemma lift_quiet: "P [] \<Longrightarrow> adds P (lift_or show r)" "P [] \<Longrightarrow> adds P (lift_may show x)"
  by (auto simp: adds_def lift_or_def lift_may_def ret_io fail_io split: sum.splits option.splits)

lemma each_quiet: "(\<And>x. adds_only P (f x)) \<Longrightarrow> adds_only P (each f xs)"
  by (induction xs) (auto intro: adds_ret adds_only_bindE)

lemma context_quiet: "adds P m \<Longrightarrow> adds P (with_context c m)" "adds P m \<Longrightarrow> adds P (map_err f m)"
  by (auto simp: adds_def with_context_def map_err_def)

lemmas cli_quiet = logged_cli_ops says_quiet say_quiet lift_quiet context_quiet adds_ret adds_fail adds_gets adds_attempt

lemma unexpected_quiet: "P [] \<Longrightarrow> adds P (unexpected ci resp)"
  by (auto simp: unexpected_def intro: adds_fail split: response.split)

lemma need_daemon_quiet: "adds_only P (need_daemon (logged_cli fr fw ci))"
  unfolding need_daemon_def by (intro adds_only_bindE cli_quiet) (auto intro: adds_ret adds_fail split: sum.split)

lemma ask_daemon_one:
  assumes "\<And>resp. adds_none (f resp)" "P q"
  shows "adds_one P (ask_daemon (logged_cli (\<lambda>r. [r]) fw ci) q f)"
  unfolding ask_daemon_def ask_def
  by (intro adds_one_before need_daemon_quiet adds_one_after assms(1))
     (simp add: adds_one_def logged_cli_ask assms(2))

lemma ask_ok_one: "P q \<Longrightarrow> adds_one P (ask_ok (logged_cli (\<lambda>r. [r]) fw ci) q mark)"
  unfolding ask_ok_def by (auto intro!: ask_daemon_one cli_quiet unexpected_quiet split: response.split)

text \<open>A computation that reads the state first.\<close>

lemma adds_reads: "(\<And>w. m w = g w w) \<Longrightarrow> (\<And>v. adds P (g v)) \<Longrightarrow> adds P m"
  unfolding adds_def by metis

lemma dry_run_quiet: "adds_only P (dry_run (logged_cli fr fw ci) blueprint wn cmd)"
proof -
  let ?ci = "logged_cli fr fw ci"
  have unified: "adds_only P (dry_run_unified ?ci blueprint u)" for u
    by (cases u) (simp_all add: dry_run_unified_def adds_only_bindE says_quiet lift_quiet)
  have named: "adds_only P (dry_run_workflow ?ci blueprint name)" for name
    by (rule adds_reads [where g = "\<lambda>v. bindE (lift_may (ci_show_error ?ci)
        (load_unified_workflow (ci_toml ?ci) (ci_files ?ci v) name (cli_repo_root ?ci v))) (dry_run_unified ?ci blueprint)"])
       (simp_all add: dry_run_workflow_def adds_only_bindE lift_quiet unified)
  have "adds_only P (\<lambda>w. map_option (\<lambda>n. (Inr n, w)) (g w))" for g :: "_ \<Rightarrow> string option"
    by (auto simp: adds_def)
  then show ?thesis unfolding dry_run_def
    by (auto intro!: adds_only_bindE named says_quiet split: option.split)
qed

lemma copy_dir_quiet: "adds_only P (copy_dir (logged_cli fr fw ci) n src dst)"
proof (induction n arbitrary: src dst)
  case 0
  then show ?case by (simp add: adds_def)
next
  case (Suc n)
  show ?case unfolding copy_dir.simps Let_def
    by (intro adds_only_bindE each_quiet adds_if adds_gets logged_cli_ops Suc) simp_all
qed

lemma scaffold_adds:
  assumes "list_all P (fw (path_join (path_join root ''.janus'') ''blueprint.toml'')
    (fresh_blueprint (underscored (case file_name root of Some f \<Rightarrow> from_utf8_lossy f | None \<Rightarrow> ''my_project''))))"
  shows "adds_only P (scaffold (logged_cli fr fw ci) n source root)"
proof -
  let ?ci = "logged_cli fr fw ci"
  have copied: "adds_only P (copy_templates ?ci n t j what)" for t j what
    unfolding copy_templates_def Let_def
    by (intro adds_only_bindE adds_if adds_gets adds_ret say_quiet copy_dir_quiet) simp_all
  show ?thesis unfolding scaffold_def Let_def
    by (intro adds_only_bindE adds_if adds_gets adds_fail say_quiet logged_cli_ops logged_cli_write assms copied) simp_all
qed

lemma onboard_answer_quiet:
  "adds_none (case resp of ROk message \<Rightarrow> says (logged_cli fr fw ci) (ls message) | other \<Rightarrow> unexpected (logged_cli fr fw ci) other)"
  by (cases resp) (simp_all add: says_quiet unexpected_quiet)

lemma register_last_one:
  "adds_one (\<lambda>q. \<not> dry \<and> (\<exists>name. q = Onboard name)) (if dry then says (logged_cli (\<lambda>r. [r]) fw ci) ls
     else ask_daemon (logged_cli (\<lambda>r. [r]) fw ci) (Onboard name) (\<lambda>resp. case resp of
       ROk message \<Rightarrow> says (logged_cli (\<lambda>r. [r]) fw ci) (ls' message)
     | other \<Rightarrow> unexpected (logged_cli (\<lambda>r. [r]) fw ci) other))"
  by (cases dry) (simp_all add: adds_one_none says_quiet ask_daemon_one onboard_answer_quiet)

lemma lift_at_quiet: "P [] \<Longrightarrow> adds P (\<lambda>w. lift_or sh (g w) w)" "P [] \<Longrightarrow> adds P (\<lambda>w. lift_may sh (h w) w)"
  by (auto simp: adds_def lift_or_def lift_may_def ret_io fail_io split: sum.splits option.splits)

lemma register_one:
  "adds_one (\<lambda>q. \<not> dry \<and> (\<exists>name. q = Onboard name)) (check_and_register (logged_cli (\<lambda>r. [r]) fw ci) root dry)"
  unfolding check_and_register_def
  by (intro adds_one_before register_last_one says_quiet context_quiet(1) lift_at_quiet) simp_all

lemma init_one:
  "adds_one (\<lambda>q. \<not> dry \<and> (\<exists>name. q = Onboard name)) (init_project (logged_cli (\<lambda>r. [r]) (\<lambda>f t. []) ci) n path dry)"
proof -
  let ?ci = "logged_cli (\<lambda>r. [r]) (\<lambda>f t. []) ci"
  have "adds_none (scaffold ?ci n source root)" for source root by (rule scaffold_adds) simp
  then show ?thesis unfolding init_project_def
    by (intro adds_one_before register_one adds_gets adds_if logged_cli_ops) simp_all
qed

lemma lift_may_then:
  assumes "\<And>x. r = Some (Inr x) \<Longrightarrow> adds_only P (f x)"
  shows "adds_only P (bindE (lift_may sh r) f)"
proof (cases r)
  case None
  then show ?thesis by (simp add: adds_def bindE_def lift_may_def)
next
  case (Some x)
  then show ?thesis using assms
    by (cases x) (auto simp: adds_def bindE_def lift_may_def lift_or_def fail_def ret_def)
qed

text \<open>What \<open>plan\<close> writes.\<close>

lemma plan_adds:
  assumes "\<And>t config. ci_dag_toml ci t = Some config \<Longrightarrow> dag_validate config = Some (Inr ()) \<Longrightarrow>
    list_all P (fw (path_join (path_join root ''.janus/workflows'') (name @ ''.toml'')) t)"
  shows "adds_only P (plan_workflow (logged_cli fr fw ci) name description root)"
proof -
  let ?ci = "logged_cli fr fw ci"
  have dir: "adds_only P (catalog_dir ?ci d)" for d
    unfolding catalog_dir_def by (intro adds_only_bindE adds_attempt logged_cli_ops adds_gets) simp_all
  have planner: "adds_only P (ask_planner ?ci prompt)" for prompt
    unfolding ask_planner_def Let_def
    by (cases "case ci_env ?ci ''JANUS_PLANNER_API_KEY'' of Some k \<Rightarrow> Some k | None \<Rightarrow> ci_env ?ci ''ZAI_CODING_CN_API_KEY''")
       (simp_all add: adds_fail adds_only_bindE context_quiet(2) logged_cli_ops lift_quiet)
  have written: "adds_only P (bindE (lift_may sh (dag_validate config)) (\<lambda>_. bindE (ci_create_dir_all ?ci d) (\<lambda>_.
      bindE (ci_write ?ci (path_join (path_join root ''.janus/workflows'') (name @ ''.toml'')) t) (\<lambda>_. say ?ci line))))"
    if "ci_dag_toml ci t = Some config" for sh config d t line
    by (intro lift_may_then adds_only_bindE logged_cli_ops logged_cli_write say_quiet) (simp_all add: assms [OF that])
  have toml: "ci_dag_toml ?ci = ci_dag_toml ci" by (simp add: logged_cli_def)
  show ?thesis
    unfolding plan_workflow_def discover_workflows_def Let_def toml
    by (intro adds_only_bindE dir adds_ret adds_if adds_fail logged_cli_ops planner)
       (auto intro: adds_fail written split: option.split)
qed

text \<open>The request that a command stands for.\<close>

fun stands_for :: "'w cli \<Rightarrow> cli_command \<Rightarrow> request \<Rightarrow> bool" where
  "stands_for ci (Status_cmd bp json) q = (q = Progress bp)"
| "stands_for ci (Offboard_cmd bp) q = (\<exists>name. resolve_blueprint_name ci bp = Inr name \<and> q = Offboard name)"
| "stands_for ci (Start_cmd bp wn dry cmd) q =
     (\<not> dry \<and> (\<exists>name. resolve_blueprint_name ci bp = Inr name \<and> q = Dispatch name wn cmd))"
| "stands_for ci (Stop_cmd bp t) q = (\<exists>b. target_blueprint ci bp t = Inr b \<and> q = Stop b t)"
| "stands_for ci (Continue_cmd bp t) q = (\<exists>b. target_blueprint ci bp t = Inr b \<and> q = Continue b t)"
| "stands_for ci (Init_cmd path dry) q = (\<not> dry \<and> (\<exists>name. q = Onboard name))"
| "stands_for ci (Harvest_cmd cmd) q =
     (q = (case cmd of Harvest_list \<Rightarrow> ListHarvestRefs | Harvest_apply r \<Rightarrow> ApplyHarvestRef r))"
| "stands_for ci Daemon_cmd q = False"
| "stands_for ci (Tmux_cmd cmd) q = False"
| "stands_for ci (Plan_cmd bp description) q = False"
| "stands_for ci (Studio_cmd bind_addr port detach) q = False"

lemma lift_then_one:
  assumes "\<And>x. r = Inr x \<Longrightarrow> adds_one P (f x)"
  shows "adds_one P (bindE (lift_or sh r) f)"
proof (cases r)
  case (Inl e)
  then show ?thesis by (simp add: adds_one_none lift_or_def adds_fail)
next
  case (Inr x)
  then show ?thesis using assms by (simp add: lift_or_def)
qed

abbreviation asking_cli :: "'w cli \<Rightarrow> ('w \<times> request list) cli" where
  "asking_cli \<equiv> logged_cli (\<lambda>r. [r]) (\<lambda>f t. [])"

lemma same_names:
  "resolve_blueprint_name (logged_cli fr fw ci) = resolve_blueprint_name ci"
  "target_blueprint (logged_cli fr fw ci) = target_blueprint ci"
proof -
  have "folder_name (logged_cli fr fw ci) = folder_name ci" by (simp add: folder_name_def logged_cli_def)
  then show "resolve_blueprint_name (logged_cli fr fw ci) = resolve_blueprint_name ci"
    by (intro ext) (simp add: resolve_blueprint_name_def split: option.split)
  then show "target_blueprint (logged_cli fr fw ci) = target_blueprint ci"
    by (intro ext) (simp add: target_blueprint_def)
qed

lemma status_one: "adds_one (\<lambda>q. q = Progress bp) (cli_status (asking_cli ci) bp json)"
  unfolding cli_status_def
proof (rule ask_daemon_one)
  show "adds_none (case resp of RProgress ts \<Rightarrow> if json then (case ci_pretty (asking_cli ci) (progress_payload ts) of
      Some t \<Rightarrow> say (asking_cli ci) t | None \<Rightarrow> fail ''json'') else says (asking_cli ci) (status_lines ts)
    | other \<Rightarrow> unexpected (asking_cli ci) other)" for resp
    by (cases resp) (auto intro!: unexpected_quiet say_quiet says_quiet adds_fail split: option.split)
qed simp

lemma start_one:
  "adds_one (\<lambda>q. \<not> dry \<and> q = Dispatch name wn cmd) (cli_start (asking_cli ci) name wn dry cmd)"
proof (cases dry)
  case True
  then show ?thesis by (simp add: cli_start_def adds_one_none dry_run_quiet)
next
  case False
  have "adds_none (case resp of RDispatch t \<Rightarrow> say (asking_cli ci) (line t) | other \<Rightarrow> unexpected (asking_cli ci) other)" for resp line
    by (cases resp) (simp_all add: unexpected_quiet say_quiet)
  then show ?thesis using False by (simp add: cli_start_def ask_daemon_one)
qed

lemma harvest_one:
  "adds_one (\<lambda>q. q = ListHarvestRefs) (harvest_list (asking_cli ci))"
  "adds_one (\<lambda>q. q = ApplyHarvestRef r) (harvest_apply (asking_cli ci) r)"
proof -
  have "adds_none (case resp of RHarvestRefs refs \<Rightarrow> says (asking_cli ci) (ls refs) | other \<Rightarrow> unexpected (asking_cli ci) other)" for resp ls
    by (cases resp) (simp_all add: unexpected_quiet says_quiet)
  then show "adds_one (\<lambda>q. q = ListHarvestRefs) (harvest_list (asking_cli ci))"
    by (simp add: harvest_list_def ask_daemon_one)
  have "adds_none (case resp of RHarvestApplied n a \<Rightarrow> say (asking_cli ci) (line n a) | other \<Rightarrow> unexpected (asking_cli ci) other)" for resp line
    by (cases resp) (simp_all add: unexpected_quiet say_quiet)
  then show "adds_one (\<lambda>q. q = ApplyHarvestRef r) (harvest_apply (asking_cli ci) r)"
    by (simp add: harvest_apply_def ask_daemon_one)
qed

lemma program_quiet:
  "adds_none (cli_daemon (asking_cli ci))" "adds_none (cli_tmux (asking_cli ci) cmd)"
  "adds_none (studio_cmd (asking_cli ci) bind_addr port detach)"
proof -
  let ?ci = "asking_cli ci"
  have run: "adds_none (\<lambda>w. bindE (ci_run ?ci exe args) (\<lambda>(ok, st). if ok then ret () else fail (e st)) w)" for exe args e
    by (auto intro!: adds_only_bindE logged_cli_ops adds_ret adds_fail)
  show "adds_none (cli_daemon ?ci)"
    by (rule adds_reads [where g = "\<lambda>v. case resolve_daemon_exe (ci_env ?ci) (ci_current_exe ?ci) (file_exists (ci_files ?ci v)) of
        Inl e \<Rightarrow> fail e | Inr exe \<Rightarrow> bindE (ci_run ?ci exe []) (\<lambda>(ok, st).
          if ok then ret () else fail (''janus-daemon exited with '' @ st))"])
       (auto simp: cli_daemon_def adds_fail run split: sum.split)
  have "adds_none (create_session (ci_tmux ?ci) i c d)" "adds_none (attach (ci_tmux ?ci) i)"
    "adds_none (list_sessions (ci_tmux ?ci))" for i c d by (simp_all add: logged_cli_ops)
  then show "adds_none (cli_tmux ?ci cmd)"
    by (cases cmd) (auto simp: cli_tmux_def intro!: adds_only_bindE logged_cli_ops adds_ret say_quiet says_quiet split: option.split)
  show "adds_none (studio_cmd ?ci bind_addr port detach)"
    unfolding studio_cmd_def Let_def
    by (intro adds_only_bindE adds_if need_daemon_quiet context_quiet(1) logged_cli_ops say_quiet)
       (auto intro!: adds_ret adds_fail)
qed

text \<open>C14: In every run a command asks the daemon at most once, and only for what it stands for: with the
  blueprint that is named, else the current directory's name; \<open>stop\<close> and \<open>continue\<close> of a task name
  no blueprint. A dry run and the commands on sessions, plans and servers ask nothing.\<close>

theorem cli_asks_its_request:
  "adds (\<lambda>us. us = [] \<or> (\<exists>q. us = [q] \<and> stands_for ci cmd q)) (cli_main (asking_cli ci) n cmd)"
proof -
  have plan: "adds_none (bindE (gets (cli_repo_root (asking_cli ci))) (plan_workflow (asking_cli ci) name description))"
    for name description by (intro adds_only_bindE plan_adds) (simp_all add: adds_gets)
  have "adds_one (stands_for ci cmd) (cli_main (asking_cli ci) n cmd)"
    by (cases cmd)
       (auto simp: same_names lifecycle_cmd_def cli_stop_def cli_continue_def intro!: lift_then_one ask_ok_one
         intro: adds_one_mono [OF status_one] adds_one_mono [OF start_one] adds_one_mono [OF init_one]
         adds_one_mono [OF harvest_one(1)] adds_one_mono [OF harvest_one(2)] adds_one_none program_quiet plan
         split: harvest_cmd.split)
  then show ?thesis by (simp add: adds_one_def)
qed

section \<open>What plan writes\<close>

abbreviation writing_cli :: "'w cli \<Rightarrow> ('w \<times> (string \<times> string) list) cli" where
  "writing_cli \<equiv> logged_cli (\<lambda>r. []) (\<lambda>f t. [(f, t)])"

text \<open>Whatever the model answers, \<open>plan\<close> writes only the file of the name under the workflows of the
  project, and only a text that is read as a configuration that validates.\<close>

theorem plan_writes_valid:
  "adds_only (\<lambda>(f, t). f = path_join (path_join root ''.janus/workflows'') (name @ ''.toml'') \<and>
      (\<exists>config. ci_dag_toml ci t = Some config \<and> dag_validate config = Some (Inr ())))
    (plan_workflow (writing_cli ci) name description root)"
  by (rule plan_adds) simp

section \<open>A spoilt project\<close>

text \<open>C16: The first \<open>init\<close> of a project creates \<open>.janus\<close> before it looks for the templates. If they are missing
  it fails and leaves the directory behind, and from then on \<open>init\<close> takes the project for initialised: even
  when the templates have been installed it copies nothing, asks nothing, and fails to read the blueprint
  as long as nobody writes that file or removes the directory.\<close>

theorem init_stuck:
  assumes root: "\<And>u. ci_canonicalize ci path u = Some root"
    and fresh: "\<not> file_exists (ci_files ci w) (path_join root ''.janus'')"
    and created: "ci_create_dir_all ci (path_join root ''.janus'') w = Some (Inr (), w')"
      "ci_files ci w' = (ci_files ci w)(path_join root ''.janus'' \<mapsto> Dir)"
    and none: "\<not> file_exists (ci_files ci w') (path_join (cli_repo_root ci w) ''templates'')"
    and prints: "\<And>u t. ci_files ci (ci_err ci t u) = ci_files ci u"
    and later: "file_exists (ci_files ci v) (path_join root ''.janus'')" "\<not> file_exists (ci_files ci v) (recipe_path root)"
  shows "init_project ci n path dry w = Some (Inl (''templates/ not found at '' @
      path_join (cli_repo_root ci w) ''templates'' @ ''. Is MetaMach installed?''), w') \<and>
    file_exists (ci_files ci w') (path_join root ''.janus'') \<and>
    (\<exists>t. init_project ci n' path dry' v =
      Some (Inl (ci_show_error ci (Read_failed (recipe_path root))), ci_err ci t v))"
proof (intro conjI)
  have "scaffold ci n (cli_repo_root ci w) root w = Some (Inl (''templates/ not found at '' @
      path_join (cli_repo_root ci w) ''templates'' @ ''. Is MetaMach installed?''), w')"
    using created(1) none by (simp add: scaffold_def Let_def bindE_def gets_def fail_def)
  then show "init_project ci n path dry w = Some (Inl (''templates/ not found at '' @
      path_join (cli_repo_root ci w) ''templates'' @ ''. Is MetaMach installed?''), w')"
    using root fresh by (simp add: init_project_def bindE_def gets_def)
  show "file_exists (ci_files ci w') (path_join root ''.janus'')" using created(2) by (simp add: file_exists_def)
  have read: "read_blueprint_name (ci_toml ci) (ci_files ci (ci_err ci t v)) root = Inl (Read_failed (recipe_path root))" for t
    using later(2) by (simp add: prints read_blueprint_name_def read_recipe_def read_to_string_def file_exists_def)
  show "\<exists>t. init_project ci n' path dry' v =
      Some (Inl (ci_show_error ci (Read_failed (recipe_path root))), ci_err ci t v)"
    using root later(1) by (simp add: init_project_def check_and_register_def bindE_def gets_def modify_def
        lift_or_def fail_def read) blast
qed

text \<open>A project in a machine without templates, where they are installed afterwards.\<close>

definition bare_cli :: "fs cli" where
  "bare_cli =
     \<lparr>ci_client = \<lparr>cl_ask = (\<lambda>_ _. ret RPong), cl_ensure = (\<lambda>_. ret ())\<rparr>,
      ci_out = (\<lambda>_ w. w), ci_err = (\<lambda>_ w. w), ci_files = (\<lambda>w. w),
      ci_create_dir_all = (\<lambda>d w. Some (Inr (), w(d \<mapsto> Dir))), ci_write = (\<lambda>f t w. Some (Inr (), w(f \<mapsto> File t))),
      ci_copy = (\<lambda>a b w. Some (Inr (), w(b := w a))), ci_read_dir = (\<lambda>_. ret []), ci_canonicalize = (\<lambda>f _. Some ''/p''),
      ci_env = Map.empty, ci_current_dir = Some ''/m'', ci_current_exe = None,
      ci_toml = \<lparr>toml_recipe = (\<lambda>_. None), toml_workflow = (\<lambda>_. None), toml_dag = (\<lambda>_. None)\<rparr>,
      ci_dag_toml = (\<lambda>_. None), ci_toml_table = (\<lambda>_. None), ci_show_error = (\<lambda>_. ''error''),
      ci_show_dag = (\<lambda>_. ''dag''), ci_show_response = (\<lambda>_. ''response''), ci_pretty = (\<lambda>_. None),
      ci_new_uuid = ret 1, ci_tmux = \<lparr>create_session = (\<lambda>_ _ _. ret ()), attach = (\<lambda>_. ret ()),
        kill_session = (\<lambda>_. ret ()), has_session = (\<lambda>_. ret False), list_sessions = ret [], capture_pane = (\<lambda>_. ret []),
        poll_exit = (\<lambda>_. ret None)\<rparr>, ci_run = (\<lambda>_ _. ret (True, [])), ci_spawn = (\<lambda>_ _. ret 1),
      ci_post = (\<lambda>_ _ _ _. ret (Inr JNull))\<rparr>"

lemma init_stuck_witness:
  "\<exists>w'. init_project bare_cli 1 ''.'' True Map.empty =
      Some (Inl ''templates/ not found at /m/templates. Is MetaMach installed?'', w') \<and>
    init_project bare_cli 1 ''.'' True [''/p/.janus'' \<mapsto> Dir, ''/m/templates'' \<mapsto> Dir] =
      Some (Inl ''error'', [''/p/.janus'' \<mapsto> Dir, ''/m/templates'' \<mapsto> Dir])"
proof -
  let ?w' = "[''/p/.janus'' \<mapsto> Dir]" and ?v = "[''/p/.janus'' \<mapsto> Dir, ''/m/templates'' \<mapsto> Dir]"
  have paths: "path_join ''/p'' ''.janus'' = ''/p/.janus''" "path_join ''/m'' ''templates'' = ''/m/templates''"
    "recipe_path ''/p'' = ''/p/.janus/blueprint.toml''" "path_join [] ''templates'' = ''templates''"
    by code_simp+
  have ops: "ci_files bare_cli = (\<lambda>w. w)" "ci_canonicalize bare_cli = (\<lambda>_ _. Some ''/p'')" "ci_err bare_cli = (\<lambda>_ w. w)"
    "ci_create_dir_all bare_cli = (\<lambda>d w. Some (Inr (), w(d \<mapsto> Dir)))" "ci_show_error bare_cli = (\<lambda>_. ''error'')"
    by (simp_all add: bare_cli_def)
  have root: "cli_repo_root bare_cli Map.empty = ''/m''" by code_simp
  have "init_project bare_cli 1 ''.'' True Map.empty = Some (Inl (''templates/ not found at '' @
        path_join (cli_repo_root bare_cli Map.empty) ''templates'' @ ''. Is MetaMach installed?''), ?w') \<and>
      file_exists (ci_files bare_cli ?w') (path_join ''/p'' ''.janus'') \<and>
      (\<exists>t. init_project bare_cli 1 ''.'' True ?v =
        Some (Inl (ci_show_error bare_cli (Read_failed (recipe_path ''/p''))), ci_err bare_cli t ?v))"
    by (rule init_stuck) (simp_all add: ops file_exists_def paths root)
  then show ?thesis by (simp add: root paths ops)
qed

end
